theory Spec2Isabelle
  imports Complex_Main
begin

section \<open>The tensor runtime, as the detector uses it\<close>

text \<open>
  The detector of \<^verbatim>\<open>src/handtrack/src/hand.ts\<close> is glue code over the tensor
  runtime: every \<^verbatim>\<open>tf.*\<close> call creates a new tensor object, \<^verbatim>\<open>tf.tidy\<close> releases
  the tensors created inside its callback apart from those the callback returns, and
  \<^verbatim>\<open>dispose\<close> releases one tensor. The embedding keeps all three: a computation is a
  function from the runtime's bookkeeping (the identifiers of the live tensors and the
  next fresh identifier) to a result and the new bookkeeping, and an exception thrown by
  the runtime is the result \<open>Inl\<close>.

  Tensor entries are \<open>real\<close> numbers: the arithmetic is the exact one, and the rounding of
  the runtime's 32-bit floats is not part of this model. Tensors of rank 1, 2 and 3 are
  nested lists; the rank-4 image tensor keeps its four dimensions and its entries.
\<close>

datatype error = ShapeError | IndexError | TypeError | RuntimeError

type_synonym Tensor1D = "real list"
type_synonym Tensor2D = "real list list"
type_synonym Tensor3D = "real list list list"

record Tensor4D =
  shape0 :: nat
  shape1 :: nat
  shape2 :: nat
  shape3 :: nat
  entries :: "real list"

record 'a tensor =
  tid :: nat
  tval :: 'a

record tfstate =
  live :: "nat list"
  nextId :: nat

type_synonym 'a tf = "tfstate \<Rightarrow> (error + 'a) \<times> tfstate"

definition tf_return :: "'a \<Rightarrow> 'a tf" where
  "tf_return x s = (Inr x, s)"

definition tf_bind :: "'a tf \<Rightarrow> ('a \<Rightarrow> 'b tf) \<Rightarrow> 'b tf" where
  "tf_bind m f s = (case m s of (Inl e, s') \<Rightarrow> (Inl e, s') | (Inr x, s') \<Rightarrow> f x s')"

text \<open>A new tensor object holding the value of an operation, or the operation's exception.\<close>

definition makeTensor :: "error + 'a \<Rightarrow> 'a tensor tf" where
  "makeTensor r s =
     (case r of
        Inl e \<Rightarrow> (Inl e, s)
      | Inr v \<Rightarrow> (Inr \<lparr>tid = nextId s, tval = v\<rparr>,
                  s\<lparr>live := live s @ [nextId s], nextId := Suc (nextId s)\<rparr>))"

definition dispose :: "'a tensor \<Rightarrow> unit tf" where
  "dispose t s = (Inr (), s\<lparr>live := removeAll (tid t) (live s)\<rparr>)"

text \<open>
  \<^verbatim>\<open>tf.tidy(fn)\<close>: runs \<open>fn\<close>, then releases every tensor created during the run that is
  not among the tensors of the returned value (\<open>kept\<close> lists their identifiers). When
  \<open>fn\<close> throws, all of its tensors are released and the exception goes on.
\<close>

definition tidy :: "('a \<Rightarrow> nat list) \<Rightarrow> 'a tf \<Rightarrow> 'a tf" where
  "tidy kept fn s =
     (case fn s of
        (r, s') \<Rightarrow>
          (r, s'\<lparr>live :=
                 filter (\<lambda>t. t < nextId s \<or> (case r of Inl e \<Rightarrow> False | Inr v \<Rightarrow> t \<in> set (kept v)))
                   (live s')\<rparr>))"

subsection \<open>Values of the tensor operations\<close>

fun sequence :: "(error + 'a) list \<Rightarrow> error + 'a list" where
  "sequence [] = Inr []"
| "sequence (x # xs) =
     (case x of
        Inl e \<Rightarrow> Inl e
      | Inr v \<Rightarrow> (case sequence xs of Inl e \<Rightarrow> Inl e | Inr vs \<Rightarrow> Inr (v # vs)))"

text \<open>
  Broadcasting along one dimension: the sizes agree, or one of them is 1 and its only
  element is paired with every element of the other; anything else is a shape error.
  A binary operation on tensors of rank \<open>n\<close> broadcasts along each of its \<open>n\<close> dimensions;
  an operand of lower rank is first given leading dimensions of size 1.
\<close>

definition broadcast :: "('a \<Rightarrow> 'b \<Rightarrow> error + 'c) \<Rightarrow> 'a list \<Rightarrow> 'b list \<Rightarrow> error + 'c list" where
  "broadcast f xs ys =
     (if length xs = length ys then sequence (map2 f xs ys)
      else if length xs = 1 then sequence (map (f (hd xs)) ys)
      else if length ys = 1 then sequence (map (\<lambda>x. f x (hd ys)) xs)
      else Inl ShapeError)"

definition op0 :: "(real \<Rightarrow> real \<Rightarrow> real) \<Rightarrow> real \<Rightarrow> real \<Rightarrow> error + real" where
  "op0 f a b = Inr (f a b)"

definition op1 :: "(real \<Rightarrow> real \<Rightarrow> real) \<Rightarrow> Tensor1D \<Rightarrow> Tensor1D \<Rightarrow> error + Tensor1D" where
  "op1 f = broadcast (op0 f)"

definition op2 :: "(real \<Rightarrow> real \<Rightarrow> real) \<Rightarrow> Tensor2D \<Rightarrow> Tensor2D \<Rightarrow> error + Tensor2D" where
  "op2 f = broadcast (op1 f)"

definition op3 :: "(real \<Rightarrow> real \<Rightarrow> real) \<Rightarrow> Tensor3D \<Rightarrow> Tensor3D \<Rightarrow> error + Tensor3D" where
  "op3 f = broadcast (op2 f)"

text \<open>
  \<^verbatim>\<open>tf.slice\<close> along one dimension, from \<open>start\<close>, of \<open>count\<close> elements, where the
  count \<open>-1\<close> stands for all the elements from \<open>start\<close> on.
\<close>

definition slice_dim :: "nat \<Rightarrow> int \<Rightarrow> 'a list \<Rightarrow> error + 'a list" where
  "slice_dim start count xs =
     (if count < 0 then (if start \<le> length xs then Inr (drop start xs) else Inl IndexError)
      else if start + nat count \<le> length xs then Inr (take (nat count) (drop start xs))
      else Inl IndexError)"

definition slice2d :: "Tensor2D \<Rightarrow> nat \<times> nat \<Rightarrow> int \<times> int \<Rightarrow> error + Tensor2D" where
  "slice2d x start count =
     (case slice_dim (fst start) (fst count) x of
        Inl e \<Rightarrow> Inl e
      | Inr rows \<Rightarrow> sequence (map (slice_dim (snd start) (snd count)) rows))"

text \<open>
  The slice of a rank-3 tensor that the detector takes gives two start indices and one
  count; the runtime completes the start indices with 0 and the sizes with \<open>-1\<close>.
\<close>

definition slice3d :: "Tensor3D \<Rightarrow> nat \<times> nat \<Rightarrow> int \<Rightarrow> error + Tensor3D" where
  "slice3d x start count =
     (case slice_dim (fst start) count x of
        Inl e \<Rightarrow> Inl e
      | Inr ms \<Rightarrow> sequence (map (\<lambda>m. slice2d m (snd start, 0) (- 1, - 1)) ms))"

function chunk :: "nat \<Rightarrow> 'a list \<Rightarrow> 'a list list" where
  "chunk k xs = (if k = 0 \<or> xs = [] then [] else take k xs # chunk k (drop k xs))"
  by pat_completeness auto
termination
  by (relation "measure (\<lambda>(k, xs). length xs)") auto

declare chunk.simps [simp del]

text \<open>
  \<^verbatim>\<open>reshape([-1, k])\<close> and \<^verbatim>\<open>reshape([-1, j, k])\<close> of a tensor with the given entries in
  row-major order: the number of entries must be a multiple of the fixed sizes.
\<close>

definition reshape2 :: "nat \<Rightarrow> real list \<Rightarrow> error + Tensor2D" where
  "reshape2 k flat =
     (if k \<noteq> 0 \<and> length flat mod k = 0 then Inr (chunk k flat) else Inl ShapeError)"

definition reshape3 :: "nat \<Rightarrow> nat \<Rightarrow> real list \<Rightarrow> error + Tensor3D" where
  "reshape3 j k flat =
     (if j * k \<noteq> 0 \<and> length flat mod (j * k) = 0 then Inr (chunk j (chunk k flat))
      else Inl ShapeError)"

text \<open>
  \<^verbatim>\<open>squeeze()\<close> drops every dimension of size 1. The detector uses the result of
  squeezing a rank-3 tensor as a rank-2 tensor and the result of squeezing a rank-2
  tensor as a rank-1 tensor; when the squeezed tensor has another rank, the next
  operation on it throws, which is the error here.
\<close>

definition squeeze3 :: "Tensor3D \<Rightarrow> error + Tensor2D" where
  "squeeze3 x =
     (let d0 = length x; d1 = length (hd x); d2 = length (hd (hd x)) in
      if d0 = 0 \<or> d1 = 0 then Inl ShapeError
      else if d0 = 1 \<and> d1 \<noteq> 1 \<and> d2 \<noteq> 1 then Inr (hd x)
      else if d0 \<noteq> 1 \<and> d1 = 1 \<and> d2 \<noteq> 1 then Inr (map hd x)
      else if d0 \<noteq> 1 \<and> d1 \<noteq> 1 \<and> d2 = 1 then Inr (map (map hd) x)
      else Inl ShapeError)"

definition squeeze2 :: "Tensor2D \<Rightarrow> error + Tensor1D" where
  "squeeze2 x =
     (let d0 = length x; d1 = length (hd x) in
      if d0 = 0 then Inl ShapeError
      else if d0 = 1 \<and> d1 \<noteq> 1 then Inr (hd x)
      else if d0 \<noteq> 1 \<and> d1 = 1 then Inr (map hd x)
      else Inl ShapeError)"

definition sigmoid :: "real \<Rightarrow> real" where
  "sigmoid x = 1 / (1 + exp (- x))"

subsection \<open>The tensor operations the detector calls\<close>

definition tensor1d :: "real list \<Rightarrow> Tensor1D tensor tf" where
  "tensor1d vs = makeTensor (Inr vs)"

text \<open>\<^verbatim>\<open>tf.tensor2d\<close> of an array of rows; it cannot infer two dimensions from an empty array.\<close>

definition tensor2d :: "real list list \<Rightarrow> Tensor2D tensor tf" where
  "tensor2d vs = makeTensor (if vs = [] then Inl ShapeError else Inr vs)"

definition tf_slice2d :: "Tensor2D tensor \<Rightarrow> nat \<times> nat \<Rightarrow> int \<times> int \<Rightarrow> Tensor2D tensor tf" where
  "tf_slice2d x start count = makeTensor (slice2d (tval x) start count)"

definition tf_slice3d :: "Tensor3D tensor \<Rightarrow> nat \<times> nat \<Rightarrow> int \<Rightarrow> Tensor3D tensor tf" where
  "tf_slice3d x start count = makeTensor (slice3d (tval x) start count)"

definition tf_op_2d_1d ::
  "(real \<Rightarrow> real \<Rightarrow> real) \<Rightarrow> Tensor2D tensor \<Rightarrow> Tensor1D tensor \<Rightarrow> Tensor2D tensor tf" where
  "tf_op_2d_1d f a b = makeTensor (op2 f (tval a) [tval b])"

definition tf_op_2d_2d ::
  "(real \<Rightarrow> real \<Rightarrow> real) \<Rightarrow> Tensor2D tensor \<Rightarrow> Tensor2D tensor \<Rightarrow> Tensor2D tensor tf" where
  "tf_op_2d_2d f a b = makeTensor (op2 f (tval a) (tval b))"

definition tf_op_3d_1d ::
  "(real \<Rightarrow> real \<Rightarrow> real) \<Rightarrow> Tensor3D tensor \<Rightarrow> Tensor1D tensor \<Rightarrow> Tensor3D tensor tf" where
  "tf_op_3d_1d f a b = makeTensor (op3 f (tval a) [[tval b]])"

definition tf_op_3d_3d ::
  "(real \<Rightarrow> real \<Rightarrow> real) \<Rightarrow> Tensor3D tensor \<Rightarrow> Tensor3D tensor \<Rightarrow> Tensor3D tensor tf" where
  "tf_op_3d_3d f a b = makeTensor (op3 f (tval a) (tval b))"

definition tf_op_4d_scalar ::
  "(real \<Rightarrow> real \<Rightarrow> real) \<Rightarrow> Tensor4D tensor \<Rightarrow> real \<Rightarrow> Tensor4D tensor tf" where
  "tf_op_4d_scalar f a c = makeTensor (Inr ((tval a)\<lparr>entries := map (\<lambda>v. f v c) (entries (tval a))\<rparr>))"

definition tf_concat2d_axis1 :: "Tensor2D tensor \<Rightarrow> Tensor2D tensor \<Rightarrow> Tensor2D tensor tf" where
  "tf_concat2d_axis1 a b =
     makeTensor (if length (tval a) = length (tval b) then Inr (map2 (@) (tval a) (tval b))
                 else Inl ShapeError)"

definition tf_reshape_2d_to_3d :: "Tensor2D tensor \<Rightarrow> nat \<Rightarrow> nat \<Rightarrow> Tensor3D tensor tf" where
  "tf_reshape_2d_to_3d x j k = makeTensor (reshape3 j k (concat (tval x)))"

definition tf_reshape_3d_to_2d :: "Tensor3D tensor \<Rightarrow> nat \<Rightarrow> Tensor2D tensor tf" where
  "tf_reshape_3d_to_2d x k = makeTensor (reshape2 k (concat (concat (tval x))))"

definition tf_squeeze3 :: "Tensor3D tensor \<Rightarrow> Tensor2D tensor tf" where
  "tf_squeeze3 x = makeTensor (squeeze3 (tval x))"

definition tf_squeeze2 :: "Tensor2D tensor \<Rightarrow> Tensor1D tensor tf" where
  "tf_squeeze2 x = makeTensor (squeeze2 (tval x))"

definition tf_sigmoid :: "Tensor2D tensor \<Rightarrow> Tensor2D tensor tf" where
  "tf_sigmoid x = makeTensor (Inr (map (map sigmoid) (tval x)))"

text \<open>
  Three operations are opaque to the detector: the pretrained graph model's
  \<^verbatim>\<open>predict\<close>, the runtime's \<^verbatim>\<open>resizeBilinear\<close> and the runtime's
  \<^verbatim>\<open>tf.image.nonMaxSuppression\<close>. They are parameters of the embedding: any function of
  the operand values that returns a value or throws.
\<close>

record GraphModel =
  predict :: "Tensor4D \<Rightarrow> error + Tensor3D"

record runtime =
  rt_resizeBilinear :: "Tensor4D \<Rightarrow> real \<times> real \<Rightarrow> error + Tensor4D"
  rt_nonMaxSuppression :: "Tensor2D \<Rightarrow> Tensor1D \<Rightarrow> nat \<Rightarrow> real \<Rightarrow> real \<Rightarrow> error + nat list"

definition tf_predict :: "GraphModel \<Rightarrow> Tensor4D tensor \<Rightarrow> Tensor3D tensor tf" where
  "tf_predict m x = makeTensor (predict m (tval x))"

definition tf_resizeBilinear :: "runtime \<Rightarrow> Tensor4D tensor \<Rightarrow> real \<times> real \<Rightarrow> Tensor4D tensor tf" where
  "tf_resizeBilinear rt x newSize = makeTensor (rt_resizeBilinear rt (tval x) newSize)"

definition tf_image_nonMaxSuppression ::
  "runtime \<Rightarrow> Tensor2D tensor \<Rightarrow> Tensor1D tensor \<Rightarrow> nat \<Rightarrow> real \<Rightarrow> real \<Rightarrow> nat list tensor tf" where
  "tf_image_nonMaxSuppression rt boxes scores maxOutputSize iouThreshold' scoreThreshold' =
     makeTensor (rt_nonMaxSuppression rt (tval boxes) (tval scores) maxOutputSize
       iouThreshold' scoreThreshold')"

definition arraySync :: "'a tensor \<Rightarrow> 'a" where
  "arraySync t = tval t"

section \<open>The detector\<close>

record Anchor =
  x_center :: real
  y_center :: real

record HandDetector =
  model :: GraphModel
  width :: real
  height :: real
  iouThreshold :: real
  scoreThreshold :: real
  anchors :: "Tensor2D tensor"
  inputSizeTensor :: "Tensor1D tensor"
  doubleInputSizeTensor :: "Tensor1D tensor"

definition HandDetector_new ::
  "GraphModel \<Rightarrow> real \<Rightarrow> real \<Rightarrow> Anchor list \<Rightarrow> real \<Rightarrow> real \<Rightarrow> HandDetector tf" where
  "HandDetector_new model' width' height' ANCHORS iouThreshold' scoreThreshold' =
     tf_bind (tensor2d (map (\<lambda>anchor. [x_center anchor, y_center anchor]) ANCHORS)) (\<lambda>anchors'.
     tf_bind (tensor1d [width', height']) (\<lambda>inputSizeTensor'.
     tf_bind (tensor1d [width' * 2, height' * 2]) (\<lambda>doubleInputSizeTensor'.
     tf_return \<lparr>model = model', width = width', height = height',
       iouThreshold = iouThreshold', scoreThreshold = scoreThreshold',
       anchors = anchors', inputSizeTensor = inputSizeTensor',
       doubleInputSizeTensor = doubleInputSizeTensor'\<rparr>)))"

definition normalizeBoxes :: "HandDetector \<Rightarrow> Tensor2D tensor \<Rightarrow> Tensor2D tensor tf" where
  "normalizeBoxes this boxes =
     tf_bind (tf_slice2d boxes (0, 0) (- 1, 2)) (\<lambda>boxOffsets.
     tf_bind (tf_slice2d boxes (0, 2) (- 1, 2)) (\<lambda>boxSizes.
     tf_bind (tf_op_2d_1d (/) boxOffsets (inputSizeTensor this)) (\<lambda>offsetsDiv.
     tf_bind (tf_op_2d_2d (+) offsetsDiv (anchors this)) (\<lambda>boxCenterPoints.
     tf_bind (tf_op_2d_1d (/) boxSizes (doubleInputSizeTensor this)) (\<lambda>halfBoxSizes.
     tf_bind (tf_op_2d_2d (-) boxCenterPoints halfBoxSizes) (\<lambda>startPoints.
     tf_bind (tf_op_2d_2d (+) boxCenterPoints halfBoxSizes) (\<lambda>endPoints.
     tf_bind (tf_op_2d_1d (*) startPoints (inputSizeTensor this)) (\<lambda>startScaled.
     tf_bind (tf_op_2d_1d (*) endPoints (inputSizeTensor this)) (\<lambda>endScaled.
     tf_concat2d_axis1 startScaled endScaled)))))))))"

definition decode_landmarks :: "HandDetector \<Rightarrow> Tensor2D tensor \<Rightarrow> Tensor3D tensor tf" where
  "decode_landmarks this raw_landmarks =
     tf_bind (tf_reshape_2d_to_3d raw_landmarks 7 2) (\<lambda>reshaped.
     tf_bind (tf_op_3d_1d (/) reshaped (inputSizeTensor this)) (\<lambda>landmarksDiv.
     tf_bind (tf_reshape_2d_to_3d (anchors this) 1 2) (\<lambda>anchors3d.
     tf_bind (tf_op_3d_3d (+) landmarksDiv anchors3d) (\<lambda>relative_landmarks.
     tf_op_3d_1d (*) relative_landmarks (inputSizeTensor this)))))"

text \<open>
  \<^verbatim>\<open>_getBoundingBox\<close>: the whole body runs inside \<^verbatim>\<open>tf.tidy\<close>, which keeps the two
  returned tensors, or nothing when the result is \<^verbatim>\<open>[null, null]\<close> (here \<open>None\<close>).
\<close>

definition getBoundingBox ::
  "runtime \<Rightarrow> HandDetector \<Rightarrow> Tensor4D tensor \<Rightarrow> (Tensor2D tensor \<times> Tensor2D tensor) option tf" where
  "getBoundingBox rt this input =
     tidy (\<lambda>r. case r of None \<Rightarrow> [] | Some (b, l) \<Rightarrow> [tid b, tid l])
      (tf_bind (tf_op_4d_scalar (-) input 0.5) (\<lambda>shifted.
       tf_bind (tf_op_4d_scalar (*) shifted 2) (\<lambda>img.
       tf_bind (tf_predict (model this) img) (\<lambda>predicted.
       tf_bind (tf_squeeze3 predicted) (\<lambda>prediction.
       tf_bind (tf_slice2d prediction (0, 0) (- 1, 1)) (\<lambda>rawScores.
       tf_bind (tf_sigmoid rawScores) (\<lambda>sigmoids.
       tf_bind (tf_squeeze2 sigmoids) (\<lambda>scores.
       tf_bind (tf_slice2d prediction (0, 1) (- 1, 4)) (\<lambda>rawBoxes.
       tf_bind (normalizeBoxes this rawBoxes) (\<lambda>boxes.
       tf_bind (tf_image_nonMaxSuppression rt boxes scores 1
                  (iouThreshold this) (scoreThreshold this)) (\<lambda>selected.
       let box_indices = arraySync selected in
       if length box_indices = 0 then tf_return None
       else
         let box_index = hd box_indices in
         tf_bind (tf_slice2d boxes (box_index, 0) (1, - 1)) (\<lambda>result_box.
         tf_bind (tf_slice2d prediction (0, 5) (- 1, 14)) (\<lambda>raw_landmarks.
         tf_bind (decode_landmarks this raw_landmarks) (\<lambda>landmarks3d.
         tf_bind (tf_slice3d landmarks3d (box_index, 0) 1) (\<lambda>landmarkSlice.
         tf_bind (tf_reshape_3d_to_2d landmarkSlice 2) (\<lambda>result_landmarks.
         tf_return (Some (result_box, result_landmarks))))))))))))))))))"

record BoundingBox =
  startPoint :: "real list"
  endPoint :: "real list"
  landmarks :: "real list list"

text \<open>
  Modelled from the spec: \<^verbatim>\<open>scaleBoxCoordinates\<close> is imported from \<^verbatim>\<open>./box\<close>, which is
  not among the sources. The spec's step 9: ``multiply the selected box and landmark
  coordinates by \<^verbatim>\<open>(originalWidth/width, originalHeight/height)\<close>'', and its testable
  property: for factors \<open>(2, 2)\<close> a box from \<open>(10, 10)\<close> to \<open>(20, 20)\<close> rescales to the box
  from \<open>(20, 20)\<close> to \<open>(40, 40)\<close>. Each point is an \<open>(x, y)\<close> pair; its \<open>x\<close> is multiplied by
  the first factor and its \<open>y\<close> by the second.
\<close>

definition scalePoint :: "real list \<Rightarrow> real \<times> real \<Rightarrow> real list" where
  "scalePoint p factors = map2 (*) p [fst factors, snd factors]"

definition scaleBoxCoordinates :: "BoundingBox \<Rightarrow> real \<times> real \<Rightarrow> BoundingBox" where
  "scaleBoxCoordinates box factors =
     \<lparr>startPoint = scalePoint (startPoint box) factors,
      endPoint = scalePoint (endPoint box) factors,
      landmarks = map (\<lambda>p. scalePoint p factors) (landmarks box)\<rparr>"

text \<open>
  \<^verbatim>\<open>getSingleBoundingBox\<close>. The resized and normalised image is the tensor its
  \<^verbatim>\<open>tf.tidy\<close> returns. On \<^verbatim>\<open>!bboxes_data[0]\<close> the method returns \<^verbatim>\<open>null\<close> at once; the
  three \<^verbatim>\<open>dispose\<close> calls stand after the rescaling, on the other path only.
  \<^verbatim>\<open>bboxes[0]\<close> of an empty array is \<^verbatim>\<open>undefined\<close>, whose \<^verbatim>\<open>slice\<close> is a type error.
\<close>

definition getSingleBoundingBox ::
  "runtime \<Rightarrow> HandDetector \<Rightarrow> Tensor4D tensor \<Rightarrow> BoundingBox option tf" where
  "getSingleBoundingBox rt this input =
     (let original_h = shape1 (tval input);
          original_w = shape2 (tval input) in
      tf_bind (tidy (\<lambda>t. [tid t])
                 (tf_bind (tf_resizeBilinear rt input (width this, height this)) (\<lambda>resized.
                  tf_op_4d_scalar (/) resized 255))) (\<lambda>image.
      tf_bind (getBoundingBox rt this image) (\<lambda>bboxes_data.
      case bboxes_data of
        None \<Rightarrow> tf_return None
      | Some (bboxes_tensor, landmarks_tensor) \<Rightarrow>
          (case arraySync bboxes_tensor of
             [] \<Rightarrow> (\<lambda>s. (Inl TypeError, s))
           | bboxes0 # _ \<Rightarrow>
               let landmarks' = arraySync landmarks_tensor;
                   factors = (real original_w / width this, real original_h / height this);
                   bb = scaleBoxCoordinates
                          \<lparr>startPoint = take 2 bboxes0,
                           endPoint = take 2 (drop 2 bboxes0),
                           landmarks = landmarks'\<rparr> factors
               in
               tf_bind (dispose image) (\<lambda>_.
               tf_bind (dispose bboxes_tensor) (\<lambda>_.
               tf_bind (dispose landmarks_tensor) (\<lambda>_.
               tf_return (Some bb))))))))"

section \<open>Non-maximum suppression, as the spec describes it\<close>

text \<open>
  Modelled from the spec: \<^verbatim>\<open>tf.image.nonMaxSuppression\<close> belongs to the tensor runtime
  and is not among the sources. The spec's step 6: ``sort candidates by score
  descending; greedily accept the highest-scoring candidate whose IoU with all
  previously accepted candidates is below the threshold; discard candidates below
  the score threshold before consideration'', requesting at most \<open>maxOutputSize\<close>
  surviving boxes. The glossary: IoU is the ``overlap ratio between two boxes'', here
  the area of the intersection over the area of the union of two boxes given by their
  corners \<open>[x1, y1, x2, y2]\<close>, and 0 for two boxes of no area.
\<close>

definition box_area :: "real list \<Rightarrow> real" where
  "box_area b = (b ! 2 - b ! 0) * (b ! 3 - b ! 1)"

definition intersection_area :: "real list \<Rightarrow> real list \<Rightarrow> real" where
  "intersection_area a b =
     max 0 (min (a ! 2) (b ! 2) - max (a ! 0) (b ! 0)) *
     max 0 (min (a ! 3) (b ! 3) - max (a ! 1) (b ! 1))"

definition intersectionOverUnion :: "real list \<Rightarrow> real list \<Rightarrow> real" where
  "intersectionOverUnion a b =
     (let i = intersection_area a b; u = box_area a + box_area b - i in
      if u \<le> 0 then 0 else i / u)"

definition candidates :: "Tensor1D \<Rightarrow> real \<Rightarrow> nat list" where
  "candidates scores scoreThreshold' =
     sort_key (\<lambda>i. - (scores ! i))
       (filter (\<lambda>i. scoreThreshold' \<le> scores ! i) [0..<length scores])"

fun suppress :: "Tensor2D \<Rightarrow> real \<Rightarrow> nat \<Rightarrow> nat list \<Rightarrow> nat list \<Rightarrow> nat list" where
  "suppress boxes iouThreshold' maxOutputSize [] accepted = accepted"
| "suppress boxes iouThreshold' maxOutputSize (c # cs) accepted =
     (if maxOutputSize \<le> length accepted then accepted
      else if list_all (\<lambda>a. intersectionOverUnion (boxes ! c) (boxes ! a) < iouThreshold') accepted
      then suppress boxes iouThreshold' maxOutputSize cs (accepted @ [c])
      else suppress boxes iouThreshold' maxOutputSize cs accepted)"

definition nonMaxSuppression :: "Tensor2D \<Rightarrow> Tensor1D \<Rightarrow> nat \<Rightarrow> real \<Rightarrow> real \<Rightarrow> nat list" where
  "nonMaxSuppression boxes scores maxOutputSize iouThreshold' scoreThreshold' =
     suppress boxes iouThreshold' maxOutputSize (candidates scores scoreThreshold') []"

definition spec_runtime :: "(Tensor4D \<Rightarrow> real \<times> real \<Rightarrow> error + Tensor4D) \<Rightarrow> runtime" where
  "spec_runtime resize =
     \<lparr>rt_resizeBilinear = resize,
      rt_nonMaxSuppression = (\<lambda>boxes scores maxOutputSize iouThreshold' scoreThreshold'.
        Inr (nonMaxSuppression boxes scores maxOutputSize iouThreshold' scoreThreshold'))\<rparr>"

section \<open>The decoding, in the spec's words\<close>

text \<open>
  The spec's steps 4 and 5, for one row \<open>raw\<close> of the raw prediction and its anchor, with
  \<open>inputSize = [width, height]\<close>; \<open>raw[1:3]\<close> is \<open>take 2 (drop 1 raw)\<close>, the operations
  are element-wise over \<open>(x, y)\<close>. The seven landmark points of a row are the seven
  consecutive pairs from position 5 on.
\<close>

definition spec_decode_box :: "real list \<Rightarrow> real list \<Rightarrow> real list \<Rightarrow> real list \<times> real list" where
  "spec_decode_box inputSize raw anchor =
     (let center = map2 (+) (map2 (/) (take 2 (drop 1 raw)) inputSize) anchor;
          halfSize = map2 (/) (take 2 (drop 3 raw)) (map (\<lambda>d. 2 * d) inputSize);
          startPoint' = map2 (*) (map2 (-) center halfSize) inputSize;
          endPoint' = map2 (*) (map2 (+) center halfSize) inputSize
      in (startPoint', endPoint'))"

definition raw_landmark :: "real list \<Rightarrow> nat \<Rightarrow> real list" where
  "raw_landmark raw k = take 2 (drop (5 + 2 * k) raw)"

definition spec_decode_landmark :: "real list \<Rightarrow> real list \<Rightarrow> real list \<Rightarrow> real list" where
  "spec_decode_landmark inputSize rawPoint anchor =
     map2 (*) (map2 (+) (map2 (/) rawPoint inputSize) anchor) inputSize"

text \<open>
  The values that flow through one call, named for the statements below: the scores,
  the decoded boxes and the decoded landmarks of all rows of a squeezed prediction
  \<open>rows\<close>, row \<open>i\<close> against anchor \<open>i\<close>; the tensor the model sees (the image minus 0.5,
  times 2); and the resized image divided by 255.
\<close>

definition scores_value :: "Tensor2D \<Rightarrow> Tensor1D" where
  "scores_value rows = map (\<lambda>r. sigmoid (r ! 0)) rows"

definition decoded_boxes :: "HandDetector \<Rightarrow> Tensor2D \<Rightarrow> Tensor2D" where
  "decoded_boxes this rows =
     map2 (\<lambda>raw anchor.
         fst (spec_decode_box [width this, height this] raw anchor) @
         snd (spec_decode_box [width this, height this] raw anchor))
       rows (tval (anchors this))"

definition decoded_landmarks :: "HandDetector \<Rightarrow> Tensor2D \<Rightarrow> Tensor3D" where
  "decoded_landmarks this rows =
     map2 (\<lambda>raw anchor.
         map (\<lambda>k. spec_decode_landmark [width this, height this] (raw_landmark raw k) anchor) [0..<7])
       rows (tval (anchors this))"

definition model_input :: "Tensor4D \<Rightarrow> Tensor4D" where
  "model_input x = x\<lparr>entries := map (\<lambda>v. (v - 0.5) * 2) (entries x)\<rparr>"

definition resized_image :: "Tensor4D \<Rightarrow> Tensor4D" where
  "resized_image resized = resized\<lparr>entries := map (\<lambda>v. v / 255) (entries resized)\<rparr>"

text \<open>
  The detection that \<^verbatim>\<open>getSingleBoundingBox\<close> builds from row \<open>i\<close>: the first two and the
  last two entries of the row's decoded box and the row's decoded landmarks, rescaled
  by the factors \<open>(original_w / width, original_h / height)\<close>.
\<close>

definition detection :: "HandDetector \<Rightarrow> Tensor4D tensor \<Rightarrow> Tensor2D \<Rightarrow> nat \<Rightarrow> BoundingBox" where
  "detection this input rows i =
     scaleBoxCoordinates
       \<lparr>startPoint = take 2 (decoded_boxes this rows ! i),
        endPoint = take 2 (drop 2 (decoded_boxes this rows ! i)),
        landmarks = decoded_landmarks this rows ! i\<rparr>
       (real (shape2 (tval input)) / width this, real (shape1 (tval input)) / height this)"

section \<open>Well-formed detectors, states and calls\<close>

text \<open>
  A detector as the constructor builds it: the two size tensors hold the width and the
  height, and the anchor tensor has at least one row, each an \<open>(x, y)\<close> pair. A state of
  the runtime's bookkeeping as the runtime keeps it: every live identifier has been
  handed out already.
\<close>

definition wf_detector :: "HandDetector \<Rightarrow> bool" where
  "wf_detector this =
     (tval (inputSizeTensor this) = [width this, height this] \<and>
      tval (doubleInputSizeTensor this) = [width this * 2, height this * 2] \<and>
      tval (anchors this) \<noteq> [] \<and>
      list_all (\<lambda>a. length a = 2) (tval (anchors this)))"

definition wf_state :: "tfstate \<Rightarrow> bool" where
  "wf_state s = list_all (\<lambda>t. t < nextId s) (live s)"

text \<open>
  A call whose external collaborators answer as the spec's data model says: the model
  returns one batch of \<open>rows\<close>, one row of 19 values per anchor, and (for
  \<^verbatim>\<open>getSingleBoundingBox\<close>) the resize succeeds. A prediction of a single row is
  excluded: \<^verbatim>\<open>squeeze()\<close> would drop that dimension as well and the slices of
  \<^verbatim>\<open>_getBoundingBox\<close> would throw.
\<close>

definition well_formed_prediction :: "HandDetector \<Rightarrow> Tensor4D \<Rightarrow> Tensor2D \<Rightarrow> bool" where
  "well_formed_prediction this img rows =
     (predict (model this) (model_input img) = Inr [rows] \<and>
      length rows = length (tval (anchors this)) \<and>
      length rows \<noteq> 1 \<and>
      list_all (\<lambda>r. length r = 19) rows)"

definition well_formed_call :: "runtime \<Rightarrow> HandDetector \<Rightarrow> Tensor4D tensor \<Rightarrow> Tensor2D \<Rightarrow> bool" where
  "well_formed_call rt this input rows =
     (\<exists>resized. rt_resizeBilinear rt (tval input) (width this, height this) = Inr resized \<and>
        well_formed_prediction this (resized_image resized) rows)"

section \<open>Auxiliary notions for the proofs\<close>

text \<open>The state after \<open>n\<close> more tensors have been created.\<close>

definition allocs :: "nat \<Rightarrow> tfstate \<Rightarrow> tfstate" where
  "allocs n s = s\<lparr>live := live s @ [nextId s ..< nextId s + n], nextId := nextId s + n\<rparr>"

text \<open>The decoded values as the tensor operations compute them, entry by entry.\<close>

definition boxes_value :: "real \<Rightarrow> real \<Rightarrow> Tensor2D \<Rightarrow> Tensor2D \<Rightarrow> Tensor2D" where
  "boxes_value w h boxes anchs =
     map2 (\<lambda>r a.
        [(r ! 0 / w + a ! 0 - r ! 2 / (w * 2)) * w, (r ! 1 / h + a ! 1 - r ! 3 / (h * 2)) * h,
         (r ! 0 / w + a ! 0 + r ! 2 / (w * 2)) * w, (r ! 1 / h + a ! 1 + r ! 3 / (h * 2)) * h])
       boxes anchs"

definition landmarks_value :: "real \<Rightarrow> real \<Rightarrow> Tensor2D \<Rightarrow> Tensor2D \<Rightarrow> Tensor3D" where
  "landmarks_value w h raw anchs =
     map2 (\<lambda>r a. map (\<lambda>p. [(p ! 0 / w + a ! 0) * w, (p ! 1 / h + a ! 1) * h]) (chunk 2 r))
       raw anchs"

text \<open>
  A computation keeps the tensors below a mark \<open>n\<close>: run from a state whose next
  identifier is at least \<open>n\<close>, it leaves the live identifiers below \<open>n\<close> as they were, and
  its result satisfies \<open>post\<close>. Two computations have the same result whatever the
  states they run from, up to \<open>rel\<close> on their values.
\<close>

definition keeps :: "nat \<Rightarrow> ('a \<Rightarrow> bool) \<Rightarrow> 'a tf \<Rightarrow> bool" where
  "keeps n post m =
     (\<forall>s. n \<le> nextId s \<longrightarrow>
        (case m s of
           (r, s') \<Rightarrow>
             n \<le> nextId s' \<and>
             filter (\<lambda>t. t < n) (live s') = filter (\<lambda>t. t < n) (live s) \<and>
             (case r of Inl e \<Rightarrow> True | Inr x \<Rightarrow> post x)))"

definition fresh_from :: "nat \<Rightarrow> 'a tensor \<Rightarrow> bool" where
  "fresh_from n x = (n \<le> tid x)"

definition fresh_pair :: "nat \<Rightarrow> (Tensor2D tensor \<times> Tensor2D tensor) option \<Rightarrow> bool" where
  "fresh_pair n r = (case r of None \<Rightarrow> True | Some (b, l) \<Rightarrow> fresh_from n b \<and> fresh_from n l)"

definition same_result :: "('a \<Rightarrow> 'b \<Rightarrow> bool) \<Rightarrow> 'a tf \<Rightarrow> 'b tf \<Rightarrow> bool" where
  "same_result rel m1 m2 = (\<forall>s1 s2. rel_sum (=) rel (fst (m1 s1)) (fst (m2 s2)))"

definition same_value :: "'a tensor \<Rightarrow> 'a tensor \<Rightarrow> bool" where
  "same_value x y = (tval x = tval y)"

definition same_pair ::
  "(Tensor2D tensor \<times> Tensor2D tensor) option \<Rightarrow> (Tensor2D tensor \<times> Tensor2D tensor) option \<Rightarrow> bool" where
  "same_pair r r' =
     (case (r, r') of
        (None, None) \<Rightarrow> True
      | (Some (b, l), Some (b', l')) \<Rightarrow> same_value b b' \<and> same_value l l'
      | _ \<Rightarrow> False)"

section \<open>Concrete inputs\<close>

text \<open>
  A detector with two anchors, built on the empty runtime state, a model that returns a
  fixed prediction, and a prediction of two rows: the first with non-zero regression
  values, the second all zero.
\<close>

definition example_anchors :: "Anchor list" where
  "example_anchors = [\<lparr>x_center = 1 / 4, y_center = 1 / 4\<rparr>, \<lparr>x_center = 3 / 4, y_center = 3 / 4\<rparr>]"

definition example_state :: tfstate where
  "example_state = \<lparr>live = [], nextId = 0\<rparr>"

definition example_model :: "Tensor2D \<Rightarrow> GraphModel" where
  "example_model rows = \<lparr>predict = (\<lambda>x. Inr [rows])\<rparr>"

definition example_detector :: "GraphModel \<Rightarrow> real \<Rightarrow> real \<Rightarrow> real \<Rightarrow> real \<Rightarrow> HandDetector" where
  "example_detector gm w h iou thr =
     \<lparr>model = gm, width = w, height = h, iouThreshold = iou, scoreThreshold = thr,
      anchors = \<lparr>tid = 0, tval = [[1 / 4, 1 / 4], [3 / 4, 3 / 4]]\<rparr>,
      inputSizeTensor = \<lparr>tid = 1, tval = [w, h]\<rparr>,
      doubleInputSizeTensor = \<lparr>tid = 2, tval = [w * 2, h * 2]\<rparr>\<rparr>"

definition example_rows :: Tensor2D where
  "example_rows =
     [[0, 8, 16, 32, 64, 2, 4, 6, 8, 10, 12, 14, 16, 18, 20, 22, 24, 26, 28],
      [0, 0, 0, 0, 0, 0, 0, 0, 0, 0, 0, 0, 0, 0, 0, 0, 0, 0, 0]]"

text \<open>
  A call: an input image of 2 by 2 pixels with 3 channels, held by tensor 3; a resize
  that returns one pixel, whatever size is asked; a prediction of two rows that decode
  to the same box \<open>(10, 10)\<close> to \<open>(20, 20)\<close> for a detector of width and height 1, the
  second row with the higher score; and the runtime state in which the detector's three
  tensors and the input are live.
\<close>

definition example_input :: "Tensor4D tensor" where
  "example_input =
     \<lparr>tid = 3,
      tval = \<lparr>shape0 = 1, shape1 = 2, shape2 = 2, shape3 = 3,
              entries = [0, 0, 0, 0, 0, 0, 0, 0, 0, 0, 0, 0]\<rparr>\<rparr>"

definition example_resize :: "Tensor4D \<Rightarrow> real \<times> real \<Rightarrow> error + Tensor4D" where
  "example_resize x newSize =
     Inr \<lparr>shape0 = shape0 x, shape1 = 1, shape2 = 1, shape3 = shape3 x,
          entries = take (shape3 x) (entries x)\<rparr>"

definition example_call_rows :: Tensor2D where
  "example_call_rows =
     [[0, 59 / 4, 59 / 4, 10, 10, 0, 0, 0, 0, 0, 0, 0, 0, 0, 0, 0, 0, 0, 0],
      [1, 57 / 4, 57 / 4, 10, 10, 0, 0, 0, 0, 0, 0, 0, 0, 0, 0, 0, 0, 0, 0]]"

definition example_state_before_call :: tfstate where
  "example_state_before_call = \<lparr>live = [0, 1, 2, 3], nextId = 4\<rparr>"




section \<open>Lemmas\<close>

subsection \<open>Values of the tensor operations on well-shaped operands\<close>

lemma sequence_map_Inr:
  "(\<And>x. x \<in> set xs \<Longrightarrow> g x = Inr (h x)) \<Longrightarrow> sequence (map g xs) = Inr (map h xs)"
  by (induction xs) simp_all

lemma op1_same_length: "length a = length b \<Longrightarrow> op1 f a b = Inr (map2 f a b)"
  unfolding op1_def broadcast_def op0_def
  by (simp add: sequence_map_Inr [where h = "\<lambda>(x, y). f x y"] split_def)

lemma op2_vector:
  assumes "\<forall>r \<in> set x. length r = length v"
  shows "op2 f x [v] = Inr (map (\<lambda>r. map2 f r v) x)"
proof -
  have row: "\<And>r. r \<in> set x \<Longrightarrow> op1 f r v = Inr (map2 f r v)"
    using assms by (simp add: op1_same_length)
  show ?thesis
  proof (cases "length x = 1")
    case True
    then obtain r where x: "x = [r]" by (cases x) auto
    with row show ?thesis by (simp add: op2_def broadcast_def)
  next
    case False
    with row show ?thesis
      by (simp add: op2_def broadcast_def sequence_map_Inr)
  qed
qed

lemma op2_same_shape:
  assumes "length x = length y" and "\<forall>i < length x. length (x ! i) = length (y ! i)"
  shows "op2 f x y = Inr (map2 (map2 f) x y)"
proof -
  have "\<And>p. p \<in> set (zip x y) \<Longrightarrow> (\<lambda>(a, b). op1 f a b) p = Inr ((\<lambda>(a, b). map2 f a b) p)"
    using assms by (auto simp: in_set_zip op1_same_length)
  then have "sequence (map (\<lambda>(a, b). op1 f a b) (zip x y)) = Inr (map (\<lambda>(a, b). map2 f a b) (zip x y))"
    by (rule sequence_map_Inr)
  with assms(1) show ?thesis by (simp add: op2_def broadcast_def)
qed

lemma op3_vector:
  assumes "\<forall>m \<in> set x. \<forall>r \<in> set m. length r = length v"
  shows "op3 f x [[v]] = Inr (map (map (\<lambda>r. map2 f r v)) x)"
proof -
  have row: "\<And>m. m \<in> set x \<Longrightarrow> op2 f m [v] = Inr (map (\<lambda>r. map2 f r v) m)"
    using assms by (simp add: op2_vector)
  show ?thesis
  proof (cases "length x = 1")
    case True
    then obtain r where x: "x = [r]" by (cases x) auto
    with row show ?thesis by (simp add: op3_def broadcast_def)
  next
    case False
    with row show ?thesis
      by (simp add: op3_def broadcast_def sequence_map_Inr)
  qed
qed

lemma op3_per_row:
  assumes "length x = length a" and "\<forall>m \<in> set x. \<forall>r \<in> set m. length r = k"
    and "\<forall>v \<in> set a. length v = k"
  shows "op3 f x (map (\<lambda>v. [v]) a) = Inr (map2 (\<lambda>m v. map (\<lambda>r. map2 f r v) m) x a)"
proof -
  have "(\<lambda>(m, v). op2 f m [v]) p = Inr ((\<lambda>(m, v). map (\<lambda>r. map2 f r v) m) p)"
    if "p \<in> set (zip x a)" for p
  proof -
    obtain m v where p: "p = (m, v)" by (cases p)
    with that have "m \<in> set x" "v \<in> set a" by (auto dest: set_zip_leftD set_zip_rightD)
    with assms have "\<forall>r \<in> set m. length r = length v" by simp
    then show ?thesis unfolding p by (simp add: op2_vector)
  qed
  then have "sequence (map (\<lambda>(m, v). op2 f m [v]) (zip x a))
      = Inr (map (\<lambda>(m, v). map (\<lambda>r. map2 f r v) m) (zip x a))"
    by (rule sequence_map_Inr)
  moreover have "map2 (op2 f) x (map (\<lambda>v. [v]) a) = map (\<lambda>(m, v). op2 f m [v]) (zip x a)"
    by (simp add: zip_map2 split_def)
  ultimately show ?thesis using assms(1) by (simp add: op3_def broadcast_def)
qed

lemma slice2d_columns:
  assumes "\<forall>r \<in> set x. c + n \<le> length r"
  shows "slice2d x (0, c) (- 1, int n) = Inr (map (\<lambda>r. take n (drop c r)) x)"
  using assms by (simp add: slice2d_def slice_dim_def sequence_map_Inr)

lemma slice2d_row:
  assumes "i < length x"
  shows "slice2d x (i, 0) (1, - 1) = Inr [x ! i]"
  using assms by (simp add: slice2d_def slice_dim_def take_Suc_conv_app_nth hd_drop_conv_nth
      take_Suc)

lemma chunk_Nil [simp]: "chunk k [] = []"
  by (simp add: chunk.simps)

lemma chunk_append_row:
  "0 < k \<Longrightarrow> length r = k \<Longrightarrow> chunk k (r @ xs) = r # chunk k xs"
  by (subst chunk.simps) auto

lemma chunk_concat_rows:
  "0 < k \<Longrightarrow> \<forall>r \<in> set xss. length r = k \<Longrightarrow> chunk k (concat xss) = xss"
  by (induction xss) (simp_all add: chunk_append_row)

lemma chunk_append_multiple:
  "0 < k \<Longrightarrow> length xs = n * k \<Longrightarrow> chunk k (xs @ ys) = chunk k xs @ chunk k ys"
proof (induction n arbitrary: xs)
  case 0
  then show ?case by simp
next
  case (Suc n)
  then have len: "length (take k xs) = k" "length (drop k xs) = n * k"
    by simp_all
  have "chunk k (xs @ ys) = chunk k (take k xs @ (drop k xs @ ys))"
    by (metis append_assoc append_take_drop_id)
  also have "\<dots> = take k xs # chunk k (drop k xs @ ys)"
    using Suc.prems(1) len(1) by (rule chunk_append_row)
  also have "\<dots> = (take k xs # chunk k (drop k xs)) @ chunk k ys"
    using Suc.IH [OF Suc.prems(1) len(2)] by simp
  also have "take k xs # chunk k (drop k xs) = chunk k (take k xs @ drop k xs)"
    using Suc.prems(1) len(1) by (simp add: chunk_append_row del: append_take_drop_id)
  finally show ?case by simp
qed

lemma length_chunk_multiple:
  "0 < k \<Longrightarrow> length xs = n * k \<Longrightarrow> length (chunk k xs) = n"
proof (induction n arbitrary: xs)
  case 0
  then show ?case by simp
next
  case (Suc n)
  then have len: "length (take k xs) = k" "length (drop k xs) = n * k"
    by simp_all
  have "chunk k xs = chunk k (take k xs @ drop k xs)" by simp
  also have "\<dots> = take k xs # chunk k (drop k xs)"
    using Suc.prems(1) len(1) by (rule chunk_append_row)
  finally show ?case using Suc.IH [OF Suc.prems(1) len(2)] by simp
qed

lemma chunk_rows_length:
  "0 < k \<Longrightarrow> length xs = n * k \<Longrightarrow> r \<in> set (chunk k xs) \<Longrightarrow> length r = k"
proof (induction n arbitrary: xs)
  case 0
  then show ?case by simp
next
  case (Suc n)
  then have len: "length (take k xs) = k" "length (drop k xs) = n * k"
    by simp_all
  have "chunk k xs = chunk k (take k xs @ drop k xs)" by simp
  also have "\<dots> = take k xs # chunk k (drop k xs)"
    using Suc.prems(1) len(1) by (rule chunk_append_row)
  finally have "r = take k xs \<or> r \<in> set (chunk k (drop k xs))"
    using Suc.prems(3) by simp
  then show ?case using Suc.IH [OF Suc.prems(1) len(2)] len(1) by auto
qed

lemma chunk_concat_multiples:
  "0 < k \<Longrightarrow> \<forall>r \<in> set xss. length r = n * k \<Longrightarrow>
     chunk k (concat xss) = concat (map (chunk k) xss)"
  by (induction xss) (simp_all add: chunk_append_multiple)

lemma reshape3_rows:
  assumes "0 < j" and "0 < k" and "\<forall>r \<in> set x. length r = j * k"
  shows "reshape3 j k (concat x) = Inr (map (chunk k) x)"
proof -
  have "length (concat x) = length x * (j * k)"
    using assms(3) by (induction x) simp_all
  then have len: "length (concat x) mod (j * k) = 0" by simp
  have "chunk k (concat x) = concat (map (chunk k) x)"
    using assms by (intro chunk_concat_multiples [where n = j]) auto
  moreover have "chunk j (concat (map (chunk k) x)) = map (chunk k) x"
    using assms by (intro chunk_concat_rows) (auto simp: length_chunk_multiple)
  ultimately show ?thesis using assms(1,2) len by (simp add: reshape3_def)
qed

lemma reshape2_rows:
  assumes "0 < k" and "\<forall>r \<in> set x. length r = k"
  shows "reshape2 k (concat x) = Inr x"
proof -
  have "length (concat x) = length x * k"
    using assms(2) by (induction x) simp_all
  then have len: "length (concat x) mod k = 0" by simp
  show ?thesis using assms len by (simp add: reshape2_def chunk_concat_rows)
qed


subsection \<open>The two decoders run without an exception\<close>

lemma allocs_0 [simp]: "allocs 0 s = s"
  by (simp add: allocs_def)

lemma nextId_allocs [simp]: "nextId (allocs n s) = nextId s + n"
  by (simp add: allocs_def)

lemma live_allocs [simp]: "live (allocs n s) = live s @ [nextId s ..< nextId s + n]"
  by (simp add: allocs_def)

lemma makeTensor_Inl [simp]: "makeTensor (Inl e) s = (Inl e, s)"
  by (simp add: makeTensor_def)

lemma makeTensor_Inr: "makeTensor (Inr v) s = (Inr \<lparr>tid = nextId s, tval = v\<rparr>, allocs 1 s)"
  by (simp add: makeTensor_def allocs_def)

lemma makeTensor_allocs [simp]:
  "makeTensor (Inr v) (allocs n s) = (Inr \<lparr>tid = nextId s + n, tval = v\<rparr>, allocs (n + 1) s)"
  by (simp add: makeTensor_def allocs_def)

lemma tf_bind_Inr [simp]: "m s = (Inr x, s') \<Longrightarrow> tf_bind m f s = f x s'"
  by (simp add: tf_bind_def)

lemma tf_bind_Inl [simp]: "m s = (Inl e, s') \<Longrightarrow> tf_bind m f s = (Inl e, s')"
  by (simp add: tf_bind_def)

lemma length4E:
  assumes "length r = 4"
  obtains a b c d where "r = [a, b, c, d]"
  using assms by (auto simp: length_Suc_conv numeral_eq_Suc)

lemma length2E:
  assumes "length r = 2"
  obtains a b where "r = [a, b]"
  using assms by (auto simp: length_Suc_conv numeral_eq_Suc)

lemma normalizeBoxes_value:
  assumes len: "length boxes = length anchs"
    and b4: "\<forall>r \<in> set boxes. length r = 4"
    and a2: "\<forall>a \<in> set anchs. length a = 2"
  shows "\<exists>offs sizes ctr half st en.
     slice2d boxes (0, 0) (- 1, 2) = Inr offs \<and>
     slice2d boxes (0, 2) (- 1, 2) = Inr sizes \<and>
     (\<exists>q. op2 (/) offs [[w, h]] = Inr q \<and> op2 (+) q anchs = Inr ctr) \<and>
     op2 (/) sizes [[w * 2, h * 2]] = Inr half \<and>
     op2 (-) ctr half = Inr st \<and>
     op2 (+) ctr half = Inr en \<and>
     (\<exists>ss es. op2 (*) st [[w, h]] = Inr ss \<and> op2 (*) en [[w, h]] = Inr es \<and>
        length ss = length es \<and> map2 (@) ss es = boxes_value w h boxes anchs)"
proof -
  define offs where "offs = map (\<lambda>r. take 2 (drop 0 r)) boxes"
  define sizes where "sizes = map (\<lambda>r. take 2 (drop 2 r)) boxes"
  define q where "q = map (\<lambda>r. map2 (/) r [w, h]) offs"
  define ctr where "ctr = map2 (map2 (+)) q anchs"
  define half where "half = map (\<lambda>r. map2 (/) r [w * 2, h * 2]) sizes"
  define st where "st = map2 (map2 (-)) ctr half"
  define en where "en = map2 (map2 (+)) ctr half"
  define ss where "ss = map (\<lambda>r. map2 (*) r [w, h]) st"
  define es where "es = map (\<lambda>r. map2 (*) r [w, h]) en"
  have s1: "slice2d boxes (0, 0) (- 1, 2) = Inr offs"
    unfolding offs_def using b4 slice2d_columns [of boxes 0 2] by simp
  have s2: "slice2d boxes (0, 2) (- 1, 2) = Inr sizes"
    unfolding sizes_def using b4 slice2d_columns [of boxes 2 2] by simp
  have offs2: "\<forall>r \<in> set offs. length r = 2" using b4 by (auto simp: offs_def)
  have sizes2: "\<forall>r \<in> set sizes. length r = 2" using b4 by (auto simp: sizes_def)
  have q2: "\<forall>r \<in> set q. length r = 2" using offs2 by (auto simp: q_def)
  have lens: "length offs = length boxes" "length sizes = length boxes" "length q = length boxes"
    "length ctr = length boxes" "length half = length boxes" "length st = length boxes"
    "length en = length boxes" "length ss = length boxes" "length es = length boxes"
    using len by (simp_all add: offs_def sizes_def q_def ctr_def half_def st_def en_def ss_def es_def)
  have ctr2: "\<forall>i < length boxes. length (ctr ! i) = 2"
    using q2 a2 len lens by (simp add: ctr_def)
  have half2: "\<forall>i < length boxes. length (half ! i) = 2"
    using sizes2 lens by (simp add: half_def)
  have st2: "\<forall>i < length boxes. length (st ! i) = 2"
    using ctr2 half2 lens by (simp add: st_def)
  have en2: "\<forall>i < length boxes. length (en ! i) = 2"
    using ctr2 half2 lens by (simp add: en_def)
  have o1: "op2 (/) offs [[w, h]] = Inr q"
    unfolding q_def using offs2 by (intro op2_vector) simp
  have o2: "op2 (+) q anchs = Inr ctr"
    unfolding ctr_def using q2 a2 len lens by (intro op2_same_shape) simp_all
  have o3: "op2 (/) sizes [[w * 2, h * 2]] = Inr half"
    unfolding half_def using sizes2 by (intro op2_vector) simp
  have o4: "op2 (-) ctr half = Inr st"
    unfolding st_def using ctr2 half2 lens by (intro op2_same_shape) simp_all
  have o5: "op2 (+) ctr half = Inr en"
    unfolding en_def using ctr2 half2 lens by (intro op2_same_shape) simp_all
  have o6: "op2 (*) st [[w, h]] = Inr ss"
    unfolding ss_def using st2 lens by (intro op2_vector) (auto simp: in_set_conv_nth)
  have o7: "op2 (*) en [[w, h]] = Inr es"
    unfolding es_def using en2 lens by (intro op2_vector) (auto simp: in_set_conv_nth)
  have val: "map2 (@) ss es = boxes_value w h boxes anchs"
  proof (rule nth_equalityI)
    show "length (map2 (@) ss es) = length (boxes_value w h boxes anchs)"
      using lens len by (simp add: boxes_value_def)
  next
    fix i assume "i < length (map2 (@) ss es)"
    then have i: "i < length boxes" using lens by simp
    obtain a b c d where r: "boxes ! i = [a, b, c, d]"
      using b4 i by (metis length4E nth_mem)
    obtain x y where an: "anchs ! i = [x, y]"
      using a2 i len by (metis length2E nth_mem)
    show "map2 (@) ss es ! i = boxes_value w h boxes anchs ! i"
      using i len lens r an
      by (simp add: boxes_value_def ss_def es_def st_def en_def ctr_def half_def q_def
          offs_def sizes_def)
  qed
  show ?thesis
    using s1 s2 o1 o2 o3 o4 o5 o6 o7 val lens by auto
qed

lemma normalizeBoxes_success:
  assumes "wf_detector this"
    and "length (tval boxes) = length (tval (anchors this))"
    and "\<forall>r \<in> set (tval boxes). length r = 4"
  shows "normalizeBoxes this boxes (allocs n s) =
     (Inr \<lparr>tid = nextId s + n + 9,
           tval = boxes_value (width this) (height this) (tval boxes) (tval (anchors this))\<rparr>,
      allocs (n + 10) s)"
proof -
  have a2: "\<forall>a \<in> set (tval (anchors this)). length a = 2"
    using assms(1) by (simp add: wf_detector_def list_all_iff)
  from normalizeBoxes_value [OF assms(2) assms(3) a2, of "width this" "height this"]
  obtain offs sizes ctr half st en q ss es where v:
    "slice2d (tval boxes) (0, 0) (- 1, 2) = Inr offs"
    "slice2d (tval boxes) (0, 2) (- 1, 2) = Inr sizes"
    "op2 (/) offs [[width this, height this]] = Inr q"
    "op2 (+) q (tval (anchors this)) = Inr ctr"
    "op2 (/) sizes [[width this * 2, height this * 2]] = Inr half"
    "op2 (-) ctr half = Inr st"
    "op2 (+) ctr half = Inr en"
    "op2 (*) st [[width this, height this]] = Inr ss"
    "op2 (*) en [[width this, height this]] = Inr es"
    "length ss = length es"
    "map2 (@) ss es = boxes_value (width this) (height this) (tval boxes) (tval (anchors this))"
    by blast
  have cfg: "tval (inputSizeTensor this) = [width this, height this]"
    "tval (doubleInputSizeTensor this) = [width this * 2, height this * 2]"
    using assms(1) by (simp_all add: wf_detector_def)
  have n10: "Suc (Suc (Suc (Suc (Suc (Suc (Suc (Suc (Suc (Suc n))))))))) = n + 10"
    by simp
  show ?thesis
    unfolding normalizeBoxes_def
    by (simp add: tf_slice2d_def tf_op_2d_1d_def tf_op_2d_2d_def tf_concat2d_axis1_def v cfg n10)
qed

lemma chunk_single: "0 < k \<Longrightarrow> length a = k \<Longrightarrow> chunk k a = [a]"
  using chunk_append_row [of k a "[]"] by simp

lemma decode_landmarks_value:
  assumes len: "length raw = length anchs"
    and r14: "\<forall>r \<in> set raw. length r = 14"
    and a2: "\<forall>a \<in> set anchs. length a = 2"
  shows "\<exists>x q a3 rel.
     reshape3 7 2 (concat raw) = Inr x \<and>
     op3 (/) x [[[w, h]]] = Inr q \<and>
     reshape3 1 2 (concat anchs) = Inr a3 \<and>
     op3 (+) q a3 = Inr rel \<and>
     op3 (*) rel [[[w, h]]] = Inr (landmarks_value w h raw anchs)"
proof -
  define x where "x = map (chunk 2) raw"
  define q where "q = map (map (\<lambda>r. map2 (/) r [w, h])) x"
  define rel where "rel = map2 (\<lambda>m v. map (\<lambda>r. map2 (+) r v) m) q anchs"
  have pts: "length p = 2" if "r \<in> set raw" "p \<in> set (chunk 2 r)" for r p
    using that r14 chunk_rows_length [of 2 r 7 p] by simp
  have x2: "\<forall>m \<in> set x. \<forall>r \<in> set m. length r = 2"
    using pts by (auto simp: x_def)
  have q2: "\<forall>m \<in> set q. \<forall>r \<in> set m. length r = 2"
    using x2 by (auto simp: q_def)
  have rel2: "\<forall>m \<in> set rel. \<forall>r \<in> set m. length r = 2"
  proof (intro ballI)
    fix m r assume "m \<in> set rel" "r \<in> set m"
    then obtain mq v where mv: "(mq, v) \<in> set (zip q anchs)" "r \<in> set (map (\<lambda>r. map2 (+) r v) mq)"
      by (auto simp: rel_def)
    then have "mq \<in> set q" "v \<in> set anchs"
      by (auto dest: set_zip_leftD set_zip_rightD)
    with mv(2) q2 a2 show "length r = 2" by auto
  qed
  have r1: "reshape3 7 2 (concat raw) = Inr x"
    unfolding x_def using r14 by (intro reshape3_rows) simp_all
  have o1: "op3 (/) x [[[w, h]]] = Inr q"
    unfolding q_def using x2 by (intro op3_vector) simp
  have "map (chunk 2) anchs = map (\<lambda>v. [v]) anchs"
    using a2 by (simp add: chunk_single)
  moreover have "reshape3 1 2 (concat anchs) = Inr (map (chunk 2) anchs)"
    using a2 by (intro reshape3_rows) simp_all
  ultimately have r2: "reshape3 1 2 (concat anchs) = Inr (map (\<lambda>v. [v]) anchs)"
    by simp
  have o2: "op3 (+) q (map (\<lambda>v. [v]) anchs) = Inr rel"
    unfolding rel_def using q2 a2 len by (intro op3_per_row [where k = 2]) (simp_all add: q_def x_def)
  have o3: "op3 (*) rel [[[w, h]]] = Inr (map (map (\<lambda>r. map2 (*) r [w, h])) rel)"
    using rel2 by (intro op3_vector) simp
  have val: "map (map (\<lambda>r. map2 (*) r [w, h])) rel = landmarks_value w h raw anchs"
  proof (rule nth_equalityI)
    show "length (map (map (\<lambda>r. map2 (*) r [w, h])) rel) = length (landmarks_value w h raw anchs)"
      using len by (simp add: landmarks_value_def rel_def q_def x_def)
  next
    fix i assume "i < length (map (map (\<lambda>r. map2 (*) r [w, h])) rel)"
    then have i: "i < length raw" using len by (simp add: rel_def q_def x_def)
    obtain ax ay where an: "anchs ! i = [ax, ay]"
      using a2 i len by (metis length2E nth_mem)
    have "map2 (*) (map2 (+) (map2 (/) p [w, h]) [ax, ay]) [w, h]
        = [(p ! 0 / w + ax) * w, (p ! 1 / h + ay) * h]"
      if "p \<in> set (chunk 2 (raw ! i))" for p
    proof -
      have "length p = 2" using pts [OF _ that] i by simp
      then obtain u v where "p = [u, v]" by (rule length2E)
      then show ?thesis by simp
    qed
    then show "map (map (\<lambda>r. map2 (*) r [w, h])) rel ! i = landmarks_value w h raw anchs ! i"
      using i len an by (simp add: landmarks_value_def rel_def q_def x_def)
  qed
  show ?thesis using r1 o1 r2 o2 o3 val by auto
qed

lemma decode_landmarks_success:
  assumes "wf_detector this"
    and "length (tval raw) = length (tval (anchors this))"
    and "\<forall>r \<in> set (tval raw). length r = 14"
  shows "decode_landmarks this raw (allocs n s) =
     (Inr \<lparr>tid = nextId s + n + 4,
           tval = landmarks_value (width this) (height this) (tval raw) (tval (anchors this))\<rparr>,
      allocs (n + 5) s)"
proof -
  have a2: "\<forall>a \<in> set (tval (anchors this)). length a = 2"
    using assms(1) by (simp add: wf_detector_def list_all_iff)
  from decode_landmarks_value [OF assms(2) assms(3) a2, of "width this" "height this"]
  obtain x q a3 rel where v:
    "reshape3 7 2 (concat (tval raw)) = Inr x"
    "op3 (/) x [[[width this, height this]]] = Inr q"
    "reshape3 1 2 (concat (tval (anchors this))) = Inr a3"
    "op3 (+) q a3 = Inr rel"
    "op3 (*) rel [[[width this, height this]]] =
       Inr (landmarks_value (width this) (height this) (tval raw) (tval (anchors this)))"
    by blast
  have cfg: "tval (inputSizeTensor this) = [width this, height this]"
    using assms(1) by (simp_all add: wf_detector_def)
  have n5: "Suc (Suc (Suc (Suc (Suc n)))) = n + 5"
    by simp
  have v3: "reshape3 (Suc 0) 2 (concat (tval (anchors this))) = Inr a3"
    using v(3) by simp
  show ?thesis
    unfolding decode_landmarks_def
    by (simp add: tf_reshape_2d_to_3d_def tf_op_3d_1d_def tf_op_3d_3d_def v v3 cfg n5)
qed


subsection \<open>The tensor operations compute the spec's decoding\<close>

lemma chunk_eq_map:
  "0 < k \<Longrightarrow> length xs = n * k \<Longrightarrow> chunk k xs = map (\<lambda>j. take k (drop (j * k) xs)) [0..<n]"
proof (induction n arbitrary: xs)
  case 0
  then show ?case by simp
next
  case (Suc n)
  then have len: "length (take k xs) = k" "length (drop k xs) = n * k"
    by simp_all
  have "chunk k xs = chunk k (take k xs @ drop k xs)" by simp
  also have "\<dots> = take k xs # chunk k (drop k xs)"
    using Suc.prems(1) len(1) by (rule chunk_append_row)
  also have "chunk k (drop k xs) = map (\<lambda>j. take k (drop (j * k) (drop k xs))) [0..<n]"
    using Suc.prems(1) len(2) by (rule Suc.IH)
  also have "\<dots> = map (\<lambda>j. take k (drop (j * k) xs)) (map Suc [0..<n])"
    by (simp add: add.commute)
  finally show ?case
    by (simp add: map_Suc_upt upt_conv_Cons del: upt_Suc)
qed

lemma boxes_value_decoded:
  assumes wf: "wf_detector this"
    and len: "length rows = length (tval (anchors this))"
    and r19: "\<forall>r \<in> set rows. length r = 19"
  shows "boxes_value (width this) (height this) (map (\<lambda>r. take 4 (drop 1 r)) rows)
           (tval (anchors this)) = decoded_boxes this rows"
proof (rule nth_equalityI)
  show "length (boxes_value (width this) (height this) (map (\<lambda>r. take 4 (drop 1 r)) rows)
           (tval (anchors this))) = length (decoded_boxes this rows)"
    by (simp add: boxes_value_def decoded_boxes_def)
next
  fix i
  assume "i < length (boxes_value (width this) (height this) (map (\<lambda>r. take 4 (drop 1 r)) rows)
           (tval (anchors this)))"
  then have i: "i < length rows" by (simp add: boxes_value_def)
  have "length (rows ! i) = 19" using r19 i by simp
  then obtain x0 x1 x2 x3 x4 rest where r: "rows ! i = x0 # x1 # x2 # x3 # x4 # rest"
    by (auto simp: length_Suc_conv numeral_eq_Suc)
  have "length (tval (anchors this) ! i) = 2"
    using wf i len by (simp add: wf_detector_def list_all_length)
  then obtain ax ay where a: "tval (anchors this) ! i = [ax, ay]"
    by (rule length2E)
  show "boxes_value (width this) (height this) (map (\<lambda>r. take 4 (drop 1 r)) rows)
           (tval (anchors this)) ! i = decoded_boxes this rows ! i"
    using i len r a
    by (simp add: boxes_value_def decoded_boxes_def spec_decode_box_def Let_def mult.commute)
qed

lemma raw_landmark_chunk:
  assumes "length raw = 19"
  shows "chunk 2 (take 14 (drop 5 raw)) = map (raw_landmark raw) [0..<7]"
proof -
  have "chunk 2 (take 14 (drop 5 raw)) = map (\<lambda>j. take 2 (drop (j * 2) (take 14 (drop 5 raw)))) [0..<7]"
    using assms by (intro chunk_eq_map) simp_all
  also have "\<dots> = map (raw_landmark raw) [0..<7]"
  proof (rule map_cong [OF refl])
    fix j assume "j \<in> set [0..<7]"
    then have "j < 7" by simp
    then have "min 2 (14 - j * 2) = 2" by simp
    then show "take 2 (drop (j * 2) (take 14 (drop 5 raw))) = raw_landmark raw j"
      by (simp add: raw_landmark_def drop_take add.commute mult.commute)
  qed
  finally show ?thesis .
qed

lemma length_raw_landmark:
  "length raw = 19 \<Longrightarrow> k < 7 \<Longrightarrow> length (raw_landmark raw k) = 2"
  by (simp add: raw_landmark_def)

lemma landmarks_value_decoded:
  assumes wf: "wf_detector this"
    and len: "length rows = length (tval (anchors this))"
    and r19: "\<forall>r \<in> set rows. length r = 19"
  shows "landmarks_value (width this) (height this) (map (\<lambda>r. take 14 (drop 5 r)) rows)
           (tval (anchors this)) = decoded_landmarks this rows"
proof (rule nth_equalityI)
  show "length (landmarks_value (width this) (height this) (map (\<lambda>r. take 14 (drop 5 r)) rows)
           (tval (anchors this))) = length (decoded_landmarks this rows)"
    by (simp add: landmarks_value_def decoded_landmarks_def)
next
  fix i
  assume "i < length (landmarks_value (width this) (height this) (map (\<lambda>r. take 14 (drop 5 r)) rows)
           (tval (anchors this)))"
  then have i: "i < length rows" by (simp add: landmarks_value_def)
  have l19: "length (rows ! i) = 19" using r19 i by simp
  have "length (tval (anchors this) ! i) = 2"
    using wf i len by (simp add: wf_detector_def list_all_length)
  then obtain ax ay where a: "tval (anchors this) ! i = [ax, ay]"
    by (rule length2E)
  have pt: "[(raw_landmark (rows ! i) k ! 0 / width this + ax) * width this,
             (raw_landmark (rows ! i) k ! 1 / height this + ay) * height this]
      = spec_decode_landmark [width this, height this] (raw_landmark (rows ! i) k) [ax, ay]"
    if "k \<in> set [0..<7]" for k
  proof -
    have "length (raw_landmark (rows ! i) k) = 2"
      using that l19 by (simp add: length_raw_landmark)
    then obtain u v where "raw_landmark (rows ! i) k = [u, v]" by (rule length2E)
    then show ?thesis by (simp add: spec_decode_landmark_def)
  qed
  have "map (\<lambda>k. [(raw_landmark (rows ! i) k ! 0 / width this + ax) * width this,
             (raw_landmark (rows ! i) k ! 1 / height this + ay) * height this]) [0..<7]
      = map (\<lambda>k. spec_decode_landmark [width this, height this] (raw_landmark (rows ! i) k) [ax, ay]) [0..<7]"
    using pt by (rule map_cong [OF refl])
  then show "landmarks_value (width this) (height this) (map (\<lambda>r. take 14 (drop 5 r)) rows)
           (tval (anchors this)) ! i = decoded_landmarks this rows ! i"
    using i len a raw_landmark_chunk [OF l19]
    by (simp add: landmarks_value_def decoded_landmarks_def comp_def)
qed

subsection \<open>The first half of \<^verbatim>\<open>_getBoundingBox\<close>\<close>

lemma allocs_allocs [simp]: "allocs m (allocs n s) = allocs (n + m) s"
proof -
  have "[nextId s ..< nextId s + n] @ [nextId s + n ..< nextId s + n + m] = [nextId s ..< nextId s + (n + m)]"
    using upt_add_eq_append [of "nextId s" "nextId s + n" m] by (simp add: add.assoc)
  then show ?thesis by (simp add: allocs_def add.assoc)
qed

lemma tidy_run: "fn s = (r, s') \<Longrightarrow>
  tidy kept fn s = (r, s'\<lparr>live := filter (\<lambda>t. t < nextId s \<or> (case r of Inl e \<Rightarrow> False | Inr v \<Rightarrow> t \<in> set (kept v))) (live s')\<rparr>)"
  by (simp add: tidy_def)

lemma filter_old: "wf_state s \<Longrightarrow> filter (\<lambda>t. t < nextId s \<or> P t) (live s) = live s"
  by (simp add: wf_state_def list_all_iff)

lemma upt_split_at:
  assumes "a < m"
  shows "[n ..< n + m] = [n ..< n + a] @ (n + a) # [Suc (n + a) ..< n + m]"
proof -
  have "[n ..< n + m] = [n ..< n + a] @ [n + a ..< n + m]"
    using assms upt_add_eq_append [of n "n + a" "m - a"] by simp
  moreover have "[n + a ..< n + m] = (n + a) # [Suc (n + a) ..< n + m]"
    using assms by (simp add: upt_conv_Cons)
  ultimately show ?thesis by simp
qed

lemma filter_fresh_one:
  assumes "a < m"
  shows "filter (\<lambda>t. t < n \<or> t = n + a) [n ..< n + m] = [n + a]"
  unfolding upt_split_at [OF assms] by simp

lemma filter_fresh_two:
  assumes "a < b" "b < m"
  shows "filter (\<lambda>t. t < n \<or> t = n + a \<or> t = n + b) [n ..< n + m] = [n + a, n + b]"
proof -
  have am: "a < m" using assms by simp
  have "b - Suc a < m - Suc a" using assms by simp
  from upt_split_at [OF this, of "Suc (n + a)"]
  have 2: "[Suc (n + a) ..< n + m] = [Suc (n + a) ..< n + b] @ (n + b) # [Suc (n + b) ..< n + m]"
    using assms by simp
  show ?thesis unfolding upt_split_at [OF am] 2 using assms by simp
qed

lemma squeeze3_batch:
  assumes "rows \<noteq> []" "length rows \<noteq> 1" "\<forall>r \<in> set rows. length r = 19"
  shows "squeeze3 [rows] = Inr rows"
proof -
  have "length (hd rows) = 19" using assms by simp
  then show ?thesis using assms by (simp add: squeeze3_def)
qed

lemma scores_squeeze:
  assumes "rows \<noteq> []" "length rows \<noteq> 1" "\<forall>r \<in> set rows. length r = 19"
  shows "squeeze2 (map (map sigmoid) (map (\<lambda>r. take 1 (drop 0 r)) rows)) = Inr (scores_value rows)"
proof -
  have "take 1 r = [r ! 0]" if "r \<in> set rows" for r
  proof -
    have "length r = 19" using that assms(3) by simp
    then show ?thesis by (cases r) simp_all
  qed
  then have eq: "map (map sigmoid) (map (\<lambda>r. take 1 (drop 0 r)) rows) = map (\<lambda>r. [sigmoid (r ! 0)]) rows"
    by simp
  have "hd (map (\<lambda>r. [sigmoid (r ! 0)]) rows) = [sigmoid (hd rows ! 0)]"
    using assms(1) by (simp add: hd_map)
  then show ?thesis
    unfolding eq using assms(1,2) by (simp add: squeeze2_def scores_value_def comp_def)
qed

lemma slice3d_row:
  assumes "i < length x"
  shows "slice3d x (i, 0) 1 = Inr [x ! i]"
proof -
  have "sequence (map (slice_dim 0 (- 1)) (x ! i)) = Inr (map (\<lambda>r. r) (x ! i))"
    by (rule sequence_map_Inr) (simp add: slice_dim_def)
  then have "slice2d (x ! i) (0, 0) (- 1, - 1) = Inr (x ! i)"
    by (simp add: slice2d_def slice_dim_def)
  moreover have "slice_dim i 1 x = Inr [x ! i]"
    using assms by (simp add: slice_dim_def take_Suc_conv_app_nth hd_drop_conv_nth take_Suc)
  ultimately show ?thesis by (simp add: slice3d_def)
qed

lemma makeTensor_at:
  "makeTensor (Inr v) (allocs n s) = (Inr \<lparr>tid = nextId s + n, tval = v\<rparr>, allocs (Suc n) s)"
  by (simp add: makeTensor_def allocs_def)

lemma getBoundingBox_body_prefix:
  assumes wf: "wf_detector this"
    and pr: "predict (model this) (model_input (tval input)) = Inr [rows]"
    and len: "length rows = length (tval (anchors this))"
    and n1: "length rows \<noteq> 1"
    and r19: "\<forall>r \<in> set rows. length r = 19"
  shows "tf_bind (tf_op_4d_scalar (-) input 0.5) (\<lambda>shifted.
       tf_bind (tf_op_4d_scalar (*) shifted 2) (\<lambda>img.
       tf_bind (tf_predict (model this) img) (\<lambda>predicted.
       tf_bind (tf_squeeze3 predicted) (\<lambda>prediction.
       tf_bind (tf_slice2d prediction (0, 0) (- 1, 1)) (\<lambda>rawScores.
       tf_bind (tf_sigmoid rawScores) (\<lambda>sigmoids.
       tf_bind (tf_squeeze2 sigmoids) (\<lambda>scores.
       tf_bind (tf_slice2d prediction (0, 1) (- 1, 4)) (\<lambda>rawBoxes.
       tf_bind (normalizeBoxes this rawBoxes) (\<lambda>boxes. k prediction scores boxes))))))))) s
     = k \<lparr>tid = nextId s + 3, tval = rows\<rparr> \<lparr>tid = nextId s + 6, tval = scores_value rows\<rparr>
         \<lparr>tid = nextId s + 17, tval = decoded_boxes this rows\<rparr> (allocs 18 s)"
proof -
  have ne: "rows \<noteq> []" using wf len by (auto simp: wf_detector_def)
  define t0 where "t0 = \<lparr>tid = nextId s, tval = (tval input)\<lparr>entries := map (\<lambda>v. v - 0.5) (entries (tval input))\<rparr>\<rparr>"
  define t1 where "t1 = \<lparr>tid = nextId s + 1, tval = model_input (tval input)\<rparr>"
  define t2 where "t2 = \<lparr>tid = nextId s + 2, tval = [rows]\<rparr>"
  define t3 where "t3 = \<lparr>tid = nextId s + 3, tval = rows\<rparr>"
  define t4 where "t4 = \<lparr>tid = nextId s + 4, tval = map (\<lambda>r. take 1 (drop 0 r)) rows\<rparr>"
  define t5 where "t5 = \<lparr>tid = nextId s + 5, tval = map (map sigmoid) (map (\<lambda>r. take 1 (drop 0 r)) rows)\<rparr>"
  define t6 where "t6 = \<lparr>tid = nextId s + 6, tval = scores_value rows\<rparr>"
  define t7 where "t7 = \<lparr>tid = nextId s + 7, tval = map (\<lambda>r. take 4 (drop 1 r)) rows\<rparr>"
  define t17 where "t17 = \<lparr>tid = nextId s + 17, tval = decoded_boxes this rows\<rparr>"
  have e0: "tf_op_4d_scalar (-) input 0.5 s = (Inr t0, allocs 1 s)"
    using makeTensor_at [of _ 0 s] by (simp add: tf_op_4d_scalar_def t0_def)
  have e1: "tf_op_4d_scalar (*) t0 2 (allocs 1 s) = (Inr t1, allocs 2 s)"
    by (simp add: tf_op_4d_scalar_def t0_def t1_def makeTensor_at model_input_def)
  have e2: "tf_predict (model this) t1 (allocs 2 s) = (Inr t2, allocs 3 s)"
    by (simp add: tf_predict_def t1_def t2_def makeTensor_at pr)
  have e3: "tf_squeeze3 t2 (allocs 3 s) = (Inr t3, allocs 4 s)"
    by (simp add: tf_squeeze3_def t2_def t3_def makeTensor_at squeeze3_batch [OF ne n1 r19])
  have "slice2d rows (0, 0) (- 1, 1) = Inr (map (\<lambda>r. take 1 (drop 0 r)) rows)"
    using r19 slice2d_columns [of rows 0 1] by simp
  then have e4: "tf_slice2d t3 (0, 0) (- 1, 1) (allocs 4 s) = (Inr t4, allocs 5 s)"
    by (simp add: tf_slice2d_def t3_def t4_def makeTensor_at)
  have e5: "tf_sigmoid t4 (allocs 5 s) = (Inr t5, allocs 6 s)"
    by (simp add: tf_sigmoid_def t4_def t5_def makeTensor_at)
  have e6: "tf_squeeze2 t5 (allocs 6 s) = (Inr t6, allocs 7 s)"
    using scores_squeeze [OF ne n1 r19]
    by (simp add: tf_squeeze2_def t5_def t6_def makeTensor_at)
  have "slice2d rows (0, 1) (- 1, 4) = Inr (map (\<lambda>r. take 4 (drop 1 r)) rows)"
    using r19 slice2d_columns [of rows 1 4] by simp
  then have e7: "tf_slice2d t3 (0, 1) (- 1, 4) (allocs 7 s) = (Inr t7, allocs 8 s)"
    by (simp add: tf_slice2d_def t3_def t7_def makeTensor_at)
  have b4: "\<forall>r \<in> set (tval t7). length r = 4"
    using r19 by (simp add: t7_def)
  have bl: "length (tval t7) = length (tval (anchors this))"
    using len by (simp add: t7_def)
  have e8: "normalizeBoxes this t7 (allocs 8 s) = (Inr t17, allocs 18 s)"
    using normalizeBoxes_success [OF wf bl b4, of 8 s] boxes_value_decoded [OF wf len r19]
    by (simp add: t17_def t7_def)
  show ?thesis
    unfolding t3_def [symmetric] t6_def [symmetric] t17_def [symmetric]
    by (simp only: tf_bind_def e0 e1 e2 e3 e4 e5 e6 e7 e8 prod.case sum.case)
qed


subsection \<open>\<^verbatim>\<open>_getBoundingBox\<close> on a well-formed call\<close>

lemma length_decoded_boxes:
  "length rows = length (tval (anchors this)) \<Longrightarrow> length (decoded_boxes this rows) = length rows"
  by (simp add: decoded_boxes_def)

lemma length_decoded_landmarks:
  "length rows = length (tval (anchors this)) \<Longrightarrow> length (decoded_landmarks this rows) = length rows"
  by (simp add: decoded_landmarks_def)

lemma decoded_landmarks_points:
  assumes "wf_detector this" "length rows = length (tval (anchors this))"
    and "\<forall>r \<in> set rows. length r = 19" and "i < length rows"
    and "p \<in> set (decoded_landmarks this rows ! i)"
  shows "length p = 2"
  using assms(2,4,5)
  unfolding landmarks_value_decoded [OF assms(1,2,3), symmetric]
  by (auto simp: landmarks_value_def)

lemma getBoundingBox_None:
  assumes wf: "wf_detector this" and ws: "wf_state s"
    and pr: "predict (model this) (model_input (tval input)) = Inr [rows]"
    and len: "length rows = length (tval (anchors this))"
    and n1: "length rows \<noteq> 1"
    and r19: "\<forall>r \<in> set rows. length r = 19"
    and nms: "rt_nonMaxSuppression rt (decoded_boxes this rows) (scores_value rows) 1
                (iouThreshold this) (scoreThreshold this) = Inr []"
  shows "getBoundingBox rt this input s = (Inr None, s\<lparr>nextId := nextId s + 19\<rparr>)"
proof -
  define t3 where "t3 = \<lparr>tid = nextId s + 3, tval = rows\<rparr>"
  define t6 where "t6 = \<lparr>tid = nextId s + 6, tval = scores_value rows\<rparr>"
  define t17 where "t17 = \<lparr>tid = nextId s + 17, tval = decoded_boxes this rows\<rparr>"
  define t18 :: "nat list tensor" where "t18 = \<lparr>tid = nextId s + 18, tval = []\<rparr>"
  have e9: "tf_image_nonMaxSuppression rt t17 t6 1 (iouThreshold this) (scoreThreshold this) (allocs 18 s)
      = (Inr t18, allocs 19 s)"
    using nms by (simp add: tf_image_nonMaxSuppression_def t17_def t6_def t18_def makeTensor_at)
  have tail: "(let box_indices = arraySync t18 in
       if length box_indices = 0 then tf_return None else k box_indices) = tf_return None" for k
    by (simp add: arraySync_def t18_def)
  have body: "(tf_bind (tf_op_4d_scalar (-) input 0.5) (\<lambda>shifted.
       tf_bind (tf_op_4d_scalar (*) shifted 2) (\<lambda>img.
       tf_bind (tf_predict (model this) img) (\<lambda>predicted.
       tf_bind (tf_squeeze3 predicted) (\<lambda>prediction.
       tf_bind (tf_slice2d prediction (0, 0) (- 1, 1)) (\<lambda>rawScores.
       tf_bind (tf_sigmoid rawScores) (\<lambda>sigmoids.
       tf_bind (tf_squeeze2 sigmoids) (\<lambda>scores.
       tf_bind (tf_slice2d prediction (0, 1) (- 1, 4)) (\<lambda>rawBoxes.
       tf_bind (normalizeBoxes this rawBoxes) (\<lambda>boxes.
       tf_bind (tf_image_nonMaxSuppression rt boxes scores 1
                  (iouThreshold this) (scoreThreshold this)) (\<lambda>selected.
       let box_indices = arraySync selected in
       if length box_indices = 0 then tf_return None
       else k prediction boxes box_indices))))))))))) s = (Inr None, allocs 19 s)" for k
    unfolding getBoundingBox_body_prefix [OF wf pr len n1 r19]
    unfolding t3_def [symmetric] t6_def [symmetric] t17_def [symmetric]
    by (simp only: tf_bind_def e9 prod.case sum.case tail tf_return_def)
  show ?thesis
    unfolding getBoundingBox_def tidy_def
    apply (simp only: body prod.case sum.case)
    using ws apply (simp add: allocs_def wf_state_def list_all_iff)
    done
qed

lemma getBoundingBox_Some:
  assumes wf: "wf_detector this" and ws: "wf_state s"
    and pr: "predict (model this) (model_input (tval input)) = Inr [rows]"
    and len: "length rows = length (tval (anchors this))"
    and n1: "length rows \<noteq> 1"
    and r19: "\<forall>r \<in> set rows. length r = 19"
    and nms: "rt_nonMaxSuppression rt (decoded_boxes this rows) (scores_value rows) 1
                (iouThreshold this) (scoreThreshold this) = Inr (i # rest)"
    and i: "i < length rows"
  shows "getBoundingBox rt this input s =
     (Inr (Some (\<lparr>tid = nextId s + 19, tval = [decoded_boxes this rows ! i]\<rparr>,
                 \<lparr>tid = nextId s + 27, tval = decoded_landmarks this rows ! i\<rparr>)),
      s\<lparr>live := live s @ [nextId s + 19, nextId s + 27], nextId := nextId s + 28\<rparr>)"
proof -
  define t3 where "t3 = \<lparr>tid = nextId s + 3, tval = rows\<rparr>"
  define t6 where "t6 = \<lparr>tid = nextId s + 6, tval = scores_value rows\<rparr>"
  define t17 where "t17 = \<lparr>tid = nextId s + 17, tval = decoded_boxes this rows\<rparr>"
  define t18 where "t18 = \<lparr>tid = nextId s + 18, tval = i # rest\<rparr>"
  define t19 where "t19 = \<lparr>tid = nextId s + 19, tval = [decoded_boxes this rows ! i]\<rparr>"
  define t20 where "t20 = \<lparr>tid = nextId s + 20, tval = map (\<lambda>r. take 14 (drop 5 r)) rows\<rparr>"
  define t25 where "t25 = \<lparr>tid = nextId s + 25, tval = decoded_landmarks this rows\<rparr>"
  define t26 where "t26 = \<lparr>tid = nextId s + 26, tval = [decoded_landmarks this rows ! i]\<rparr>"
  define t27 where "t27 = \<lparr>tid = nextId s + 27, tval = decoded_landmarks this rows ! i\<rparr>"
  have e9: "tf_image_nonMaxSuppression rt t17 t6 1 (iouThreshold this) (scoreThreshold this) (allocs 18 s)
      = (Inr t18, allocs 19 s)"
    using nms by (simp add: tf_image_nonMaxSuppression_def t17_def t6_def t18_def makeTensor_at)
  have tail: "(let box_indices = arraySync t18 in
       if length box_indices = 0 then tf_return None
       else let box_index = hd box_indices in k box_index) = k i"
    for k :: "nat \<Rightarrow> (Tensor2D tensor \<times> Tensor2D tensor) option tf"
    by (simp add: arraySync_def t18_def)
  have e10: "tf_slice2d t17 (i, 0) (1, - 1) (allocs 19 s) = (Inr t19, allocs 20 s)"
    using i slice2d_row [of i "decoded_boxes this rows"] length_decoded_boxes [OF len]
    by (simp add: tf_slice2d_def t17_def t19_def makeTensor_at)
  have "slice2d rows (0, 5) (- 1, 14) = Inr (map (\<lambda>r. take 14 (drop 5 r)) rows)"
    using r19 slice2d_columns [of rows 5 14] by simp
  then have e11: "tf_slice2d t3 (0, 5) (- 1, 14) (allocs 20 s) = (Inr t20, allocs 21 s)"
    by (simp add: tf_slice2d_def t3_def t20_def makeTensor_at)
  have l14: "\<forall>r \<in> set (tval t20). length r = 14"
    using r19 by (simp add: t20_def)
  have ll: "length (tval t20) = length (tval (anchors this))"
    using len by (simp add: t20_def)
  have e12: "decode_landmarks this t20 (allocs 21 s) = (Inr t25, allocs 26 s)"
    using decode_landmarks_success [OF wf ll l14, of 21 s] landmarks_value_decoded [OF wf len r19]
    by (simp add: t25_def t20_def)
  have e13: "tf_slice3d t25 (i, 0) 1 (allocs 26 s) = (Inr t26, allocs 27 s)"
    using i slice3d_row [of i "decoded_landmarks this rows"] length_decoded_landmarks [OF len]
    by (simp add: tf_slice3d_def t25_def t26_def makeTensor_at)
  have "reshape2 2 (concat (decoded_landmarks this rows ! i)) = Inr (decoded_landmarks this rows ! i)"
    using decoded_landmarks_points [OF wf len r19 i] by (intro reshape2_rows) auto
  then have e14: "tf_reshape_3d_to_2d t26 2 (allocs 27 s) = (Inr t27, allocs 28 s)"
    by (simp add: tf_reshape_3d_to_2d_def t26_def t27_def makeTensor_at)
  have body: "(tf_bind (tf_op_4d_scalar (-) input 0.5) (\<lambda>shifted.
       tf_bind (tf_op_4d_scalar (*) shifted 2) (\<lambda>img.
       tf_bind (tf_predict (model this) img) (\<lambda>predicted.
       tf_bind (tf_squeeze3 predicted) (\<lambda>prediction.
       tf_bind (tf_slice2d prediction (0, 0) (- 1, 1)) (\<lambda>rawScores.
       tf_bind (tf_sigmoid rawScores) (\<lambda>sigmoids.
       tf_bind (tf_squeeze2 sigmoids) (\<lambda>scores.
       tf_bind (tf_slice2d prediction (0, 1) (- 1, 4)) (\<lambda>rawBoxes.
       tf_bind (normalizeBoxes this rawBoxes) (\<lambda>boxes.
       tf_bind (tf_image_nonMaxSuppression rt boxes scores 1
                  (iouThreshold this) (scoreThreshold this)) (\<lambda>selected.
       let box_indices = arraySync selected in
       if length box_indices = 0 then tf_return None
       else
         let box_index = hd box_indices in
         tf_bind (tf_slice2d boxes (box_index, 0) (1, - 1)) (\<lambda>result_box.
         tf_bind (tf_slice2d prediction (0, 5) (- 1, 14)) (\<lambda>raw_landmarks.
         tf_bind (decode_landmarks this raw_landmarks) (\<lambda>landmarks3d.
         tf_bind (tf_slice3d landmarks3d (box_index, 0) 1) (\<lambda>landmarkSlice.
         tf_bind (tf_reshape_3d_to_2d landmarkSlice 2) (\<lambda>result_landmarks.
         tf_return (Some (result_box, result_landmarks)))))))))))))))))) s
       = (Inr (Some (t19, t27)), allocs 28 s)"
    unfolding getBoundingBox_body_prefix [OF wf pr len n1 r19]
    unfolding t3_def [symmetric] t6_def [symmetric] t17_def [symmetric]
    by (simp only: tf_bind_def e9 prod.case sum.case tail e10 e11 e12 e13 e14 tf_return_def)
  show ?thesis
    unfolding getBoundingBox_def tidy_def
    apply (simp only: body prod.case sum.case)
    using ws filter_fresh_two [of 19 27 28 "nextId s"]
    apply (simp add: allocs_def wf_state_def list_all_iff t19_def t27_def)
    done
qed


subsection \<open>\<^verbatim>\<open>getSingleBoundingBox\<close> on a well-formed call\<close>

lemma resize_tidy:
  assumes ws: "wf_state s"
    and rs: "rt_resizeBilinear rt (tval input) (width this, height this) = Inr resized"
  shows "tidy (\<lambda>t. [tid t])
           (tf_bind (tf_resizeBilinear rt input (width this, height this)) (\<lambda>resized.
            tf_op_4d_scalar (/) resized 255)) s
       = (Inr \<lparr>tid = nextId s + 1, tval = resized_image resized\<rparr>,
          s\<lparr>live := live s @ [nextId s + 1], nextId := nextId s + 2\<rparr>)"
proof -
  define t0 where "t0 = \<lparr>tid = nextId s, tval = resized\<rparr>"
  define t1 where "t1 = \<lparr>tid = nextId s + 1, tval = resized_image resized\<rparr>"
  have e0: "tf_resizeBilinear rt input (width this, height this) s = (Inr t0, allocs 1 s)"
    using makeTensor_at [of _ 0 s] rs by (simp add: tf_resizeBilinear_def t0_def)
  have e1: "tf_op_4d_scalar (/) t0 255 (allocs 1 s) = (Inr t1, allocs 2 s)"
    by (simp add: tf_op_4d_scalar_def t0_def t1_def makeTensor_at resized_image_def)
  have body: "tf_bind (tf_resizeBilinear rt input (width this, height this)) (\<lambda>resized.
            tf_op_4d_scalar (/) resized 255) s = (Inr t1, allocs 2 s)"
    by (simp only: tf_bind_def e0 e1 prod.case sum.case)
  show ?thesis
    unfolding tidy_def
    apply (simp only: body prod.case sum.case)
    using ws filter_fresh_one [of 1 2 "nextId s"]
    apply (simp add: allocs_def wf_state_def list_all_iff t1_def)
    done
qed

lemma wf_state_after_resize:
  "wf_state s \<Longrightarrow> wf_state (s\<lparr>live := live s @ [nextId s + 1], nextId := nextId s + 2\<rparr>)"
  by (auto simp: wf_state_def list_all_iff)

lemma getSingleBoundingBox_None:
  assumes wf: "wf_detector this" and ws: "wf_state s"
    and rs: "rt_resizeBilinear rt (tval input) (width this, height this) = Inr resized"
    and pr: "predict (model this) (model_input (resized_image resized)) = Inr [rows]"
    and len: "length rows = length (tval (anchors this))"
    and n1: "length rows \<noteq> 1"
    and r19: "\<forall>r \<in> set rows. length r = 19"
    and nms: "rt_nonMaxSuppression rt (decoded_boxes this rows) (scores_value rows) 1
                (iouThreshold this) (scoreThreshold this) = Inr []"
  shows "getSingleBoundingBox rt this input s =
     (Inr None, s\<lparr>live := live s @ [nextId s + 1], nextId := nextId s + 21\<rparr>)"
proof -
  define image where "image = \<lparr>tid = nextId s + 1, tval = resized_image resized\<rparr>"
  define s1 where "s1 = s\<lparr>live := live s @ [nextId s + 1], nextId := nextId s + 2\<rparr>"
  have ws1: "wf_state s1" unfolding s1_def using ws by (rule wf_state_after_resize)
  have pr': "predict (model this) (model_input (tval image)) = Inr [rows]"
    using pr by (simp add: image_def)
  have e0: "tidy (\<lambda>t. [tid t])
           (tf_bind (tf_resizeBilinear rt input (width this, height this)) (\<lambda>resized.
            tf_op_4d_scalar (/) resized 255)) s = (Inr image, s1)"
    unfolding image_def s1_def using ws rs by (rule resize_tidy)
  have e1: "getBoundingBox rt this image s1 = (Inr None, s1\<lparr>nextId := nextId s1 + 19\<rparr>)"
    using wf ws1 pr' len n1 r19 nms by (rule getBoundingBox_None)
  show ?thesis
    unfolding getSingleBoundingBox_def Let_def
    apply (simp only: tf_bind_def e0 e1 prod.case sum.case option.case tf_return_def)
    apply (simp add: s1_def)
    done
qed

lemma getSingleBoundingBox_Some:
  assumes wf: "wf_detector this" and ws: "wf_state s"
    and rs: "rt_resizeBilinear rt (tval input) (width this, height this) = Inr resized"
    and pr: "predict (model this) (model_input (resized_image resized)) = Inr [rows]"
    and len: "length rows = length (tval (anchors this))"
    and n1: "length rows \<noteq> 1"
    and r19: "\<forall>r \<in> set rows. length r = 19"
    and nms: "rt_nonMaxSuppression rt (decoded_boxes this rows) (scores_value rows) 1
                (iouThreshold this) (scoreThreshold this) = Inr (i # rest)"
    and i: "i < length rows"
  shows "getSingleBoundingBox rt this input s =
     (Inr (Some (scaleBoxCoordinates
        \<lparr>startPoint = take 2 (decoded_boxes this rows ! i),
         endPoint = take 2 (drop 2 (decoded_boxes this rows ! i)),
         landmarks = decoded_landmarks this rows ! i\<rparr>
        (real (shape2 (tval input)) / width this, real (shape1 (tval input)) / height this))),
      s\<lparr>nextId := nextId s + 30\<rparr>)"
proof -
  define image where "image = \<lparr>tid = nextId s + 1, tval = resized_image resized\<rparr>"
  define s1 where "s1 = s\<lparr>live := live s @ [nextId s + 1], nextId := nextId s + 2\<rparr>"
  define tb where "tb = \<lparr>tid = nextId s1 + 19, tval = [decoded_boxes this rows ! i]\<rparr>"
  define tl where "tl = \<lparr>tid = nextId s1 + 27, tval = decoded_landmarks this rows ! i\<rparr>"
  define s2 where "s2 = s1\<lparr>live := live s1 @ [nextId s1 + 19, nextId s1 + 27], nextId := nextId s1 + 28\<rparr>"
  have ws1: "wf_state s1" unfolding s1_def using ws by (rule wf_state_after_resize)
  have pr': "predict (model this) (model_input (tval image)) = Inr [rows]"
    using pr by (simp add: image_def)
  have e0: "tidy (\<lambda>t. [tid t])
           (tf_bind (tf_resizeBilinear rt input (width this, height this)) (\<lambda>resized.
            tf_op_4d_scalar (/) resized 255)) s = (Inr image, s1)"
    unfolding image_def s1_def using ws rs by (rule resize_tidy)
  have e1: "getBoundingBox rt this image s1 = (Inr (Some (tb, tl)), s2)"
    unfolding tb_def tl_def s2_def
    using wf ws1 pr' len n1 r19 nms i by (rule getBoundingBox_Some)
  have as: "arraySync tb = [decoded_boxes this rows ! i]" "arraySync tl = decoded_landmarks this rows ! i"
    by (simp_all add: arraySync_def tb_def tl_def)
  have fresh: "k + nextId s \<notin> set (live s)" "nextId s + k \<notin> set (live s)"
    "Suc (nextId s) \<notin> set (live s)" for k
    using ws by (auto simp: wf_state_def list_all_iff)
  show ?thesis
    unfolding getSingleBoundingBox_def Let_def
    apply (simp only: tf_bind_def e0 e1 prod.case sum.case option.case list.case as tf_return_def dispose_def)
    using fresh apply (simp add: s1_def s2_def image_def tb_def tl_def)
    done
qed


subsection \<open>Non-maximum suppression with one requested box\<close>

lemma suppress_one:
  "suppress boxes iou (Suc 0) cs [] = (case cs of [] \<Rightarrow> [] | c # _ \<Rightarrow> [c])"
proof (cases cs)
  case Nil
  then show ?thesis by simp
next
  case (Cons c cs')
  have "suppress boxes iou (Suc 0) cs' [c] = [c]"
    by (cases cs') simp_all
  with Cons show ?thesis by simp
qed

lemma nonMaxSuppression_one:
  "nonMaxSuppression boxes scores (Suc 0) iou thr =
     (case candidates scores thr of [] \<Rightarrow> [] | c # _ \<Rightarrow> [c])"
  by (simp add: nonMaxSuppression_def suppress_one)

lemma set_candidates:
  "set (candidates scores thr) = {i. i < length scores \<and> thr \<le> scores ! i}"
  by (auto simp: candidates_def)

lemma candidates_head:
  assumes "candidates scores thr = c # cs"
  shows "c < length scores \<and> thr \<le> scores ! c \<and>
     (\<forall>j < length scores. thr \<le> scores ! j \<longrightarrow> scores ! j \<le> scores ! c)"
proof -
  have "c \<in> set (candidates scores thr)" using assms by simp
  then have c: "c < length scores" "thr \<le> scores ! c" by (simp_all add: set_candidates)
  have "sorted (map (\<lambda>i. - (scores ! i)) (candidates scores thr))"
    unfolding candidates_def by (rule sorted_sort_key)
  then have "\<forall>j \<in> set cs. - (scores ! c) \<le> - (scores ! j)"
    using assms by simp
  moreover have "set (candidates scores thr) = insert c (set cs)" using assms by simp
  ultimately have "\<forall>j \<in> set (candidates scores thr). scores ! j \<le> scores ! c"
    by auto
  then show ?thesis using c by (auto simp: set_candidates)
qed

lemma candidates_empty:
  "candidates scores thr = [] \<longleftrightarrow> (\<forall>j < length scores. scores ! j < thr)"
proof -
  have "candidates scores thr = [] \<longleftrightarrow> set (candidates scores thr) = {}" by simp
  also have "\<dots> \<longleftrightarrow> (\<forall>j < length scores. scores ! j < thr)"
    unfolding set_candidates by (auto simp: not_le)
  finally show ?thesis .
qed

lemma nonMaxSuppression_unique_max:
  assumes "i < length scores" and "thr \<le> scores ! i"
    and "\<forall>j < length scores. j \<noteq> i \<longrightarrow> scores ! j < scores ! i"
  shows "nonMaxSuppression boxes scores 1 iou thr = [i]"
proof -
  have "i \<in> set (candidates scores thr)" using assms(1,2) by (simp add: set_candidates)
  then obtain c cs where cs: "candidates scores thr = c # cs"
    by (cases "candidates scores thr") auto
  from candidates_head [OF cs] assms have "c = i"
    by (metis leD)
  with cs show ?thesis by (simp add: nonMaxSuppression_one)
qed

lemma nonMaxSuppression_one_cases:
  obtains (none) "nonMaxSuppression boxes scores 1 iou thr = []" "\<forall>j < length scores. scores ! j < thr"
  | (one) i where "nonMaxSuppression boxes scores 1 iou thr = [i]" "i < length scores"
      "thr \<le> scores ! i" "\<forall>j < length scores. scores ! j \<le> scores ! i"
proof (cases "candidates scores thr")
  case Nil
  then have "nonMaxSuppression boxes scores 1 iou thr = []"
    by (simp add: nonMaxSuppression_one)
  moreover have "\<forall>j < length scores. scores ! j < thr"
    using Nil by (simp add: candidates_empty)
  ultimately show ?thesis by (rule none)
next
  case (Cons c cs)
  from candidates_head [OF Cons]
  have c: "c < length scores" "thr \<le> scores ! c"
    "\<forall>j < length scores. thr \<le> scores ! j \<longrightarrow> scores ! j \<le> scores ! c" by auto
  have "\<forall>j < length scores. scores ! j \<le> scores ! c"
  proof (intro allI impI)
    fix j assume "j < length scores"
    then show "scores ! j \<le> scores ! c"
      using c by (cases "thr \<le> scores ! j") auto
  qed
  moreover have "nonMaxSuppression boxes scores 1 iou thr = [c]"
    using Cons by (simp add: nonMaxSuppression_one)
  ultimately show ?thesis using c(1,2) one by blast
qed

lemma sigmoid_mono: "x < y \<Longrightarrow> sigmoid x < sigmoid y"
  unfolding sigmoid_def by (intro divide_strict_left_mono) (simp_all add: add_pos_pos)

lemma sigmoid_0: "sigmoid 0 = 1 / 2"
  by (simp add: sigmoid_def)


subsection \<open>What a call keeps\<close>

lemma keeps_makeTensor: "keeps n (fresh_from n) (makeTensor r)"
  by (cases r) (simp_all add: keeps_def makeTensor_def fresh_from_def)

lemma keeps_return: "post x \<Longrightarrow> keeps n post (tf_return x)"
  by (simp add: keeps_def tf_return_def)

lemma keeps_throw: "keeps n post (\<lambda>s. (Inl e, s))"
  by (simp add: keeps_def)

lemma keeps_bind:
  assumes "keeps n p m" and "\<And>x. p x \<Longrightarrow> keeps n q (f x)"
  shows "keeps n q (tf_bind m f)"
  unfolding keeps_def
proof (intro allI impI)
  fix s :: tfstate assume s: "n \<le> nextId s"
  obtain r s' where ms: "m s = (r, s')" by (cases "m s")
  with assms(1) s have 1: "n \<le> nextId s'"
    "filter (\<lambda>t. t < n) (live s') = filter (\<lambda>t. t < n) (live s)"
    "case r of Inl e \<Rightarrow> True | Inr x \<Rightarrow> p x"
    by (auto simp: keeps_def)
  show "case tf_bind m f s of
      (r, s') \<Rightarrow> n \<le> nextId s' \<and> filter (\<lambda>t. t < n) (live s') = filter (\<lambda>t. t < n) (live s) \<and>
        (case r of Inl e \<Rightarrow> True | Inr x \<Rightarrow> q x)"
  proof (cases r)
    case (Inl e)
    with ms 1 show ?thesis by (simp add: tf_bind_def)
  next
    case (Inr x)
    with 1 have "keeps n q (f x)" using assms(2) by simp
    with 1(1) obtain r2 s2 where f: "f x s' = (r2, s2)" and 2: "n \<le> nextId s2"
      "filter (\<lambda>t. t < n) (live s2) = filter (\<lambda>t. t < n) (live s')"
      "case r2 of Inl e \<Rightarrow> True | Inr y \<Rightarrow> q y"
      by (cases "f x s'") (auto simp: keeps_def)
    with ms Inr 1 show ?thesis by (simp add: tf_bind_def)
  qed
qed

lemma keeps_tidy:
  assumes "keeps n p m"
  shows "keeps n p (tidy kept m)"
  unfolding keeps_def
proof (intro allI impI)
  fix s :: tfstate assume s: "n \<le> nextId s"
  obtain r s' where ms: "m s = (r, s')" by (cases "m s")
  with assms s have 1: "n \<le> nextId s'"
    "filter (\<lambda>t. t < n) (live s') = filter (\<lambda>t. t < n) (live s)"
    "case r of Inl e \<Rightarrow> True | Inr x \<Rightarrow> p x"
    by (auto simp: keeps_def)
  have "filter (\<lambda>t. t < n) (filter (\<lambda>t. t < nextId s \<or> Q t) (live s')) = filter (\<lambda>t. t < n) (live s')" for Q
    using s by (auto intro!: filter_cong)
  with ms 1 show "case tidy kept m s of
      (r, s') \<Rightarrow> n \<le> nextId s' \<and> filter (\<lambda>t. t < n) (live s') = filter (\<lambda>t. t < n) (live s) \<and>
        (case r of Inl e \<Rightarrow> True | Inr x \<Rightarrow> p x)"
    by (simp add: tidy_def)
qed

lemma filter_below_removeAll:
  "n \<le> a \<Longrightarrow> filter (\<lambda>t. t < n) (removeAll a xs) = filter (\<lambda>t. t < (n::nat)) xs"
  by (induction xs) auto

lemma keeps_dispose: "fresh_from n x \<Longrightarrow> keeps n (\<lambda>_. True) (dispose x)"
  by (simp add: keeps_def dispose_def fresh_from_def filter_below_removeAll)

lemma keeps_ops:
  "keeps n (fresh_from n) (tf_slice2d a st ct)"
  "keeps n (fresh_from n) (tf_slice3d a3 st c1)"
  "keeps n (fresh_from n) (tf_op_2d_1d f a v)"
  "keeps n (fresh_from n) (tf_op_2d_2d f a b)"
  "keeps n (fresh_from n) (tf_op_3d_1d f a3 v)"
  "keeps n (fresh_from n) (tf_op_3d_3d f a3 b3)"
  "keeps n (fresh_from n) (tf_op_4d_scalar f a4 c)"
  "keeps n (fresh_from n) (tf_concat2d_axis1 a b)"
  "keeps n (fresh_from n) (tf_reshape_2d_to_3d a j k)"
  "keeps n (fresh_from n) (tf_reshape_3d_to_2d a3 k)"
  "keeps n (fresh_from n) (tf_squeeze3 a3)"
  "keeps n (fresh_from n) (tf_squeeze2 a)"
  "keeps n (fresh_from n) (tf_sigmoid a)"
  "keeps n (fresh_from n) (tf_predict gm a4)"
  "keeps n (fresh_from n) (tf_resizeBilinear rt a4 sz)"
  "keeps n (fresh_from n) (tf_image_nonMaxSuppression rt a sc mx io th)"
  by (simp_all add: tf_slice2d_def tf_slice3d_def tf_op_2d_1d_def tf_op_2d_2d_def tf_op_3d_1d_def
      tf_op_3d_3d_def tf_op_4d_scalar_def tf_concat2d_axis1_def tf_reshape_2d_to_3d_def
      tf_reshape_3d_to_2d_def tf_squeeze3_def tf_squeeze2_def tf_sigmoid_def tf_predict_def
      tf_resizeBilinear_def tf_image_nonMaxSuppression_def keeps_makeTensor)

lemma keeps_bind_tensor:
  assumes "keeps n (fresh_from n) m" and "\<And>x. fresh_from n x \<Longrightarrow> keeps n q (f x)"
  shows "keeps n q (tf_bind m f)"
  using assms by (rule keeps_bind)

lemma keeps_normalizeBoxes: "keeps n (fresh_from n) (normalizeBoxes this boxes)"
  unfolding normalizeBoxes_def by (intro keeps_bind_tensor keeps_ops)

lemma keeps_decode_landmarks: "keeps n (fresh_from n) (decode_landmarks this raw)"
  unfolding decode_landmarks_def by (intro keeps_bind_tensor keeps_ops)

lemma keeps_getBoundingBox: "keeps n (fresh_pair n) (getBoundingBox rt this input)"
  unfolding getBoundingBox_def Let_def
  apply (rule keeps_tidy)
  apply (intro keeps_bind_tensor keeps_ops keeps_normalizeBoxes)
  apply (simp add: keeps_return fresh_pair_def)
  apply (intro conjI impI keeps_bind_tensor keeps_ops keeps_decode_landmarks)
  apply (simp add: keeps_return fresh_pair_def)
  done

lemma keeps_getSingleBoundingBox: "keeps n (\<lambda>_. True) (getSingleBoundingBox rt this input)"
  unfolding getSingleBoundingBox_def Let_def
  apply (rule keeps_bind [where p = "fresh_from n"])
   apply (rule keeps_tidy)
   apply (intro keeps_bind_tensor keeps_ops)
  apply (rule keeps_bind [where p = "fresh_pair n"])
   apply (rule keeps_getBoundingBox)
  apply (auto simp: fresh_pair_def keeps_return keeps_throw split: option.splits list.splits
      intro!: keeps_bind [where p = "\<lambda>_. True"] keeps_dispose)
  done


subsection \<open>What a call returns is independent of the state\<close>

lemma same_makeTensor: "same_result same_value (makeTensor r) (makeTensor r)"
  by (cases r) (simp_all add: same_result_def makeTensor_def same_value_def)

lemma same_return: "rel x y \<Longrightarrow> same_result rel (tf_return x) (tf_return y)"
  by (simp add: same_result_def tf_return_def)

lemma same_throw: "same_result rel (\<lambda>s. (Inl e, s)) (\<lambda>s. (Inl e, s))"
  by (simp add: same_result_def)

lemma same_bind:
  assumes "same_result rel m1 m2" and "\<And>x y. rel x y \<Longrightarrow> same_result rel' (f1 x) (f2 y)"
  shows "same_result rel' (tf_bind m1 f1) (tf_bind m2 f2)"
  unfolding same_result_def
proof (intro allI)
  fix s1 s2 :: tfstate
  obtain r1 t1 r2 t2 where m: "m1 s1 = (r1, t1)" "m2 s2 = (r2, t2)"
    by (cases "m1 s1", cases "m2 s2") auto
  have "rel_sum (=) rel (fst (m1 s1)) (fst (m2 s2))"
    using assms(1) unfolding same_result_def by blast
  with m have r: "rel_sum (=) rel r1 r2" by simp
  show "rel_sum (=) rel' (fst (tf_bind m1 f1 s1)) (fst (tf_bind m2 f2 s2))"
  proof (cases r1)
    case (Inl e)
    with r have "r2 = Inl e" by (cases r2) simp_all
    with m Inl show ?thesis by (simp add: tf_bind_def)
  next
    case (Inr x)
    with r obtain y where y: "r2 = Inr y" "rel x y" by (cases r2) simp_all
    with assms(2) have "same_result rel' (f1 x) (f2 y)" by simp
    with m Inr y show ?thesis by (simp add: tf_bind_def same_result_def)
  qed
qed

lemma same_bind_tensor:
  assumes "same_result same_value m1 m2"
    and "\<And>x y. same_value x y \<Longrightarrow> same_result rel' (f1 x) (f2 y)"
  shows "same_result rel' (tf_bind m1 f1) (tf_bind m2 f2)"
  using assms by (rule same_bind)

lemma same_tidy:
  "same_result rel m1 m2 \<Longrightarrow> same_result rel (tidy k1 m1) (tidy k2 m2)"
  by (simp add: same_result_def tidy_def split_def)

lemma same_dispose: "same_result (=) (dispose x) (dispose y)"
  by (simp add: same_result_def dispose_def)

lemma same_ops:
  "same_value a a' \<Longrightarrow> same_result same_value (tf_slice2d a st ct) (tf_slice2d a' st ct)"
  "same_value a3 a3' \<Longrightarrow> same_result same_value (tf_slice3d a3 st c1) (tf_slice3d a3' st c1)"
  "same_value a a' \<Longrightarrow> same_result same_value (tf_op_2d_1d f a v) (tf_op_2d_1d f a' v)"
  "same_value a a' \<Longrightarrow> same_result same_value (tf_op_2d_2d f a b) (tf_op_2d_2d f a' b)"
  "same_value a a' \<Longrightarrow> same_value b b' \<Longrightarrow>
     same_result same_value (tf_op_2d_2d f a b) (tf_op_2d_2d f a' b')"
  "same_value a3 a3' \<Longrightarrow> same_result same_value (tf_op_3d_1d f a3 v) (tf_op_3d_1d f a3' v)"
  "same_value a3 a3' \<Longrightarrow> same_value b3 b3' \<Longrightarrow>
     same_result same_value (tf_op_3d_3d f a3 b3) (tf_op_3d_3d f a3' b3')"
  "same_value a4 a4' \<Longrightarrow> same_result same_value (tf_op_4d_scalar f a4 c) (tf_op_4d_scalar f a4' c)"
  "same_value a a' \<Longrightarrow> same_value b b' \<Longrightarrow>
     same_result same_value (tf_concat2d_axis1 a b) (tf_concat2d_axis1 a' b')"
  "same_value a a' \<Longrightarrow> same_result same_value (tf_reshape_2d_to_3d a j k) (tf_reshape_2d_to_3d a' j k)"
  "same_value a3 a3' \<Longrightarrow> same_result same_value (tf_reshape_3d_to_2d a3 k) (tf_reshape_3d_to_2d a3' k)"
  "same_value a3 a3' \<Longrightarrow> same_result same_value (tf_squeeze3 a3) (tf_squeeze3 a3')"
  "same_value a a' \<Longrightarrow> same_result same_value (tf_squeeze2 a) (tf_squeeze2 a')"
  "same_value a a' \<Longrightarrow> same_result same_value (tf_sigmoid a) (tf_sigmoid a')"
  "same_value a4 a4' \<Longrightarrow> same_result same_value (tf_predict gm a4) (tf_predict gm a4')"
  "same_value a4 a4' \<Longrightarrow> same_result same_value (tf_resizeBilinear rt a4 sz) (tf_resizeBilinear rt a4' sz)"
  "same_value a a' \<Longrightarrow> same_value sc sc' \<Longrightarrow>
     same_result same_value (tf_image_nonMaxSuppression rt a sc mx io th)
       (tf_image_nonMaxSuppression rt a' sc' mx io th)"
  by (simp_all add: tf_slice2d_def tf_slice3d_def tf_op_2d_1d_def tf_op_2d_2d_def tf_op_3d_1d_def
      tf_op_3d_3d_def tf_op_4d_scalar_def tf_concat2d_axis1_def tf_reshape_2d_to_3d_def
      tf_reshape_3d_to_2d_def tf_squeeze3_def tf_squeeze2_def tf_sigmoid_def tf_predict_def
      tf_resizeBilinear_def tf_image_nonMaxSuppression_def same_makeTensor same_value_def)

lemma same_normalizeBoxes:
  "same_value boxes boxes' \<Longrightarrow>
     same_result same_value (normalizeBoxes this boxes) (normalizeBoxes this boxes')"
  unfolding normalizeBoxes_def
  by (intro same_bind_tensor same_ops) (assumption | simp add: same_value_def)+

lemma same_decode_landmarks:
  "same_value raw raw' \<Longrightarrow>
     same_result same_value (decode_landmarks this raw) (decode_landmarks this raw')"
  unfolding decode_landmarks_def
  by (intro same_bind_tensor same_ops) (assumption | simp add: same_value_def)+

lemma same_getBoundingBox:
  assumes "same_value input input'"
  shows "same_result same_pair (getBoundingBox rt this input) (getBoundingBox rt this input')"
  unfolding getBoundingBox_def
  apply (rule same_tidy)
  apply (rule same_bind_tensor, rule same_ops, rule assms)
  apply (rule same_bind_tensor, rule same_ops, assumption)
  apply (rule same_bind_tensor, rule same_ops, assumption)
  apply (rule same_bind_tensor, rule same_ops, assumption)
  apply (rule same_bind_tensor, rule same_ops, assumption)
  apply (rule same_bind_tensor, rule same_ops, assumption)
  apply (rule same_bind_tensor, rule same_ops, assumption)
  apply (rule same_bind_tensor, rule same_ops, assumption)
  apply (rule same_bind_tensor, rule same_normalizeBoxes, assumption)
  apply (rule same_bind_tensor, rule same_ops, assumption, assumption)
  subgoal for x y x1 y1 x2 y2 prediction prediction' x4 y4 x5 y5 scores scores' x7 y7 boxes boxes'
      selected selected'
    apply (simp add: Let_def arraySync_def same_value_def [of selected selected'])
    apply (intro conjI impI)
     apply (simp add: same_return same_pair_def)
    apply (rule same_bind_tensor, rule same_ops, assumption)
    apply (rule same_bind_tensor, rule same_ops, assumption)
    apply (rule same_bind_tensor, rule same_decode_landmarks, assumption)
    apply (rule same_bind_tensor, rule same_ops, assumption)
    apply (rule same_bind_tensor, rule same_ops, assumption)
    apply (simp add: same_return same_pair_def)
    done
  done

lemma same_getSingleBoundingBox:
  assumes "same_value input input'"
  shows "same_result (=) (getSingleBoundingBox rt this input) (getSingleBoundingBox rt this input')"
proof -
  have tv: "tval input = tval input'" using assms by (simp add: same_value_def)
  have tail: "same_result (=)
      (case r of None \<Rightarrow> tf_return None
       | Some (bboxes_tensor, landmarks_tensor) \<Rightarrow>
          (case arraySync bboxes_tensor of
             [] \<Rightarrow> (\<lambda>s. (Inl TypeError, s))
           | bboxes0 # _ \<Rightarrow>
               tf_bind (dispose image) (\<lambda>_.
               tf_bind (dispose bboxes_tensor) (\<lambda>_.
               tf_bind (dispose landmarks_tensor) (\<lambda>_.
               tf_return (Some (scaleBoxCoordinates
                          \<lparr>startPoint = take 2 bboxes0,
                           endPoint = take 2 (drop 2 bboxes0),
                           landmarks = arraySync landmarks_tensor\<rparr> fs))))))) 
      (case r' of None \<Rightarrow> tf_return None
       | Some (bboxes_tensor, landmarks_tensor) \<Rightarrow>
          (case arraySync bboxes_tensor of
             [] \<Rightarrow> (\<lambda>s. (Inl TypeError, s))
           | bboxes0 # _ \<Rightarrow>
               tf_bind (dispose image') (\<lambda>_.
               tf_bind (dispose bboxes_tensor) (\<lambda>_.
               tf_bind (dispose landmarks_tensor) (\<lambda>_.
               tf_return (Some (scaleBoxCoordinates
                          \<lparr>startPoint = take 2 bboxes0,
                           endPoint = take 2 (drop 2 bboxes0),
                           landmarks = arraySync landmarks_tensor\<rparr> fs)))))))"
    if "same_pair r r'" for r r' image image' fs
  proof (cases r)
    case None
    with that have "r' = None" by (auto simp: same_pair_def split: option.splits)
    with None show ?thesis by (simp add: same_return)
  next
    case (Some p)
    obtain b l where p: "p = (b, l)" by (cases p)
    with that Some obtain b' l' where r': "r' = Some (b', l')" and v: "tval b = tval b'" "tval l = tval l'"
      by (auto simp: same_pair_def same_value_def split: option.splits)
    show ?thesis
    proof (cases "tval b'")
      case Nil
      with Some p r' v show ?thesis by (simp add: arraySync_def same_throw)
    next
      case (Cons b0 bs)
      have "same_result (=)
          (tf_bind (dispose image) (\<lambda>_. tf_bind (dispose b) (\<lambda>_. tf_bind (dispose l) (\<lambda>_. tf_return z))))
          (tf_bind (dispose image') (\<lambda>_. tf_bind (dispose b') (\<lambda>_. tf_bind (dispose l') (\<lambda>_. tf_return z))))"
        for z :: "BoundingBox option"
        by (intro same_bind [where rel = "(=)"] same_dispose same_return) simp
      with Some p r' v Cons show ?thesis
        by (simp add: arraySync_def)
    qed
  qed
  show ?thesis
    unfolding getSingleBoundingBox_def Let_def tv
    apply (rule same_bind_tensor)
     apply (rule same_tidy)
     apply (rule same_bind_tensor, rule same_ops, rule assms)
     apply (rule same_ops, assumption)
    apply (rule same_bind [where rel = same_pair])
     apply (rule same_getBoundingBox, assumption)
    apply (rule tail, assumption)
    done
qed

lemma getSingleBoundingBox_state_independent:
  "fst (getSingleBoundingBox rt this input s1) = fst (getSingleBoundingBox rt this input s2)"
  using same_getSingleBoundingBox [of input input rt this]
  by (simp add: same_result_def same_value_def sum.rel_eq)

lemma getSingleBoundingBox_keeps_live:
  assumes "wf_state s"
  shows "filter (\<lambda>t. t < nextId s) (live (snd (getSingleBoundingBox rt this input s))) = live s"
proof -
  have "filter (\<lambda>t. t < nextId s) (live s) = live s"
    using assms by (simp add: wf_state_def list_all_iff)
  moreover obtain r s' where rs: "getSingleBoundingBox rt this input s = (r, s')"
    by (cases "getSingleBoundingBox rt this input s")
  moreover have "case getSingleBoundingBox rt this input s of
      (r, s') \<Rightarrow> nextId s \<le> nextId s' \<and>
        filter (\<lambda>t. t < nextId s) (live s') = filter (\<lambda>t. t < nextId s) (live s) \<and>
        (case r of Inl e \<Rightarrow> True | Inr x \<Rightarrow> True)"
    using keeps_getSingleBoundingBox [of "nextId s" rt this input, unfolded keeps_def, rule_format, of s]
    by simp
  ultimately show ?thesis by simp
qed

subsection \<open>The constructor\<close>

lemma upt_three: "[n ..< n + 3] = [n, n + 1, n + 2]"
  by (simp add: upt_rec [of n] upt_rec [of "Suc n"] upt_rec [of "Suc (Suc n)"])

lemma HandDetector_new_Inr:
  assumes "HandDetector_new gm w h ANCHORS iou thr s0 = (Inr this, s1)"
  shows "this = \<lparr>model = gm, width = w, height = h, iouThreshold = iou, scoreThreshold = thr,
      anchors = \<lparr>tid = nextId s0, tval = map (\<lambda>a. [x_center a, y_center a]) ANCHORS\<rparr>,
      inputSizeTensor = \<lparr>tid = nextId s0 + 1, tval = [w, h]\<rparr>,
      doubleInputSizeTensor = \<lparr>tid = nextId s0 + 2, tval = [w * 2, h * 2]\<rparr>\<rparr>"
    and "ANCHORS \<noteq> []" and "s1 = allocs 3 s0"
proof -
  show ne: "ANCHORS \<noteq> []"
  proof
    assume "ANCHORS = []"
    then have "HandDetector_new gm w h ANCHORS iou thr s0 = (Inl ShapeError, s0)"
      by (simp add: HandDetector_new_def tensor2d_def tf_bind_def)
    with assms show False by simp
  qed
  have "HandDetector_new gm w h ANCHORS iou thr s0 =
    (Inr \<lparr>model = gm, width = w, height = h, iouThreshold = iou, scoreThreshold = thr,
      anchors = \<lparr>tid = nextId s0, tval = map (\<lambda>a. [x_center a, y_center a]) ANCHORS\<rparr>,
      inputSizeTensor = \<lparr>tid = nextId s0 + 1, tval = [w, h]\<rparr>,
      doubleInputSizeTensor = \<lparr>tid = nextId s0 + 2, tval = [w * 2, h * 2]\<rparr>\<rparr>, allocs 3 s0)"
    using ne
    by (simp add: HandDetector_new_def tensor2d_def tensor1d_def tf_bind_def tf_return_def
        makeTensor_def allocs_def upt_three)
  with assms show "this = \<lparr>model = gm, width = w, height = h, iouThreshold = iou, scoreThreshold = thr,
      anchors = \<lparr>tid = nextId s0, tval = map (\<lambda>a. [x_center a, y_center a]) ANCHORS\<rparr>,
      inputSizeTensor = \<lparr>tid = nextId s0 + 1, tval = [w, h]\<rparr>,
      doubleInputSizeTensor = \<lparr>tid = nextId s0 + 2, tval = [w * 2, h * 2]\<rparr>\<rparr>"
    and "s1 = allocs 3 s0" by simp_all
qed

lemma HandDetector_new_wf:
  assumes "HandDetector_new gm w h ANCHORS iou thr s0 = (Inr this, s1)"
  shows "wf_detector this" and "width this = w" and "height this = h"
    and "tval (anchors this) = map (\<lambda>a. [x_center a, y_center a]) ANCHORS"
    and "length (tval (anchors this)) = length ANCHORS"
  using HandDetector_new_Inr(2) [OF assms]
  unfolding HandDetector_new_Inr(1) [OF assms]
  by (simp_all add: wf_detector_def list_all_iff)

lemma example_detector_new:
  "HandDetector_new gm w h example_anchors iou thr example_state =
     (Inr (example_detector gm w h iou thr), \<lparr>live = [0, 1, 2], nextId = 3\<rparr>)"
  by (simp add: HandDetector_new_def tensor2d_def tensor1d_def tf_bind_def tf_return_def
      makeTensor_def example_anchors_def example_state_def example_detector_def)

subsection \<open>The decoders on a whole prediction\<close>

lemma decode_boxes_run:
  assumes wf: "wf_detector this"
    and len: "length (tval prediction) = length (tval (anchors this))"
    and r19: "\<forall>r \<in> set (tval prediction). length r = 19"
  shows "tf_bind (tf_slice2d prediction (0, 1) (- 1, 4)) (normalizeBoxes this) s =
      (Inr \<lparr>tid = nextId s + 10, tval = decoded_boxes this (tval prediction)\<rparr>, allocs 11 s)"
proof -
  define t0 where "t0 = \<lparr>tid = nextId s, tval = map (\<lambda>r. take 4 (drop 1 r)) (tval prediction)\<rparr>"
  have "slice2d (tval prediction) (0, 1) (- 1, 4) = Inr (map (\<lambda>r. take 4 (drop 1 r)) (tval prediction))"
    using r19 slice2d_columns [of "tval prediction" 1 4] by simp
  then have e0: "tf_slice2d prediction (0, 1) (- 1, 4) s = (Inr t0, allocs 1 s)"
    using makeTensor_at [of _ 0 s] by (simp add: tf_slice2d_def t0_def)
  have b4: "\<forall>r \<in> set (tval t0). length r = 4"
    using r19 by (simp add: t0_def)
  have bl: "length (tval t0) = length (tval (anchors this))"
    using len by (simp add: t0_def)
  have e1: "normalizeBoxes this t0 (allocs 1 s) =
      (Inr \<lparr>tid = nextId s + 10, tval = decoded_boxes this (tval prediction)\<rparr>, allocs 11 s)"
    using normalizeBoxes_success [OF wf bl b4, of 1 s] boxes_value_decoded [OF wf len r19]
    by (simp add: t0_def)
  show ?thesis
    by (simp only: tf_bind_def e0 e1 prod.case sum.case)
qed

lemma decode_landmarks_run:
  assumes wf: "wf_detector this"
    and len: "length (tval prediction) = length (tval (anchors this))"
    and r19: "\<forall>r \<in> set (tval prediction). length r = 19"
  shows "tf_bind (tf_slice2d prediction (0, 5) (- 1, 14)) (decode_landmarks this) s =
      (Inr \<lparr>tid = nextId s + 5, tval = decoded_landmarks this (tval prediction)\<rparr>, allocs 6 s)"
proof -
  define t0 where "t0 = \<lparr>tid = nextId s, tval = map (\<lambda>r. take 14 (drop 5 r)) (tval prediction)\<rparr>"
  have "slice2d (tval prediction) (0, 5) (- 1, 14) = Inr (map (\<lambda>r. take 14 (drop 5 r)) (tval prediction))"
    using r19 slice2d_columns [of "tval prediction" 5 14] by simp
  then have e0: "tf_slice2d prediction (0, 5) (- 1, 14) s = (Inr t0, allocs 1 s)"
    using makeTensor_at [of _ 0 s] by (simp add: tf_slice2d_def t0_def)
  have l14: "\<forall>r \<in> set (tval t0). length r = 14"
    using r19 by (simp add: t0_def)
  have ll: "length (tval t0) = length (tval (anchors this))"
    using len by (simp add: t0_def)
  have e1: "decode_landmarks this t0 (allocs 1 s) =
      (Inr \<lparr>tid = nextId s + 5, tval = decoded_landmarks this (tval prediction)\<rparr>, allocs 6 s)"
    using decode_landmarks_success [OF wf ll l14, of 1 s] landmarks_value_decoded [OF wf len r19]
    by (simp add: t0_def)
  show ?thesis
    by (simp only: tf_bind_def e0 e1 prod.case sum.case)
qed

lemma decoded_boxes_nth:
  assumes "HandDetector_new gm w h ANCHORS iou thr s0 = (Inr this, s1)"
    and "length rows = length ANCHORS" and "i < length ANCHORS"
  shows "decoded_boxes this rows ! i =
       fst (spec_decode_box [w, h] (rows ! i) [x_center (ANCHORS ! i), y_center (ANCHORS ! i)]) @
       snd (spec_decode_box [w, h] (rows ! i) [x_center (ANCHORS ! i), y_center (ANCHORS ! i)])"
  using assms(2,3) HandDetector_new_wf(2,3,4) [OF assms(1)] by (simp add: decoded_boxes_def)

lemma decoded_landmarks_nth:
  assumes "HandDetector_new gm w h ANCHORS iou thr s0 = (Inr this, s1)"
    and "length rows = length ANCHORS" and "i < length ANCHORS"
  shows "decoded_landmarks this rows ! i =
       map (\<lambda>k. spec_decode_landmark [w, h] (raw_landmark (rows ! i) k)
                  [x_center (ANCHORS ! i), y_center (ANCHORS ! i)]) [0..<7]"
  using assms(2,3) HandDetector_new_wf(2,3,4) [OF assms(1)] by (simp add: decoded_landmarks_def)

subsection \<open>Every outcome of a well-formed call\<close>

lemma well_formed_predictionD:
  assumes "well_formed_prediction this img rows"
  shows "predict (model this) (model_input img) = Inr [rows]"
    and "length rows = length (tval (anchors this))"
    and "length rows \<noteq> 1"
    and "\<forall>r \<in> set rows. length r = 19"
  using assms by (simp_all add: well_formed_prediction_def list_all_iff)

lemma tidy_fst: "fst (tidy kept fn s) = fst (fn s)"
  by (simp add: tidy_def split_def)

lemma getBoundingBox_nms_error:
  assumes wf: "wf_detector this"
    and wp: "well_formed_prediction this (tval img) rows"
    and nms: "rt_nonMaxSuppression rt (decoded_boxes this rows) (scores_value rows) 1
                (iouThreshold this) (scoreThreshold this) = Inl e"
  shows "fst (getBoundingBox rt this img s) = Inl e"
proof -
  note p = well_formed_predictionD [OF wp]
  define t3 where "t3 = \<lparr>tid = nextId s + 3, tval = rows\<rparr>"
  define t6 where "t6 = \<lparr>tid = nextId s + 6, tval = scores_value rows\<rparr>"
  define t17 where "t17 = \<lparr>tid = nextId s + 17, tval = decoded_boxes this rows\<rparr>"
  have e9: "tf_image_nonMaxSuppression rt t17 t6 1 (iouThreshold this) (scoreThreshold this) (allocs 18 s)
      = (Inl e, allocs 18 s)"
    using nms by (simp add: tf_image_nonMaxSuppression_def t17_def t6_def)
  have body: "(tf_bind (tf_op_4d_scalar (-) img 0.5) (\<lambda>shifted.
       tf_bind (tf_op_4d_scalar (*) shifted 2) (\<lambda>img2.
       tf_bind (tf_predict (model this) img2) (\<lambda>predicted.
       tf_bind (tf_squeeze3 predicted) (\<lambda>prediction.
       tf_bind (tf_slice2d prediction (0, 0) (- 1, 1)) (\<lambda>rawScores.
       tf_bind (tf_sigmoid rawScores) (\<lambda>sigmoids.
       tf_bind (tf_squeeze2 sigmoids) (\<lambda>scores.
       tf_bind (tf_slice2d prediction (0, 1) (- 1, 4)) (\<lambda>rawBoxes.
       tf_bind (normalizeBoxes this rawBoxes) (\<lambda>boxes.
       tf_bind (tf_image_nonMaxSuppression rt boxes scores 1
                  (iouThreshold this) (scoreThreshold this)) (k prediction boxes))))))))))) s
      = (Inl e, allocs 18 s)" for k
    unfolding getBoundingBox_body_prefix [OF wf p]
    unfolding t3_def [symmetric] t6_def [symmetric] t17_def [symmetric]
    by (simp only: tf_bind_def e9 prod.case sum.case)
  show ?thesis
    unfolding getBoundingBox_def tidy_fst
    by (simp only: body fst_conv)
qed

lemma getBoundingBox_index_error:
  assumes wf: "wf_detector this"
    and wp: "well_formed_prediction this (tval img) rows"
    and nms: "rt_nonMaxSuppression rt (decoded_boxes this rows) (scores_value rows) 1
                (iouThreshold this) (scoreThreshold this) = Inr (i # rest)"
    and i: "\<not> i < length rows"
  shows "fst (getBoundingBox rt this img s) = Inl IndexError"
proof -
  note p = well_formed_predictionD [OF wp]
  define t3 where "t3 = \<lparr>tid = nextId s + 3, tval = rows\<rparr>"
  define t6 where "t6 = \<lparr>tid = nextId s + 6, tval = scores_value rows\<rparr>"
  define t17 where "t17 = \<lparr>tid = nextId s + 17, tval = decoded_boxes this rows\<rparr>"
  define t18 where "t18 = \<lparr>tid = nextId s + 18, tval = i # rest\<rparr>"
  have e9: "tf_image_nonMaxSuppression rt t17 t6 1 (iouThreshold this) (scoreThreshold this) (allocs 18 s)
      = (Inr t18, allocs 19 s)"
    using nms by (simp add: tf_image_nonMaxSuppression_def t17_def t6_def t18_def makeTensor_at)
  have tail: "(let box_indices = arraySync t18 in
       if length box_indices = 0 then tf_return None
       else let box_index = hd box_indices in k box_index) = k i"
    for k :: "nat \<Rightarrow> (Tensor2D tensor \<times> Tensor2D tensor) option tf"
    by (simp add: arraySync_def t18_def)
  have "slice2d (decoded_boxes this rows) (i, 0) (1, - 1) = Inl IndexError"
    using i length_decoded_boxes [OF p(2)] by (simp add: slice2d_def slice_dim_def)
  then have e10: "tf_slice2d t17 (i, 0) (1, - 1) (allocs 19 s) = (Inl IndexError, allocs 19 s)"
    by (simp add: tf_slice2d_def t17_def)
  have body: "(tf_bind (tf_op_4d_scalar (-) img 0.5) (\<lambda>shifted.
       tf_bind (tf_op_4d_scalar (*) shifted 2) (\<lambda>img2.
       tf_bind (tf_predict (model this) img2) (\<lambda>predicted.
       tf_bind (tf_squeeze3 predicted) (\<lambda>prediction.
       tf_bind (tf_slice2d prediction (0, 0) (- 1, 1)) (\<lambda>rawScores.
       tf_bind (tf_sigmoid rawScores) (\<lambda>sigmoids.
       tf_bind (tf_squeeze2 sigmoids) (\<lambda>scores.
       tf_bind (tf_slice2d prediction (0, 1) (- 1, 4)) (\<lambda>rawBoxes.
       tf_bind (normalizeBoxes this rawBoxes) (\<lambda>boxes.
       tf_bind (tf_image_nonMaxSuppression rt boxes scores 1
                  (iouThreshold this) (scoreThreshold this)) (\<lambda>selected.
       let box_indices = arraySync selected in
       if length box_indices = 0 then tf_return None
       else
         let box_index = hd box_indices in
         tf_bind (tf_slice2d boxes (box_index, 0) (1, - 1)) (k prediction box_index)))))))))))) s
       = (Inl IndexError, allocs 19 s)"
    for k :: "Tensor2D tensor \<Rightarrow> nat \<Rightarrow> Tensor2D tensor \<Rightarrow> (Tensor2D tensor \<times> Tensor2D tensor) option tf"
    unfolding getBoundingBox_body_prefix [OF wf p]
    unfolding t3_def [symmetric] t6_def [symmetric] t17_def [symmetric]
    by (simp only: tf_bind_def e9 prod.case sum.case tail e10)
  show ?thesis
    unfolding getBoundingBox_def tidy_fst
    by (simp only: body fst_conv)
qed

lemma getBoundingBox_fst_rel:
  "rel_sum (=) same_pair (fst (getBoundingBox rt this img s)) (fst (getBoundingBox rt this img s0))"
  using same_getBoundingBox [of img img rt this]
  by (simp add: same_result_def same_value_def)

lemma wf_state_empty: "wf_state \<lparr>live = [], nextId = n\<rparr>"
  by (simp add: wf_state_def)

lemma getBoundingBox_Some_inv:
  assumes wf: "wf_detector this"
    and wp: "well_formed_prediction this (tval img) rows"
    and res: "getBoundingBox rt this img s = (Inr (Some (b, l)), s')"
  shows "\<exists>i rest.
     rt_nonMaxSuppression rt (decoded_boxes this rows) (scores_value rows) 1
       (iouThreshold this) (scoreThreshold this) = Inr (i # rest) \<and>
     i < length rows \<and>
     tval b = [decoded_boxes this rows ! i] \<and>
     tval l = decoded_landmarks this rows ! i"
proof -
  note p = well_formed_predictionD [OF wp]
  let ?N = "rt_nonMaxSuppression rt (decoded_boxes this rows) (scores_value rows) 1
       (iouThreshold this) (scoreThreshold this)"
  define s0 where "s0 = \<lparr>live = [], nextId = 0\<rparr>"
  have ws0: "wf_state s0" unfolding s0_def by (rule wf_state_empty)
  have rel: "rel_sum (=) same_pair (Inr (Some (b, l))) (fst (getBoundingBox rt this img s0))"
    using getBoundingBox_fst_rel [of rt this img s s0] res by simp
  show ?thesis
  proof (cases ?N)
    case (Inl e)
    from getBoundingBox_nms_error [OF wf wp Inl, of s] res show ?thesis by simp
  next
    case (Inr idxs)
    show ?thesis
    proof (cases idxs)
      case Nil
      with Inr have "getBoundingBox rt this img s0 = (Inr None, s0\<lparr>nextId := nextId s0 + 19\<rparr>)"
        by (intro getBoundingBox_None [OF wf ws0 p]) simp
      with rel show ?thesis by (simp add: same_pair_def)
    next
      case (Cons i rest)
      show ?thesis
      proof (cases "i < length rows")
        case True
        from Inr Cons have N: "?N = Inr (i # rest)" by simp
        from getBoundingBox_Some [OF wf ws0 p N True] rel
        have "tval b = [decoded_boxes this rows ! i]" "tval l = decoded_landmarks this rows ! i"
          by (simp_all add: same_pair_def same_value_def)
        with N True show ?thesis by blast
      next
        case False
        from Inr Cons have N: "?N = Inr (i # rest)" by simp
        from getBoundingBox_index_error [OF wf wp N False, of s] res show ?thesis by simp
      qed
    qed
  qed
qed

lemma getSingleBoundingBox_throws:
  assumes ws: "wf_state s"
    and rs: "rt_resizeBilinear rt (tval input) (width this, height this) = Inr resized"
    and er: "\<And>img s1. tval img = resized_image resized \<Longrightarrow> fst (getBoundingBox rt this img s1) = Inl e"
  shows "fst (getSingleBoundingBox rt this input s) = Inl e"
proof -
  define img where "img = \<lparr>tid = nextId s + 1, tval = resized_image resized\<rparr>"
  define s1 where "s1 = s\<lparr>live := live s @ [nextId s + 1], nextId := nextId s + 2\<rparr>"
  have e0: "tidy (\<lambda>t. [tid t])
           (tf_bind (tf_resizeBilinear rt input (width this, height this)) (\<lambda>resized.
            tf_op_4d_scalar (/) resized 255)) s = (Inr img, s1)"
    unfolding img_def s1_def using ws rs by (rule resize_tidy)
  have "fst (getBoundingBox rt this img s1) = Inl e"
    by (rule er) (simp add: img_def)
  then obtain s2 where e1: "getBoundingBox rt this img s1 = (Inl e, s2)"
    by (cases "getBoundingBox rt this img s1") simp
  show ?thesis
    unfolding getSingleBoundingBox_def Let_def
    by (simp only: tf_bind_def e0 e1 prod.case sum.case fst_conv)
qed

lemma getSingleBoundingBox_cases:
  assumes wf: "wf_detector this"
    and wc: "well_formed_call rt this input rows"
  shows "fst (getSingleBoundingBox rt this input s) =
     (case rt_nonMaxSuppression rt (decoded_boxes this rows) (scores_value rows) 1
             (iouThreshold this) (scoreThreshold this) of
        Inl e \<Rightarrow> Inl e
      | Inr [] \<Rightarrow> Inr None
      | Inr (i # rest) \<Rightarrow>
          if i < length rows then Inr (Some (detection this input rows i)) else Inl IndexError)"
proof -
  let ?N = "rt_nonMaxSuppression rt (decoded_boxes this rows) (scores_value rows) 1
       (iouThreshold this) (scoreThreshold this)"
  from wc obtain resized where rs: "rt_resizeBilinear rt (tval input) (width this, height this) = Inr resized"
    and wp: "well_formed_prediction this (resized_image resized) rows"
    by (auto simp: well_formed_call_def)
  note p = well_formed_predictionD [OF wp]
  define s0 where "s0 = \<lparr>live = [], nextId = 0\<rparr>"
  have ws0: "wf_state s0" unfolding s0_def by (rule wf_state_empty)
  have ind: "fst (getSingleBoundingBox rt this input s) = fst (getSingleBoundingBox rt this input s0)"
    by (rule getSingleBoundingBox_state_independent)
  show ?thesis
  proof (cases ?N)
    case (Inl e)
    have "fst (getSingleBoundingBox rt this input s0) = Inl e"
      using ws0 rs
    proof (rule getSingleBoundingBox_throws)
      fix img :: "Tensor4D tensor" and s1
      assume "tval img = resized_image resized"
      with wp have "well_formed_prediction this (tval img) rows" by simp
      then show "fst (getBoundingBox rt this img s1) = Inl e"
        using Inl by (intro getBoundingBox_nms_error [OF wf])
    qed
    with Inl ind show ?thesis by simp
  next
    case (Inr idxs)
    show ?thesis
    proof (cases idxs)
      case Nil
      with Inr have "getSingleBoundingBox rt this input s0 =
          (Inr None, s0\<lparr>live := live s0 @ [nextId s0 + 1], nextId := nextId s0 + 21\<rparr>)"
        by (intro getSingleBoundingBox_None [OF wf ws0 rs p]) simp
      with Inr Nil ind show ?thesis by simp
    next
      case (Cons i rest)
      from Inr Cons have N: "?N = Inr (i # rest)" by simp
      show ?thesis
      proof (cases "i < length rows")
        case True
        from getSingleBoundingBox_Some [OF wf ws0 rs p N True]
        have "fst (getSingleBoundingBox rt this input s0) = Inr (Some (detection this input rows i))"
          by (simp add: detection_def)
        with N True ind show ?thesis by simp
      next
        case False
        have "fst (getSingleBoundingBox rt this input s0) = Inl IndexError"
          using ws0 rs
        proof (rule getSingleBoundingBox_throws)
          fix img :: "Tensor4D tensor" and s1
          assume "tval img = resized_image resized"
          with wp have "well_formed_prediction this (tval img) rows" by simp
          then show "fst (getBoundingBox rt this img s1) = Inl IndexError"
            using N False by (intro getBoundingBox_index_error [OF wf])
        qed
        with N False ind show ?thesis by simp
      qed
    qed
  qed
qed

lemma length_scores_value [simp]: "length (scores_value rows) = length rows"
  by (simp add: scores_value_def)

lemma nth_scores_value [simp]: "i < length rows \<Longrightarrow> scores_value rows ! i = sigmoid (rows ! i ! 0)"
  by (simp add: scores_value_def)

lemma spec_runtime_nms [simp]:
  "rt_nonMaxSuppression (spec_runtime resize) boxes scores m a b = Inr (nonMaxSuppression boxes scores m a b)"
  by (simp add: spec_runtime_def)

lemma spec_runtime_resize [simp]: "rt_resizeBilinear (spec_runtime resize) = resize"
  by (simp add: spec_runtime_def)

subsection \<open>The example call, and the fields of a detection\<close>

lemma example_well_formed_call:
  assumes "length rows = 2" and "list_all (\<lambda>r. length r = 19) rows"
  shows "well_formed_call (spec_runtime example_resize)
           (example_detector (example_model rows) 1 1 iou thr) example_input rows"
  using assms
  by (simp add: well_formed_call_def well_formed_prediction_def example_detector_def
      example_model_def example_resize_def)

lemma sigmoid_0_less_1: "sigmoid 0 < sigmoid 1"
  by (rule sigmoid_mono) simp

lemma detection_fields:
  assumes wf: "wf_detector this"
    and len: "length rows = length (tval (anchors this))"
    and r19: "\<forall>r \<in> set rows. length r = 19"
    and i: "i < length rows"
  shows "startPoint (detection this input rows i) =
       [decoded_boxes this rows ! i ! 0 * (real (shape2 (tval input)) / width this),
        decoded_boxes this rows ! i ! 1 * (real (shape1 (tval input)) / height this)]"
    and "endPoint (detection this input rows i) =
       [decoded_boxes this rows ! i ! 2 * (real (shape2 (tval input)) / width this),
        decoded_boxes this rows ! i ! 3 * (real (shape1 (tval input)) / height this)]"
    and "landmarks (detection this input rows i) =
       map (\<lambda>p. [p ! 0 * (real (shape2 (tval input)) / width this),
                  p ! 1 * (real (shape1 (tval input)) / height this)])
         (decoded_landmarks this rows ! i)"
proof -
  have "length (decoded_boxes this rows ! i) = 4"
    unfolding boxes_value_decoded [OF wf len r19, symmetric]
    using i len by (simp add: boxes_value_def)
  then obtain a b c d where box: "decoded_boxes this rows ! i = [a, b, c, d]"
    by (rule length4E)
  show "startPoint (detection this input rows i) =
       [decoded_boxes this rows ! i ! 0 * (real (shape2 (tval input)) / width this),
        decoded_boxes this rows ! i ! 1 * (real (shape1 (tval input)) / height this)]"
    and "endPoint (detection this input rows i) =
       [decoded_boxes this rows ! i ! 2 * (real (shape2 (tval input)) / width this),
        decoded_boxes this rows ! i ! 3 * (real (shape1 (tval input)) / height this)]"
    by (simp_all add: detection_def scaleBoxCoordinates_def scalePoint_def box)
  have "scalePoint p (fx, fy) = [p ! 0 * fx, p ! 1 * fy]"
    if "p \<in> set (decoded_landmarks this rows ! i)" for p fx fy
  proof -
    have "length p = 2" using wf len r19 i that by (rule decoded_landmarks_points)
    then obtain u v where "p = [u, v]" by (rule length2E)
    then show ?thesis by (simp add: scalePoint_def)
  qed
  then show "landmarks (detection this input rows i) =
       map (\<lambda>p. [p ! 0 * (real (shape2 (tval input)) / width this),
                  p ! 1 * (real (shape1 (tval input)) / height this)])
         (decoded_landmarks this rows ! i)"
    by (simp add: detection_def scaleBoxCoordinates_def)
qed

lemma well_formed_callD:
  assumes "well_formed_call rt this input rows"
  shows "length rows = length (tval (anchors this))" and "\<forall>r \<in> set rows. length r = 19"
  using assms by (auto simp: well_formed_call_def dest: well_formed_predictionD)

section \<open>The claims\<close>

text \<open>
  C1. For every row of the raw prediction, the box that \<^verbatim>\<open>normalizeBoxes\<close> decodes from
  the row's columns 1 to 4 is the spec's: \<open>center = raw[1:3] / inputSize + anchor\<close>,
  \<open>halfSize = raw[3:5] / (2 * inputSize)\<close>, \<open>startPoint = (center - halfSize) * inputSize\<close>,
  \<open>endPoint = (center + halfSize) * inputSize\<close>, with the anchor at the same row index
  and \<open>inputSize = (width, height)\<close>; the decoded row is the start point followed by the
  end point. The detector is any the constructor returns; the prediction has one row
  of 19 values per anchor.
\<close>

theorem normalizeBoxes_decodes_every_row:
  assumes "HandDetector_new gm w h ANCHORS iou thr s0 = (Inr this, s1)"
    and "length (tval prediction) = length ANCHORS"
    and "list_all (\<lambda>raw. length raw = 19) (tval prediction)"
    and "i < length ANCHORS"
  shows "\<exists>boxes s'.
     tf_bind (tf_slice2d prediction (0, 1) (- 1, 4)) (normalizeBoxes this) s = (Inr boxes, s') \<and>
     length (tval boxes) = length ANCHORS \<and>
     tval boxes ! i =
       fst (spec_decode_box [w, h] (tval prediction ! i) [x_center (ANCHORS ! i), y_center (ANCHORS ! i)]) @
       snd (spec_decode_box [w, h] (tval prediction ! i) [x_center (ANCHORS ! i), y_center (ANCHORS ! i)])"
proof -
  note d = HandDetector_new_wf [OF assms(1)]
  have r19: "\<forall>r \<in> set (tval prediction). length r = 19"
    using assms(3) by (simp add: list_all_iff)
  have len: "length (tval prediction) = length (tval (anchors this))"
    using assms(2) d(5) by simp
  define t0 where "t0 = \<lparr>tid = nextId s, tval = map (\<lambda>r. take 4 (drop 1 r)) (tval prediction)\<rparr>"
  have "slice2d (tval prediction) (0, 1) (- 1, 4) = Inr (map (\<lambda>r. take 4 (drop 1 r)) (tval prediction))"
    using r19 slice2d_columns [of "tval prediction" 1 4] by simp
  then have e0: "tf_slice2d prediction (0, 1) (- 1, 4) s = (Inr t0, allocs 1 s)"
    using makeTensor_at [of _ 0 s] by (simp add: tf_slice2d_def t0_def)
  have b4: "\<forall>r \<in> set (tval t0). length r = 4"
    using r19 by (simp add: t0_def)
  have bl: "length (tval t0) = length (tval (anchors this))"
    using len by (simp add: t0_def)
  have e1: "normalizeBoxes this t0 (allocs 1 s) =
      (Inr \<lparr>tid = nextId s + 10, tval = decoded_boxes this (tval prediction)\<rparr>, allocs 11 s)"
    using normalizeBoxes_success [OF d(1) bl b4, of 1 s] boxes_value_decoded [OF d(1) len r19]
    by (simp add: t0_def)
  have run: "tf_bind (tf_slice2d prediction (0, 1) (- 1, 4)) (normalizeBoxes this) s =
      (Inr \<lparr>tid = nextId s + 10, tval = decoded_boxes this (tval prediction)\<rparr>, allocs 11 s)"
    by (simp only: tf_bind_def e0 e1 prod.case sum.case)
  have "decoded_boxes this (tval prediction) ! i =
       fst (spec_decode_box [w, h] (tval prediction ! i) [x_center (ANCHORS ! i), y_center (ANCHORS ! i)]) @
       snd (spec_decode_box [w, h] (tval prediction ! i) [x_center (ANCHORS ! i), y_center (ANCHORS ! i)])"
    using assms(2,4) d(2,3,4) by (simp add: decoded_boxes_def)
  moreover have "length (decoded_boxes this (tval prediction)) = length ANCHORS"
    using assms(2) d(5) by (simp add: decoded_boxes_def)
  ultimately show ?thesis using run by simp
qed

theorem normalizeBoxes_decodes_every_row_witness:
  "HandDetector_new (example_model example_rows) 256 128 example_anchors (3 / 10) (3 / 4) example_state
     = (Inr (example_detector (example_model example_rows) 256 128 (3 / 10) (3 / 4)),
        \<lparr>live = [0, 1, 2], nextId = 3\<rparr>) \<and>
   length example_rows = length example_anchors \<and>
   list_all (\<lambda>raw. length raw = 19) example_rows \<and>
   (0::nat) < length example_anchors \<and>
   (\<exists>boxes s'.
     tf_bind (tf_slice2d \<lparr>tid = 7, tval = example_rows\<rparr> (0, 1) (- 1, 4))
       (normalizeBoxes (example_detector (example_model example_rows) 256 128 (3 / 10) (3 / 4)))
       \<lparr>live = [0, 1, 2], nextId = 8\<rparr> = (Inr boxes, s') \<and>
     length (tval boxes) = 2 \<and>
     tval boxes ! 0 = [56, 16, 88, 80])"
proof -
  have c: "HandDetector_new (example_model example_rows) 256 128 example_anchors (3 / 10) (3 / 4) example_state
     = (Inr (example_detector (example_model example_rows) 256 128 (3 / 10) (3 / 4)),
        \<lparr>live = [0, 1, 2], nextId = 3\<rparr>)"
    by (rule example_detector_new)
  have l: "length (tval \<lparr>tid = 7, tval = example_rows\<rparr>) = length example_anchors"
    by (simp add: example_rows_def example_anchors_def)
  have r: "list_all (\<lambda>raw. length raw = 19) (tval \<lparr>tid = (7::nat), tval = example_rows\<rparr>)"
    by (simp add: example_rows_def)
  have i: "(0::nat) < length example_anchors"
    by (simp add: example_anchors_def)
  from normalizeBoxes_decodes_every_row [OF c l r i, of "\<lparr>live = [0, 1, 2], nextId = 8\<rparr>"]
  obtain boxes s' where run: "tf_bind (tf_slice2d \<lparr>tid = 7, tval = example_rows\<rparr> (0, 1) (- 1, 4))
       (normalizeBoxes (example_detector (example_model example_rows) 256 128 (3 / 10) (3 / 4)))
       \<lparr>live = [0, 1, 2], nextId = 8\<rparr> = (Inr boxes, s')"
    and len: "length (tval boxes) = length example_anchors"
    and val: "tval boxes ! 0 =
       fst (spec_decode_box [256, 128] (tval \<lparr>tid = (7::nat), tval = example_rows\<rparr> ! 0)
          [x_center (example_anchors ! 0), y_center (example_anchors ! 0)]) @
       snd (spec_decode_box [256, 128] (tval \<lparr>tid = (7::nat), tval = example_rows\<rparr> ! 0)
          [x_center (example_anchors ! 0), y_center (example_anchors ! 0)])"
    by blast
  have "length (tval boxes) = 2"
    using len by (simp add: example_anchors_def)
  moreover have "tval boxes ! 0 = [56, 16, 88, 80]"
    unfolding val by (simp add: spec_decode_box_def example_rows_def example_anchors_def)
  ultimately show ?thesis
    using c l r i run by auto
qed

text \<open>
  C2. For every row of the raw prediction, each of the 7 landmark points that
  \<^verbatim>\<open>_decode_landmarks\<close> decodes from the row's columns 5 to 18 is the spec's:
  \<open>(raw_landmark / inputSize + anchor) * inputSize\<close>, with the anchor at the same row
  index: the pattern of the box centre, applied to each point.
\<close>

theorem decode_landmarks_decodes_every_point:
  assumes "HandDetector_new gm w h ANCHORS iou thr s0 = (Inr this, s1)"
    and "length (tval prediction) = length ANCHORS"
    and "list_all (\<lambda>raw. length raw = 19) (tval prediction)"
    and "i < length ANCHORS" and "k < 7"
  shows "\<exists>lms s'.
     tf_bind (tf_slice2d prediction (0, 5) (- 1, 14)) (decode_landmarks this) s = (Inr lms, s') \<and>
     length (tval lms) = length ANCHORS \<and>
     length (tval lms ! i) = 7 \<and>
     tval lms ! i ! k =
       spec_decode_landmark [w, h] (raw_landmark (tval prediction ! i) k)
         [x_center (ANCHORS ! i), y_center (ANCHORS ! i)]"
proof -
  note d = HandDetector_new_wf [OF assms(1)]
  have r19: "\<forall>r \<in> set (tval prediction). length r = 19"
    using assms(3) by (simp add: list_all_iff)
  have len: "length (tval prediction) = length (tval (anchors this))"
    using assms(2) d(5) by simp
  have "length (decoded_landmarks this (tval prediction)) = length ANCHORS"
    using assms(2) d(5) by (simp add: decoded_landmarks_def)
  moreover have "length (decoded_landmarks this (tval prediction) ! i) = 7"
    unfolding decoded_landmarks_nth [OF assms(1,2,4)] by simp
  moreover have "decoded_landmarks this (tval prediction) ! i ! k =
       spec_decode_landmark [w, h] (raw_landmark (tval prediction ! i) k)
         [x_center (ANCHORS ! i), y_center (ANCHORS ! i)]"
    unfolding decoded_landmarks_nth [OF assms(1,2,4)] using assms(5) by simp
  ultimately show ?thesis
    using decode_landmarks_run [OF d(1) len r19, of s] by simp
qed

theorem decode_landmarks_decodes_every_point_witness:
  "HandDetector_new (example_model example_rows) 256 128 example_anchors (3 / 10) (3 / 4) example_state
     = (Inr (example_detector (example_model example_rows) 256 128 (3 / 10) (3 / 4)),
        \<lparr>live = [0, 1, 2], nextId = 3\<rparr>) \<and>
   length example_rows = length example_anchors \<and>
   list_all (\<lambda>raw. length raw = 19) example_rows \<and>
   (0::nat) < length example_anchors \<and> (6::nat) < 7 \<and>
   (\<exists>lms s'.
     tf_bind (tf_slice2d \<lparr>tid = 7, tval = example_rows\<rparr> (0, 5) (- 1, 14))
       (decode_landmarks (example_detector (example_model example_rows) 256 128 (3 / 10) (3 / 4)))
       \<lparr>live = [0, 1, 2], nextId = 8\<rparr> = (Inr lms, s') \<and>
     length (tval lms) = 2 \<and>
     length (tval lms ! 0) = 7 \<and>
     tval lms ! 0 ! 6 = [90, 60])"
proof -
  have c: "HandDetector_new (example_model example_rows) 256 128 example_anchors (3 / 10) (3 / 4) example_state
     = (Inr (example_detector (example_model example_rows) 256 128 (3 / 10) (3 / 4)),
        \<lparr>live = [0, 1, 2], nextId = 3\<rparr>)"
    by (rule example_detector_new)
  have l: "length (tval \<lparr>tid = 7, tval = example_rows\<rparr>) = length example_anchors"
    by (simp add: example_rows_def example_anchors_def)
  have r: "list_all (\<lambda>raw. length raw = 19) (tval \<lparr>tid = (7::nat), tval = example_rows\<rparr>)"
    by (simp add: example_rows_def)
  have i: "(0::nat) < length example_anchors"
    by (simp add: example_anchors_def)
  have k: "(6::nat) < 7" by simp
  from decode_landmarks_decodes_every_point [OF c l r i k, of "\<lparr>live = [0, 1, 2], nextId = 8\<rparr>"]
  obtain lms s' where run: "tf_bind (tf_slice2d \<lparr>tid = 7, tval = example_rows\<rparr> (0, 5) (- 1, 14))
       (decode_landmarks (example_detector (example_model example_rows) 256 128 (3 / 10) (3 / 4)))
       \<lparr>live = [0, 1, 2], nextId = 8\<rparr> = (Inr lms, s')"
    and len: "length (tval lms) = length example_anchors"
    and len7: "length (tval lms ! 0) = 7"
    and val: "tval lms ! 0 ! 6 =
       spec_decode_landmark [256, 128] (raw_landmark (tval \<lparr>tid = (7::nat), tval = example_rows\<rparr> ! 0) 6)
          [x_center (example_anchors ! 0), y_center (example_anchors ! 0)]"
    by blast
  have "length (tval lms) = 2"
    using len by (simp add: example_anchors_def)
  moreover have "tval lms ! 0 ! 6 = [90, 60]"
    unfolding val
    by (simp add: spec_decode_landmark_def raw_landmark_def example_rows_def example_anchors_def)
  ultimately show ?thesis
    using c l r i run len7 by auto
qed

text \<open>
  C3. For every anchor \<open>a\<close> and a row whose 4 box values and 14 landmark values are all
  zero, the decoded box has \<open>startPoint = endPoint = a * inputSize\<close> and each of the 7
  decoded landmark points is \<open>a * inputSize\<close>. The width and the height are not zero:
  the runtime's \<open>0 / 0\<close> is not a number, which the real numbers of this model do not
  have.
\<close>

theorem zero_regression_decodes_to_the_anchor:
  assumes "HandDetector_new gm w h ANCHORS iou thr s0 = (Inr this, s1)"
    and "w \<noteq> 0" and "h \<noteq> 0"
    and "length (tval prediction) = length ANCHORS"
    and "list_all (\<lambda>raw. length raw = 19) (tval prediction)"
    and "i < length ANCHORS"
    and "drop 1 (tval prediction ! i) = replicate 18 0"
  shows "\<exists>boxes lms s' s''.
     tf_bind (tf_slice2d prediction (0, 1) (- 1, 4)) (normalizeBoxes this) s = (Inr boxes, s') \<and>
     tf_bind (tf_slice2d prediction (0, 5) (- 1, 14)) (decode_landmarks this) s' = (Inr lms, s'') \<and>
     tval boxes ! i =
       [x_center (ANCHORS ! i) * w, y_center (ANCHORS ! i) * h,
        x_center (ANCHORS ! i) * w, y_center (ANCHORS ! i) * h] \<and>
     tval lms ! i = replicate 7 [x_center (ANCHORS ! i) * w, y_center (ANCHORS ! i) * h]"
proof -
  note d = HandDetector_new_wf [OF assms(1)]
  have r19: "\<forall>r \<in> set (tval prediction). length r = 19"
    using assms(5) by (simp add: list_all_iff)
  have len: "length (tval prediction) = length (tval (anchors this))"
    using assms(4) d(5) by simp
  let ?raw = "tval prediction ! i"
  have z1: "take 2 (drop (Suc 0) ?raw) = [0, 0]"
    using assms(7) unfolding One_nat_def by (simp only: take_replicate) (simp add: numeral_2_eq_2)
  have "drop 3 ?raw = drop 2 (drop 1 ?raw)" by simp
  then have z3: "take 2 (drop 3 ?raw) = [0, 0]"
    unfolding assms(7) by (simp add: numeral_2_eq_2)
  have zk: "raw_landmark ?raw k = [0, 0]" if "k < 7" for k
  proof -
    have "drop (5 + 2 * k) ?raw = drop (4 + 2 * k) (drop 1 ?raw)" by simp
    then have "raw_landmark ?raw k = replicate (min 2 (18 - (4 + 2 * k))) 0"
      unfolding raw_landmark_def assms(7) by simp
    moreover have "min 2 (18 - (4 + 2 * k)) = 2" using that by simp
    ultimately have "raw_landmark ?raw k = replicate 2 0" by (simp only:)
    moreover have "replicate 2 (0::real) = [0, 0]" by (simp add: numeral_2_eq_2)
    ultimately show ?thesis by (simp only:)
  qed
  have box: "decoded_boxes this (tval prediction) ! i =
       [x_center (ANCHORS ! i) * w, y_center (ANCHORS ! i) * h,
        x_center (ANCHORS ! i) * w, y_center (ANCHORS ! i) * h]"
    unfolding decoded_boxes_nth [OF assms(1,4,6)]
    by (simp add: spec_decode_box_def Let_def z1 z3)
  have "map (\<lambda>k. spec_decode_landmark [w, h] (raw_landmark ?raw k)
                  [x_center (ANCHORS ! i), y_center (ANCHORS ! i)]) [0..<7]
      = map (\<lambda>k. [x_center (ANCHORS ! i) * w, y_center (ANCHORS ! i) * h]) [0..<7]"
    by (rule map_cong [OF refl]) (simp add: zk spec_decode_landmark_def)
  then have lm: "decoded_landmarks this (tval prediction) ! i =
      replicate 7 [x_center (ANCHORS ! i) * w, y_center (ANCHORS ! i) * h]"
    unfolding decoded_landmarks_nth [OF assms(1,4,6)] by (simp add: map_replicate_const)
  show ?thesis
    using decode_boxes_run [OF d(1) len r19, of s]
      decode_landmarks_run [OF d(1) len r19, of "allocs 11 s"] box lm
    by simp
qed

theorem zero_regression_decodes_to_the_anchor_witness:
  "HandDetector_new (example_model example_rows) 256 128 example_anchors (3 / 10) (3 / 4) example_state
     = (Inr (example_detector (example_model example_rows) 256 128 (3 / 10) (3 / 4)),
        \<lparr>live = [0, 1, 2], nextId = 3\<rparr>) \<and>
   (256::real) \<noteq> 0 \<and> (128::real) \<noteq> 0 \<and>
   length example_rows = length example_anchors \<and>
   list_all (\<lambda>raw. length raw = 19) example_rows \<and>
   (1::nat) < length example_anchors \<and>
   drop 1 (example_rows ! 1) = replicate 18 0 \<and>
   (\<exists>boxes lms s' s''.
     tf_bind (tf_slice2d \<lparr>tid = 7, tval = example_rows\<rparr> (0, 1) (- 1, 4))
       (normalizeBoxes (example_detector (example_model example_rows) 256 128 (3 / 10) (3 / 4)))
       \<lparr>live = [0, 1, 2], nextId = 8\<rparr> = (Inr boxes, s') \<and>
     tf_bind (tf_slice2d \<lparr>tid = 7, tval = example_rows\<rparr> (0, 5) (- 1, 14))
       (decode_landmarks (example_detector (example_model example_rows) 256 128 (3 / 10) (3 / 4)))
       s' = (Inr lms, s'') \<and>
     tval boxes ! 1 = [192, 96, 192, 96] \<and>
     tval lms ! 1 = replicate 7 [192, 96])"
proof -
  have c: "HandDetector_new (example_model example_rows) 256 128 example_anchors (3 / 10) (3 / 4) example_state
     = (Inr (example_detector (example_model example_rows) 256 128 (3 / 10) (3 / 4)),
        \<lparr>live = [0, 1, 2], nextId = 3\<rparr>)"
    by (rule example_detector_new)
  have nz: "(256::real) \<noteq> 0" "(128::real) \<noteq> 0" by simp_all
  have l: "length (tval \<lparr>tid = 7, tval = example_rows\<rparr>) = length example_anchors"
    by (simp add: example_rows_def example_anchors_def)
  have r: "list_all (\<lambda>raw. length raw = 19) (tval \<lparr>tid = (7::nat), tval = example_rows\<rparr>)"
    by (simp add: example_rows_def)
  have i: "(1::nat) < length example_anchors"
    by (simp add: example_anchors_def)
  have z: "drop 1 (tval \<lparr>tid = (7::nat), tval = example_rows\<rparr> ! 1) = replicate 18 0"
    by (simp add: example_rows_def numeral_eq_Suc)
  have a: "x_center (example_anchors ! 1) * 256 = 192" "y_center (example_anchors ! 1) * 128 = 96"
    by (simp_all add: example_anchors_def)
  from zero_regression_decodes_to_the_anchor [OF c nz l r i z, of "\<lparr>live = [0, 1, 2], nextId = 8\<rparr>"]
  show ?thesis
    using c l r i z unfolding a by simp
qed

text \<open>
  C4. \<^verbatim>\<open>_getBoundingBox\<close> passes all decoded boxes, the scores, the number 1 and the
  detector's two thresholds to non-maximum suppression, and takes the first index of the
  answer. The suppression itself is the runtime's; with the spec's suppression, when
  row \<open>i\<close> scores at or above the score threshold and every other row scores strictly
  lower, the answer is exactly \<open>[i]\<close> and the call returns the detection of row \<open>i\<close>,
  whatever the overlap of the boxes. So of two candidates at or above the score
  threshold only the higher-scoring one survives, both when their boxes overlap by more
  than the IoU threshold and when they overlap by less.
\<close>

theorem highest_scoring_candidate_survives_alone:
  assumes "HandDetector_new gm w h ANCHORS iou thr s0 = (Inr this, s1)"
    and "well_formed_call (spec_runtime resize) this input rows"
    and "i < length rows"
    and "thr \<le> sigmoid (rows ! i ! 0)"
    and "\<forall>j < length rows. j \<noteq> i \<longrightarrow> sigmoid (rows ! j ! 0) < sigmoid (rows ! i ! 0)"
  shows "nonMaxSuppression (decoded_boxes this rows) (scores_value rows) 1 iou thr = [i] \<and>
     fst (getSingleBoundingBox (spec_runtime resize) this input s) =
       Inr (Some (detection this input rows i))"
proof -
  have wf: "wf_detector this" by (rule HandDetector_new_wf(1) [OF assms(1)])
  have cfg: "iouThreshold this = iou" "scoreThreshold this = thr"
    unfolding HandDetector_new_Inr(1) [OF assms(1)] by simp_all
  have nms: "nonMaxSuppression (decoded_boxes this rows) (scores_value rows) 1 iou thr = [i]"
    using assms(3,4,5) by (intro nonMaxSuppression_unique_max) simp_all
  with getSingleBoundingBox_cases [OF wf assms(2), of s] assms(3) cfg show ?thesis
    by simp
qed

theorem highest_scoring_candidate_survives_alone_witness:
  "HandDetector_new (example_model example_call_rows) 1 1 example_anchors (3 / 10) (1 / 4) example_state
     = (Inr (example_detector (example_model example_call_rows) 1 1 (3 / 10) (1 / 4)),
        \<lparr>live = [0, 1, 2], nextId = 3\<rparr>) \<and>
   well_formed_call (spec_runtime example_resize)
     (example_detector (example_model example_call_rows) 1 1 (3 / 10) (1 / 4))
     example_input example_call_rows \<and>
   (1::nat) < length example_call_rows \<and>
   1 / 4 \<le> sigmoid (example_call_rows ! 0 ! 0) \<and>
   1 / 4 \<le> sigmoid (example_call_rows ! 1 ! 0) \<and>
   sigmoid (example_call_rows ! 0 ! 0) < sigmoid (example_call_rows ! 1 ! 0) \<and>
   3 / 10 < intersectionOverUnion
     (decoded_boxes (example_detector (example_model example_call_rows) 1 1 (3 / 10) (1 / 4))
        example_call_rows ! 0)
     (decoded_boxes (example_detector (example_model example_call_rows) 1 1 (3 / 10) (1 / 4))
        example_call_rows ! 1) \<and>
   nonMaxSuppression
     (decoded_boxes (example_detector (example_model example_call_rows) 1 1 (3 / 10) (1 / 4))
        example_call_rows)
     (scores_value example_call_rows) 1 (3 / 10) (1 / 4) = [1] \<and>
   fst (getSingleBoundingBox (spec_runtime example_resize)
          (example_detector (example_model example_call_rows) 1 1 (3 / 10) (1 / 4))
          example_input example_state_before_call) =
     Inr (Some (detection (example_detector (example_model example_call_rows) 1 1 (3 / 10) (1 / 4))
                  example_input example_call_rows 1))"
proof -
  let ?d = "example_detector (example_model example_call_rows) 1 1 (3 / 10) (1 / 4)"
  have c: "HandDetector_new (example_model example_call_rows) 1 1 example_anchors (3 / 10) (1 / 4)
      example_state = (Inr ?d, \<lparr>live = [0, 1, 2], nextId = 3\<rparr>)"
    by (rule example_detector_new)
  have w: "well_formed_call (spec_runtime example_resize) ?d example_input example_call_rows"
    by (rule example_well_formed_call) (simp_all add: example_call_rows_def)
  have i: "(1::nat) < length example_call_rows"
    by (simp add: example_call_rows_def)
  have s0: "example_call_rows ! 0 ! 0 = 0" and s1: "example_call_rows ! 1 ! 0 = 1"
    by (simp_all add: example_call_rows_def)
  have t0: "1 / 4 \<le> sigmoid (example_call_rows ! 0 ! 0)"
    unfolding s0 by (simp add: sigmoid_0)
  have lt: "sigmoid (example_call_rows ! 0 ! 0) < sigmoid (example_call_rows ! 1 ! 0)"
    unfolding s0 s1 by (rule sigmoid_0_less_1)
  have t1: "1 / 4 \<le> sigmoid (example_call_rows ! 1 ! 0)"
    using t0 lt by simp
  have mx: "\<forall>j < length example_call_rows. j \<noteq> 1 \<longrightarrow>
      sigmoid (example_call_rows ! j ! 0) < sigmoid (example_call_rows ! 1 ! 0)"
  proof (intro allI impI)
    fix j assume "j < length example_call_rows" "j \<noteq> 1"
    then have "j = 0" by (simp add: example_call_rows_def)
    with lt show "sigmoid (example_call_rows ! j ! 0) < sigmoid (example_call_rows ! 1 ! 0)"
      by simp
  qed
  have b0: "decoded_boxes ?d example_call_rows ! 0 = [10, 10, 20, 20]"
    and b1: "decoded_boxes ?d example_call_rows ! 1 = [10, 10, 20, 20]"
    by (simp_all add: decoded_boxes_def example_detector_def example_call_rows_def
        spec_decode_box_def)
  have iou: "3 / 10 < intersectionOverUnion (decoded_boxes ?d example_call_rows ! 0)
      (decoded_boxes ?d example_call_rows ! 1)"
    unfolding b0 b1
    by (simp add: intersectionOverUnion_def intersection_area_def box_area_def Let_def)
  from highest_scoring_candidate_survives_alone [OF c w i t1 mx, of example_state_before_call]
  show ?thesis
    using c w i t0 t1 lt iou by simp
qed

text \<open>
  C5. With the spec's suppression, a detection that a call returns is the detection of
  the one row that suppression selects, and that row's score \<open>sigmoid (raw[0])\<close> is at or
  above the score threshold: a row below the threshold is never the selected one.
\<close>

theorem detection_comes_from_a_row_at_or_above_the_threshold:
  assumes "HandDetector_new gm w h ANCHORS iou thr s0 = (Inr this, s1)"
    and "well_formed_call (spec_runtime resize) this input rows"
    and "fst (getSingleBoundingBox (spec_runtime resize) this input s) = Inr (Some bb)"
  shows "\<exists>i. i < length rows \<and> thr \<le> sigmoid (rows ! i ! 0) \<and>
     nonMaxSuppression (decoded_boxes this rows) (scores_value rows) 1 iou thr = [i] \<and>
     bb = detection this input rows i"
proof -
  have wf: "wf_detector this" by (rule HandDetector_new_wf(1) [OF assms(1)])
  have cfg: "iouThreshold this = iou" "scoreThreshold this = thr"
    unfolding HandDetector_new_Inr(1) [OF assms(1)] by simp_all
  note cases = getSingleBoundingBox_cases [OF wf assms(2), of s]
  show ?thesis
  proof (cases rule: nonMaxSuppression_one_cases
      [of "decoded_boxes this rows" "scores_value rows" iou thr])
    case none
    with cases cfg assms(3) show ?thesis by simp
  next
    case (one i)
    then have i: "i < length rows" "thr \<le> sigmoid (rows ! i ! 0)" by simp_all
    from one(1) cases cfg i(1) assms(3) have "bb = detection this input rows i" by simp
    with one(1) i show ?thesis by blast
  qed
qed

theorem detection_comes_from_a_row_at_or_above_the_threshold_witness:
  "HandDetector_new (example_model example_call_rows) 1 1 example_anchors (3 / 10) (1 / 4) example_state
     = (Inr (example_detector (example_model example_call_rows) 1 1 (3 / 10) (1 / 4)),
        \<lparr>live = [0, 1, 2], nextId = 3\<rparr>) \<and>
   well_formed_call (spec_runtime example_resize)
     (example_detector (example_model example_call_rows) 1 1 (3 / 10) (1 / 4))
     example_input example_call_rows \<and>
   fst (getSingleBoundingBox (spec_runtime example_resize)
          (example_detector (example_model example_call_rows) 1 1 (3 / 10) (1 / 4))
          example_input example_state_before_call) =
     Inr (Some (detection (example_detector (example_model example_call_rows) 1 1 (3 / 10) (1 / 4))
                  example_input example_call_rows 1)) \<and>
   (\<exists>i. i < length example_call_rows \<and> 1 / 4 \<le> sigmoid (example_call_rows ! i ! 0) \<and>
      nonMaxSuppression
        (decoded_boxes (example_detector (example_model example_call_rows) 1 1 (3 / 10) (1 / 4))
           example_call_rows)
        (scores_value example_call_rows) 1 (3 / 10) (1 / 4) = [i] \<and>
      detection (example_detector (example_model example_call_rows) 1 1 (3 / 10) (1 / 4))
        example_input example_call_rows 1 =
      detection (example_detector (example_model example_call_rows) 1 1 (3 / 10) (1 / 4))
        example_input example_call_rows i)"
proof -
  let ?d = "example_detector (example_model example_call_rows) 1 1 (3 / 10) (1 / 4)"
  have c: "HandDetector_new (example_model example_call_rows) 1 1 example_anchors (3 / 10) (1 / 4)
      example_state = (Inr ?d, \<lparr>live = [0, 1, 2], nextId = 3\<rparr>)"
    by (rule example_detector_new)
  have w: "well_formed_call (spec_runtime example_resize) ?d example_input example_call_rows"
    by (rule example_well_formed_call) (simp_all add: example_call_rows_def)
  have wf: "wf_detector ?d" by (rule HandDetector_new_wf(1) [OF c])
  have s0: "example_call_rows ! 0 ! 0 = 0" and s1: "example_call_rows ! 1 ! 0 = 1"
    by (simp_all add: example_call_rows_def)
  have lt: "sigmoid (example_call_rows ! 0 ! 0) < sigmoid (example_call_rows ! 1 ! 0)"
    unfolding s0 s1 by (rule sigmoid_0_less_1)
  have t1: "1 / 4 \<le> sigmoid (example_call_rows ! 1 ! 0)"
    using lt unfolding s0 by (simp add: sigmoid_0)
  have mx: "\<forall>j < length (scores_value example_call_rows). j \<noteq> 1 \<longrightarrow>
      scores_value example_call_rows ! j < scores_value example_call_rows ! 1"
  proof (intro allI impI)
    fix j assume "j < length (scores_value example_call_rows)" "j \<noteq> 1"
    then have "j = 0" by (simp add: example_call_rows_def)
    with lt show "scores_value example_call_rows ! j < scores_value example_call_rows ! 1"
      by (simp add: example_call_rows_def scores_value_def)
  qed
  have "nonMaxSuppression (decoded_boxes ?d example_call_rows) (scores_value example_call_rows) 1
      (3 / 10) (1 / 4) = [1]"
    using t1 mx by (intro nonMaxSuppression_unique_max) (simp_all add: example_call_rows_def scores_value_def)
  then have r: "fst (getSingleBoundingBox (spec_runtime example_resize) ?d example_input
      example_state_before_call) = Inr (Some (detection ?d example_input example_call_rows 1))"
    using getSingleBoundingBox_cases [OF wf w, of example_state_before_call]
    by (simp add: example_detector_def example_call_rows_def)
  from detection_comes_from_a_row_at_or_above_the_threshold [OF c w r]
  show ?thesis using c w r by simp
qed




text \<open>
  C7. A detection that a call returns is the selected row's decoded box and landmarks,
  each x coordinate multiplied by \<open>originalWidth / width\<close> and each y coordinate by
  \<open>originalHeight / height\<close>, where the original width and height are the third and the
  second dimension of the input. The scaling is \<^verbatim>\<open>scaleBoxCoordinates\<close>, as the spec
  describes it; with the factors \<open>(2, 2)\<close> it takes the box from \<open>(10, 10)\<close> to \<open>(20, 20)\<close> to
  the box from \<open>(20, 20)\<close> to \<open>(40, 40)\<close>.
\<close>

theorem detection_is_rescaled_to_the_original_image:
  assumes "HandDetector_new gm w h ANCHORS iou thr s0 = (Inr this, s1)"
    and "well_formed_call rt this input rows"
    and "fst (getSingleBoundingBox rt this input s) = Inr (Some bb)"
  shows "(\<exists>i. i < length rows \<and>
       startPoint bb =
         [decoded_boxes this rows ! i ! 0 * (real (shape2 (tval input)) / w),
          decoded_boxes this rows ! i ! 1 * (real (shape1 (tval input)) / h)] \<and>
       endPoint bb =
         [decoded_boxes this rows ! i ! 2 * (real (shape2 (tval input)) / w),
          decoded_boxes this rows ! i ! 3 * (real (shape1 (tval input)) / h)] \<and>
       landmarks bb =
         map (\<lambda>p. [p ! 0 * (real (shape2 (tval input)) / w), p ! 1 * (real (shape1 (tval input)) / h)])
           (decoded_landmarks this rows ! i)) \<and>
     scaleBoxCoordinates \<lparr>startPoint = [10, 10], endPoint = [20, 20], landmarks = ps\<rparr> (2, 2) =
       \<lparr>startPoint = [20, 20], endPoint = [40, 40], landmarks = map (\<lambda>p. scalePoint p (2, 2)) ps\<rparr>"
proof -
  note d = HandDetector_new_wf [OF assms(1)]
  note c = well_formed_callD [OF assms(2)]
  let ?N = "rt_nonMaxSuppression rt (decoded_boxes this rows) (scores_value rows) 1
       (iouThreshold this) (scoreThreshold this)"
  note cases = getSingleBoundingBox_cases [OF d(1) assms(2), of s]
  have "\<exists>i. i < length rows \<and> bb = detection this input rows i"
  proof (cases ?N)
    case (Inl e)
    with cases assms(3) show ?thesis by simp
  next
    case (Inr idxs)
    with cases assms(3) show ?thesis
      by (cases idxs) (auto split: if_splits)
  qed
  then obtain i where i: "i < length rows" and bb: "bb = detection this input rows i"
    by blast
  have "scaleBoxCoordinates \<lparr>startPoint = [10, 10], endPoint = [20, 20], landmarks = ps\<rparr> (2, 2) =
       \<lparr>startPoint = [20, 20], endPoint = [40, 40], landmarks = map (\<lambda>p. scalePoint p (2, 2)) ps\<rparr>"
    by (simp add: scaleBoxCoordinates_def scalePoint_def)
  with detection_fields [OF d(1) c i, of input] i show ?thesis
    unfolding bb d(2,3) by blast
qed

theorem detection_is_rescaled_to_the_original_image_witness:
  "HandDetector_new (example_model example_call_rows) 1 1 example_anchors (3 / 10) (1 / 4) example_state
     = (Inr (example_detector (example_model example_call_rows) 1 1 (3 / 10) (1 / 4)),
        \<lparr>live = [0, 1, 2], nextId = 3\<rparr>) \<and>
   well_formed_call (spec_runtime example_resize)
     (example_detector (example_model example_call_rows) 1 1 (3 / 10) (1 / 4))
     example_input example_call_rows \<and>
   fst (getSingleBoundingBox (spec_runtime example_resize)
          (example_detector (example_model example_call_rows) 1 1 (3 / 10) (1 / 4))
          example_input example_state_before_call) =
     Inr (Some \<lparr>startPoint = [20, 20], endPoint = [40, 40],
                landmarks = [[3 / 2, 3 / 2], [3 / 2, 3 / 2], [3 / 2, 3 / 2], [3 / 2, 3 / 2],
                             [3 / 2, 3 / 2], [3 / 2, 3 / 2], [3 / 2, 3 / 2]]\<rparr>) \<and>
   decoded_boxes (example_detector (example_model example_call_rows) 1 1 (3 / 10) (1 / 4))
     example_call_rows ! 1 = [10, 10, 20, 20] \<and>
   real (shape2 (tval example_input)) / 1 = 2 \<and> real (shape1 (tval example_input)) / 1 = 2 \<and>
   scaleBoxCoordinates \<lparr>startPoint = [10, 10], endPoint = [20, 20], landmarks = []\<rparr> (2, 2) =
     \<lparr>startPoint = [20, 20], endPoint = [40, 40], landmarks = []\<rparr>"
proof -
  let ?d = "example_detector (example_model example_call_rows) 1 1 (3 / 10) (1 / 4)"
  let ?bb = "\<lparr>startPoint = [20, 20], endPoint = [40, 40],
                landmarks = [[3 / 2, 3 / 2], [3 / 2, 3 / 2], [3 / 2, 3 / 2], [3 / 2, 3 / 2],
                             [3 / 2, 3 / 2], [3 / 2, 3 / 2], [3 / 2, 3 / 2 :: real]]\<rparr>"
  have c: "HandDetector_new (example_model example_call_rows) 1 1 example_anchors (3 / 10) (1 / 4)
      example_state = (Inr ?d, \<lparr>live = [0, 1, 2], nextId = 3\<rparr>)"
    by (rule example_detector_new)
  have w: "well_formed_call (spec_runtime example_resize) ?d example_input example_call_rows"
    by (rule example_well_formed_call) (simp_all add: example_call_rows_def)
  have wf: "wf_detector ?d" by (rule HandDetector_new_wf(1) [OF c])
  have s0: "example_call_rows ! 0 ! 0 = 0" and s1: "example_call_rows ! 1 ! 0 = 1"
    by (simp_all add: example_call_rows_def)
  have lt: "sigmoid (example_call_rows ! 0 ! 0) < sigmoid (example_call_rows ! 1 ! 0)"
    unfolding s0 s1 by (rule sigmoid_0_less_1)
  have t1: "1 / 4 \<le> sigmoid (example_call_rows ! 1 ! 0)"
    using lt unfolding s0 by (simp add: sigmoid_0)
  have mx: "\<forall>j < length (scores_value example_call_rows). j \<noteq> 1 \<longrightarrow>
      scores_value example_call_rows ! j < scores_value example_call_rows ! 1"
  proof (intro allI impI)
    fix j assume "j < length (scores_value example_call_rows)" "j \<noteq> 1"
    then have "j = 0" by (simp add: example_call_rows_def)
    with lt show "scores_value example_call_rows ! j < scores_value example_call_rows ! 1"
      by (simp add: example_call_rows_def scores_value_def)
  qed
  have "nonMaxSuppression (decoded_boxes ?d example_call_rows) (scores_value example_call_rows) 1
      (3 / 10) (1 / 4) = [1]"
    using t1 mx by (intro nonMaxSuppression_unique_max) (simp_all add: example_call_rows_def scores_value_def)
  then have r: "fst (getSingleBoundingBox (spec_runtime example_resize) ?d example_input
      example_state_before_call) = Inr (Some (detection ?d example_input example_call_rows 1))"
    using getSingleBoundingBox_cases [OF wf w, of example_state_before_call]
    by (simp add: example_detector_def example_call_rows_def)
  have b1: "decoded_boxes ?d example_call_rows ! 1 = [10, 10, 20, 20]"
    by (simp add: decoded_boxes_def example_detector_def example_call_rows_def spec_decode_box_def)
  have l1: "decoded_landmarks ?d example_call_rows ! 1 =
      [[3 / 4, 3 / 4], [3 / 4, 3 / 4], [3 / 4, 3 / 4], [3 / 4, 3 / 4],
       [3 / 4, 3 / 4], [3 / 4, 3 / 4], [3 / 4, 3 / 4]]"
    by (simp add: decoded_landmarks_def example_detector_def example_call_rows_def
        spec_decode_landmark_def raw_landmark_def upt_rec [of _ 7] upt_rec [of _ "Suc _"])
  have f: "real (shape2 (tval example_input)) / 1 = 2" "real (shape1 (tval example_input)) / 1 = 2"
    by (simp_all add: example_input_def)
  have v: "detection ?d example_input example_call_rows 1 = ?bb"
    unfolding detection_def b1 l1
    by (simp add: scaleBoxCoordinates_def scalePoint_def example_input_def example_detector_def)
  from detection_is_rescaled_to_the_original_image [OF c w r, of "[]"]
  show ?thesis using c w r b1 f unfolding v by simp
qed

text \<open>
  C8. Not every intermediate tensor is released on every exit path. When no box
  survives, \<^verbatim>\<open>getSingleBoundingBox\<close> returns \<open>null\<close> before it reaches \<^verbatim>\<open>image.dispose()\<close>,
  and the resized image stays live. In the call below every score is \<open>sigmoid 0 = 1 / 2\<close>,
  under the score threshold \<open>3 / 4\<close>. Before the call tensors 0 to 3 are live (the
  detector's three and the input). The call creates tensors 4 to 24 and returns \<open>null\<close>;
  after it tensor 5, the resized image divided by 255, is still live. On the path that
  returns a detection the same tensor is disposed of
  (lemma \<open>getSingleBoundingBox_Some\<close>).
\<close>

theorem absent_result_leaves_the_image_tensor_live:
  "getSingleBoundingBox (spec_runtime example_resize)
     (example_detector (example_model example_rows) 1 1 (3 / 10) (3 / 4))
     example_input \<lparr>live = [0, 1, 2, 3], nextId = 4\<rparr> =
     (Inr None, \<lparr>live = [0, 1, 2, 3, 5], nextId = 25\<rparr>)"
proof -
  let ?d = "example_detector (example_model example_rows) 1 1 (3 / 10) (3 / 4)"
  let ?s = "\<lparr>live = [0, 1, 2, 3], nextId = 4\<rparr>"
  have c: "HandDetector_new (example_model example_rows) 1 1 example_anchors (3 / 10) (3 / 4)
      example_state = (Inr ?d, \<lparr>live = [0, 1, 2], nextId = 3\<rparr>)"
    by (rule example_detector_new)
  have wf: "wf_detector ?d" by (rule HandDetector_new_wf(1) [OF c])
  have ws: "wf_state ?s" by (simp add: wf_state_def)
  have rs: "rt_resizeBilinear (spec_runtime example_resize) (tval example_input) (width ?d, height ?d)
      = Inr (the_resized)" if "the_resized = \<lparr>shape0 = 1, shape1 = 1, shape2 = 1, shape3 = 3,
          entries = [0, 0, 0]\<rparr>" for the_resized
    using that by (simp add: example_resize_def example_input_def)
  define resized where "resized = \<lparr>shape0 = 1, shape1 = 1, shape2 = 1, shape3 = 3,
          entries = [0, 0, 0 :: real]\<rparr>"
  have pr: "predict (model ?d) (model_input (resized_image resized)) = Inr [example_rows]"
    by (simp add: example_detector_def example_model_def)
  have len: "length example_rows = length (tval (anchors ?d))"
    by (simp add: example_rows_def example_detector_def)
  have n1: "length example_rows \<noteq> 1" by (simp add: example_rows_def)
  have r19: "\<forall>r \<in> set example_rows. length r = 19" by (simp add: example_rows_def)
  have "\<forall>j < length (scores_value example_rows). scores_value example_rows ! j < 3 / 4"
    by (simp add: example_rows_def scores_value_def sigmoid_0 less_Suc_eq)
  then have "candidates (scores_value example_rows) (3 / 4) = []"
    by (simp only: candidates_empty)
  then have nms: "rt_nonMaxSuppression (spec_runtime example_resize)
     (decoded_boxes ?d example_rows) (scores_value example_rows) 1 (iouThreshold ?d) (scoreThreshold ?d)
       = Inr []"
    by (simp add: nonMaxSuppression_one example_detector_def)
  from getSingleBoundingBox_None [OF wf ws rs [OF resized_def] pr len n1 r19 nms]
  show ?thesis by simp
qed

text \<open>
  C9. When \<^verbatim>\<open>_getBoundingBox\<close> returns a box and landmarks, both are taken at one index
  \<open>i\<close>, the first index of the suppression's answer: the box tensor holds the one box
  decoded from row \<open>i\<close> against anchor \<open>i\<close>, and the landmarks tensor the 7 points decoded
  from row \<open>i\<close> against the same anchor \<open>i\<close>.
\<close>

theorem box_and_landmarks_come_from_the_same_row:
  assumes "HandDetector_new gm w h ANCHORS iou thr s0 = (Inr this, s1)"
    and "well_formed_prediction this (tval img) rows"
    and "getBoundingBox rt this img s = (Inr (Some (b, l)), s')"
  shows "\<exists>i rest.
     rt_nonMaxSuppression rt (decoded_boxes this rows) (scores_value rows) 1 iou thr = Inr (i # rest) \<and>
     i < length ANCHORS \<and>
     tval b =
       [fst (spec_decode_box [w, h] (rows ! i) [x_center (ANCHORS ! i), y_center (ANCHORS ! i)]) @
        snd (spec_decode_box [w, h] (rows ! i) [x_center (ANCHORS ! i), y_center (ANCHORS ! i)])] \<and>
     tval l =
       map (\<lambda>k. spec_decode_landmark [w, h] (raw_landmark (rows ! i) k)
                  [x_center (ANCHORS ! i), y_center (ANCHORS ! i)]) [0..<7]"
proof -
  note d = HandDetector_new_wf [OF assms(1)]
  have cfg: "iouThreshold this = iou" "scoreThreshold this = thr"
    unfolding HandDetector_new_Inr(1) [OF assms(1)] by simp_all
  have len: "length rows = length ANCHORS"
    using well_formed_predictionD(2) [OF assms(2)] d(5) by simp
  from getBoundingBox_Some_inv [OF d(1) assms(2,3)]
  obtain i rest where n: "rt_nonMaxSuppression rt (decoded_boxes this rows) (scores_value rows) 1
       iou thr = Inr (i # rest)"
    and i: "i < length rows"
    and b: "tval b = [decoded_boxes this rows ! i]"
    and l: "tval l = decoded_landmarks this rows ! i"
    unfolding cfg by blast
  have i': "i < length ANCHORS" using i len by simp
  show ?thesis
    using n i' b l
    unfolding decoded_boxes_nth [OF assms(1) len i'] decoded_landmarks_nth [OF assms(1) len i']
    by blast
qed

theorem box_and_landmarks_come_from_the_same_row_witness:
  "HandDetector_new (example_model example_call_rows) 1 1 example_anchors (3 / 10) (1 / 4) example_state
     = (Inr (example_detector (example_model example_call_rows) 1 1 (3 / 10) (1 / 4)),
        \<lparr>live = [0, 1, 2], nextId = 3\<rparr>) \<and>
   well_formed_prediction (example_detector (example_model example_call_rows) 1 1 (3 / 10) (1 / 4))
     (tval example_input) example_call_rows \<and>
   getBoundingBox (spec_runtime example_resize)
     (example_detector (example_model example_call_rows) 1 1 (3 / 10) (1 / 4))
     example_input example_state_before_call =
     (Inr (Some (\<lparr>tid = 23, tval = [[10, 10, 20, 20]]\<rparr>,
                 \<lparr>tid = 31,
                    tval = [[3 / 4, 3 / 4], [3 / 4, 3 / 4], [3 / 4, 3 / 4], [3 / 4, 3 / 4],
                            [3 / 4, 3 / 4], [3 / 4, 3 / 4], [3 / 4, 3 / 4]]\<rparr>)),
      \<lparr>live = [0, 1, 2, 3, 23, 31], nextId = 32\<rparr>) \<and>
   (\<exists>i rest.
     rt_nonMaxSuppression (spec_runtime example_resize)
       (decoded_boxes (example_detector (example_model example_call_rows) 1 1 (3 / 10) (1 / 4))
          example_call_rows)
       (scores_value example_call_rows) 1 (3 / 10) (1 / 4) = Inr (i # rest) \<and>
     i < length example_anchors \<and>
     [[10, 10, 20, 20]] =
       [fst (spec_decode_box [1, 1] (example_call_rows ! i)
               [x_center (example_anchors ! i), y_center (example_anchors ! i)]) @
        snd (spec_decode_box [1, 1] (example_call_rows ! i)
               [x_center (example_anchors ! i), y_center (example_anchors ! i)])] \<and>
     [[3 / 4, 3 / 4], [3 / 4, 3 / 4], [3 / 4, 3 / 4], [3 / 4, 3 / 4],
      [3 / 4, 3 / 4], [3 / 4, 3 / 4], [3 / 4, 3 / 4]] =
       map (\<lambda>k. spec_decode_landmark [1, 1] (raw_landmark (example_call_rows ! i) k)
                  [x_center (example_anchors ! i), y_center (example_anchors ! i)]) [0..<7])"
proof -
  let ?d = "example_detector (example_model example_call_rows) 1 1 (3 / 10) (1 / 4)"
  have c: "HandDetector_new (example_model example_call_rows) 1 1 example_anchors (3 / 10) (1 / 4)
      example_state = (Inr ?d, \<lparr>live = [0, 1, 2], nextId = 3\<rparr>)"
    by (rule example_detector_new)
  have wf: "wf_detector ?d" by (rule HandDetector_new_wf(1) [OF c])
  have ws: "wf_state example_state_before_call"
    by (simp add: wf_state_def example_state_before_call_def)
  have wp: "well_formed_prediction ?d (tval example_input) example_call_rows"
    by (simp add: well_formed_prediction_def example_detector_def example_model_def
        example_call_rows_def)
  have s0: "example_call_rows ! 0 ! 0 = 0" and s1: "example_call_rows ! 1 ! 0 = 1"
    by (simp_all add: example_call_rows_def)
  have lt: "sigmoid (example_call_rows ! 0 ! 0) < sigmoid (example_call_rows ! 1 ! 0)"
    unfolding s0 s1 by (rule sigmoid_0_less_1)
  have t1: "1 / 4 \<le> sigmoid (example_call_rows ! 1 ! 0)"
    using lt unfolding s0 by (simp add: sigmoid_0)
  have mx: "\<forall>j < length (scores_value example_call_rows). j \<noteq> 1 \<longrightarrow>
      scores_value example_call_rows ! j < scores_value example_call_rows ! 1"
  proof (intro allI impI)
    fix j assume "j < length (scores_value example_call_rows)" "j \<noteq> 1"
    then have "j = 0" by (simp add: example_call_rows_def)
    with lt show "scores_value example_call_rows ! j < scores_value example_call_rows ! 1"
      by (simp add: example_call_rows_def scores_value_def)
  qed
  have "nonMaxSuppression (decoded_boxes ?d example_call_rows) (scores_value example_call_rows) 1
      (3 / 10) (1 / 4) = [1]"
    using t1 mx by (intro nonMaxSuppression_unique_max) (simp_all add: example_call_rows_def scores_value_def)
  then have nms: "rt_nonMaxSuppression (spec_runtime example_resize)
      (decoded_boxes ?d example_call_rows) (scores_value example_call_rows) 1
      (iouThreshold ?d) (scoreThreshold ?d) = Inr [1]"
    by (simp add: example_detector_def)
  have i: "(1::nat) < length example_call_rows" by (simp add: example_call_rows_def)
  have b1: "decoded_boxes ?d example_call_rows ! 1 = [10, 10, 20, 20]"
    by (simp add: decoded_boxes_def example_detector_def example_call_rows_def spec_decode_box_def)
  have l1: "decoded_landmarks ?d example_call_rows ! 1 =
      [[3 / 4, 3 / 4], [3 / 4, 3 / 4], [3 / 4, 3 / 4], [3 / 4, 3 / 4],
       [3 / 4, 3 / 4], [3 / 4, 3 / 4], [3 / 4, 3 / 4]]"
    by (simp add: decoded_landmarks_def example_detector_def example_call_rows_def
        spec_decode_landmark_def raw_landmark_def upt_rec [of _ 7] upt_rec [of _ "Suc _"])
  have run: "getBoundingBox (spec_runtime example_resize) ?d example_input example_state_before_call =
     (Inr (Some (\<lparr>tid = 23, tval = [[10, 10, 20, 20]]\<rparr>,
                 \<lparr>tid = 31,
                    tval = [[3 / 4, 3 / 4], [3 / 4, 3 / 4], [3 / 4, 3 / 4], [3 / 4, 3 / 4],
                            [3 / 4, 3 / 4], [3 / 4, 3 / 4], [3 / 4, 3 / 4]]\<rparr>)),
      \<lparr>live = [0, 1, 2, 3, 23, 31], nextId = 32\<rparr>)"
    using getBoundingBox_Some [OF wf ws well_formed_predictionD [OF wp] nms i]
    unfolding b1 l1 by (simp add: example_state_before_call_def)
  from box_and_landmarks_come_from_the_same_row [OF c wp run]
  show ?thesis using c wp run by simp
qed

text \<open>
  C10. A call of \<^verbatim>\<open>getSingleBoundingBox\<close> leaves the configuration as it was. The model
  handle, the width, the height and the two thresholds are fields that no method
  assigns, and a tensor's value is immutable: the detector is a value that the call
  reads. What a call could do to the configuration is dispose of one of its three
  tensors; it does not: every tensor that is live before the call is live after it,
  on every path, an exception included. And the call's result does not depend on the
  runtime state, so a second call on the same input returns what the first returned.
\<close>

theorem a_call_leaves_the_configuration_as_it_was:
  assumes "wf_state s"
    and "tid (anchors this) \<in> set (live s)"
    and "tid (inputSizeTensor this) \<in> set (live s)"
    and "tid (doubleInputSizeTensor this) \<in> set (live s)"
  shows "tid (anchors this) \<in> set (live (snd (getSingleBoundingBox rt this input s))) \<and>
     tid (inputSizeTensor this) \<in> set (live (snd (getSingleBoundingBox rt this input s))) \<and>
     tid (doubleInputSizeTensor this) \<in> set (live (snd (getSingleBoundingBox rt this input s))) \<and>
     set (live s) \<subseteq> set (live (snd (getSingleBoundingBox rt this input s))) \<and>
     fst (getSingleBoundingBox rt this input (snd (getSingleBoundingBox rt this input s))) =
       fst (getSingleBoundingBox rt this input s)"
proof -
  let ?s' = "snd (getSingleBoundingBox rt this input s)"
  have "filter (\<lambda>t. t < nextId s) (live ?s') = live s"
    using assms(1) by (rule getSingleBoundingBox_keeps_live)
  then have "set (live s) = {t \<in> set (live ?s'). t < nextId s}"
    by (metis set_filter)
  then have sub: "set (live s) \<subseteq> set (live ?s')" by blast
  have "fst (getSingleBoundingBox rt this input ?s') = fst (getSingleBoundingBox rt this input s)"
    by (rule getSingleBoundingBox_state_independent)
  with sub assms(2,3,4) show ?thesis by blast
qed

theorem a_call_leaves_the_configuration_as_it_was_witness:
  "wf_state example_state_before_call \<and>
   tid (anchors (example_detector (example_model example_call_rows) 1 1 (3 / 10) (1 / 4)))
     \<in> set (live example_state_before_call) \<and>
   tid (inputSizeTensor (example_detector (example_model example_call_rows) 1 1 (3 / 10) (1 / 4)))
     \<in> set (live example_state_before_call) \<and>
   tid (doubleInputSizeTensor (example_detector (example_model example_call_rows) 1 1 (3 / 10) (1 / 4)))
     \<in> set (live example_state_before_call) \<and>
   {0, 1, 2, 3} \<subseteq>
     set (live (snd (getSingleBoundingBox (spec_runtime example_resize)
       (example_detector (example_model example_call_rows) 1 1 (3 / 10) (1 / 4))
       example_input example_state_before_call))) \<and>
   fst (getSingleBoundingBox (spec_runtime example_resize)
          (example_detector (example_model example_call_rows) 1 1 (3 / 10) (1 / 4))
          example_input
          (snd (getSingleBoundingBox (spec_runtime example_resize)
             (example_detector (example_model example_call_rows) 1 1 (3 / 10) (1 / 4))
             example_input example_state_before_call))) =
     fst (getSingleBoundingBox (spec_runtime example_resize)
          (example_detector (example_model example_call_rows) 1 1 (3 / 10) (1 / 4))
          example_input example_state_before_call)"
proof -
  let ?d = "example_detector (example_model example_call_rows) 1 1 (3 / 10) (1 / 4)"
  have ws: "wf_state example_state_before_call"
    by (simp add: wf_state_def example_state_before_call_def)
  have a: "tid (anchors ?d) \<in> set (live example_state_before_call)"
    and b: "tid (inputSizeTensor ?d) \<in> set (live example_state_before_call)"
    and c: "tid (doubleInputSizeTensor ?d) \<in> set (live example_state_before_call)"
    by (simp_all add: example_detector_def example_state_before_call_def)
  have l: "set (live example_state_before_call) = {0, 1, 2, 3}"
    by (simp add: example_state_before_call_def)
  from a_call_leaves_the_configuration_as_it_was [OF ws a b c,
      of "spec_runtime example_resize" example_input]
  show ?thesis using ws a b c unfolding l by simp
qed

end
